theory Spec2Isabelle
  imports Main "HOL-Library.AList"
begin

section \<open>Python values, errors and strings\<close>

text \<open>
  The naming core of pytorch-to-returnn (\<^verbatim>\<open>naming/namespace.py\<close>, \<^verbatim>\<open>naming/call.py\<close>)
  is a graph of mutable Python objects with cyclic references.  Every object lives in an
  arena of the session record and is referred to by its index; a Python reference is never
  dangling, so every arena is a total function and \<open>next_*\<close> is the allocation counter.
  An exception is the value \<open>Inl e\<close>, returned together with the session as it was when
  the exception left the function.  A computation that does not return at all is \<open>None\<close>.
\<close>

datatype error =
    AssertionError
  | KeyError
  | NotImplementedError
  | AttributeError
  | TypeError
  | ValueError
  | IndexError
  | ExternalError nat

text \<open>The values a layer description is built from (\<open>Dict[str, Any]\<close>).\<close>

datatype pyval =
    PNone
  | PBool bool
  | PInt int
  | PStr string
  | PList "pyval list"
  | PDict "(string \<times> pyval) list"

type_synonym ns_id = nat
type_synonym call_id = nat
type_synonym mod_id = nat
type_synonym tensor_id = nat
type_synonym ctx_id = nat
type_synonym net_id = nat
type_synonym layer_id = nat
type_synonym raw_tensor = nat

text \<open>Python's \<open>str(i)\<close> of a non-negative integer: its decimal digits.\<close>

definition digit_char :: "nat \<Rightarrow> char" where
  "digit_char d = char_of (48 + d)"

fun str_nat :: "nat \<Rightarrow> string" where
  "str_nat n = (if n < 10 then [digit_char n] else str_nat (n div 10) @ [digit_char (n mod 10)])"

declare str_nat.simps [simp del]

definition digit_val :: "char \<Rightarrow> nat" where
  "digit_val c = of_char c - 48"

definition nat_of_digits :: "string \<Rightarrow> nat" where
  "nat_of_digits cs = foldl (\<lambda>a c. 10 * a + digit_val c) 0 cs"

text \<open>\<open>s.startswith(p)\<close>.\<close>

definition startswith :: "string \<Rightarrow> string \<Rightarrow> bool" where
  "startswith s p = (take (length p) s = p)"

text \<open>\<open>d[k] = v\<close> on an insertion-ordered dictionary: an existing key keeps its place.\<close>

definition dict_set :: "(string \<times> 'v) list \<Rightarrow> string \<Rightarrow> 'v \<Rightarrow> (string \<times> 'v) list" where
  "dict_set d k v = AList.update k v d"

definition dict_keys :: "(string \<times> 'v) list \<Rightarrow> string list" where
  "dict_keys d = map fst d"

text \<open>\<open>xs.remove(x)\<close>: drops the first occurrence, \<open>ValueError\<close> when there is none.\<close>

definition list_remove :: "'a list \<Rightarrow> 'a \<Rightarrow> error + 'a list" where
  "list_remove xs x = (if x \<in> set xs then Inr (remove1 x xs) else Inl ValueError)"

section \<open>The data model\<close>

text \<open>
  An operation unit (\<open>module.module\<close>).  The core only asks a unit whether it has a torch
  forward, whether it is an original torch module and whether it owns parameters.
\<close>

record op_unit =
  has_torch_forward :: bool
  is_original_torch_module :: bool
  has_own_parameters :: bool
  unit_tag :: nat

text \<open>\<open>class RegisteredName\<close> (namespace.py, lines 13-27).\<close>

record RegisteredName =
  rn_childs_by_name :: "(string \<times> ns_id) list"
  rn_parent :: "ns_id option"
  rn_name :: "string option"
  rn_level :: nat
  rn_modules :: "mod_id list"
  rn_calls :: "call_id list"
  rn_tensor :: "tensor_id option"
  rn_returnn_ctx :: "ctx_id option"
  rn_is_reserved :: bool
  rn_is_subnet :: bool
  rn_wrap_to_returnn_enabled :: bool
  rn_inputs :: "ns_id list"

text \<open>The argument of \<open>set_outputs\<close>: one tensor, or a list or tuple of tensors.\<close>

datatype outputs_arg = OneTensor raw_tensor | TensorSeq "raw_tensor list"

text \<open>
  \<open>class CallEntry\<close> (call.py, lines 13-39), with the fields the two files read or write.
\<close>

record CallEntry =
  ce_module :: mod_id
  ce_orig_outputs :: "outputs_arg option"
  ce_inputs_args :: "tensor_id option list option"
  ce_inputs_kwargs :: "(string \<times> tensor_id option) list option"
  ce_inputs_flat :: "tensor_id option list option"
  ce_outputs :: "tensor_id list option"
  ce_parent_call :: "call_id option"
  ce_child_calls :: "call_id list"
  ce_level :: "nat option"
  ce_namespace :: "ns_id option"
  ce_returnn_layer :: "layer_id option"
  ce_returnn_layer_dict :: "pyval option"

text \<open>
  Modelled from the spec: \<open>ModuleEntry\<close> (naming/module.py is not among the sources) is the
  identity of one operation-unit instance, with the ordered list of invocations against it
  and the ordered list of namespace nodes naming it.
\<close>

record ModuleEntry =
  me_module :: op_unit
  me_calls :: "call_id list"
  me_names :: "ns_id list"

text \<open>
  Modelled from the spec: \<open>TensorEntry\<close> (naming/tensor.py is not among the sources) is the
  identity of one traced value: the value itself, the namespace nodes that know it (call.py
  line 77 may append an absent namespace), its producer invocations and units, and its
  resolved layout.
\<close>

record TensorEntry =
  te_tensor :: "raw_tensor option"
  te_names :: "ns_id option list"
  te_output_from_calls :: "call_id list"
  te_output_from_modules :: "mod_id list"
  te_returnn_data :: "nat option"

text \<open>
  The graph engine's objects as far as call.py touches them: a layer has a name, its
  network, parameters and an output; a network has a name, its layers by name and the layer
  it is nested in.
\<close>

record LayerBase =
  l_name :: string
  l_network :: net_id
  l_params :: "(string \<times> nat) list"
  l_output :: nat

record TFNetwork =
  n_name :: string
  n_layers :: "(string \<times> layer_id) list"
  n_parent_layer :: "layer_id option"

text \<open>
  Modelled from the spec: the Subnetwork Construction Context (naming/returnn_ctx.py is not
  among the sources) has a parent context link (absent at root), an in-progress network,
  the defined input slots (value and optional index) and the defined single output; a
  nested scope also has the layer that wraps it in the parent network.
\<close>

record ReturnnContext =
  rc_parent :: "ctx_id option"
  rc_name :: "string option"
  rc_network :: net_id
  rc_sub_net_layer :: "layer_id option"
  rc_inputs :: "(tensor_id \<times> string option) list"
  rc_output :: "layer_id option"

text \<open>
  The session: the arenas, and the fields of the global trace state (\<open>Naming\<close>) that the two
  files use: the flags, the call stack and the tensor registry.
\<close>

record session =
  nodes :: "ns_id \<Rightarrow> RegisteredName"
  next_node :: nat
  call_entries :: "call_id \<Rightarrow> CallEntry"
  next_call :: nat
  module_entries :: "mod_id \<Rightarrow> ModuleEntry"
  next_module :: nat
  tensor_entries :: "tensor_id \<Rightarrow> TensorEntry"
  next_tensor :: nat
  contexts :: "ctx_id \<Rightarrow> ReturnnContext"
  next_ctx :: nat
  networks :: "net_id \<Rightarrow> TFNetwork"
  next_net :: nat
  layers :: "layer_id \<Rightarrow> LayerBase"
  next_layer :: nat
  wrap_to_returnn_enabled :: bool
  keep_orig_module_io_tensors :: bool
  import_params_from_torch_namespace :: bool
  module_call_stack :: "call_id list"
  tensors :: "(raw_tensor \<times> tensor_id) list"

type_synonym 'a result = "(error + 'a) \<times> session"

definition raise :: "error \<Rightarrow> session \<Rightarrow> 'a result option" where
  "raise e s = Some (Inl e, s)"

definition return :: "'a \<Rightarrow> session \<Rightarrow> 'a result option" where
  "return v s = Some (Inr v, s)"

text \<open>Sequencing: an exception or a divergence of the first part ends the whole.\<close>

definition and_then :: "'a result option \<Rightarrow> ('a \<Rightarrow> session \<Rightarrow> 'b result option) \<Rightarrow> 'b result option" where
  "and_then m f = (case m of None \<Rightarrow> None
                   | Some (Inl e, s) \<Rightarrow> Some (Inl e, s)
                   | Some (Inr v, s) \<Rightarrow> f v s)"

section \<open>Unique names (namespace.py, lines 156-162)\<close>

definition ReservedInputName :: string where
  "ReservedInputName = ''data''"

definition ReservedOutputName :: string where
  "ReservedOutputName = ''output''"

definition ReservedNames :: "string set" where
  "ReservedNames = {ReservedInputName, ReservedOutputName}"

lemma of_char_digit_char: "d < 10 \<Longrightarrow> digit_val (digit_char d) = d"
  by (simp add: digit_val_def digit_char_def)

lemma nat_of_digits_snoc: "nat_of_digits (cs @ [c]) = 10 * nat_of_digits cs + digit_val c"
  by (simp add: nat_of_digits_def)

lemma nat_of_digits_str_nat: "nat_of_digits (str_nat n) = n"
proof (induction n rule: str_nat.induct)
  case (1 n)
  show ?case
  proof (cases "n < 10")
    case True
    then show ?thesis
      by (subst str_nat.simps) (simp add: nat_of_digits_def of_char_digit_char)
  next
    case False
    with 1 have "nat_of_digits (str_nat (n div 10)) = n div 10" by simp
    with False show ?thesis
      by (subst str_nat.simps) (simp add: nat_of_digits_snoc of_char_digit_char)
  qed
qed

lemma str_nat_inj: "str_nat a = str_nat b \<Longrightarrow> a = b"
  by (metis nat_of_digits_str_nat)

lemma numbered_name_inj: "inj (\<lambda>i. suggested_name @ ''_'' @ str_nat i)"
  by (rule injI) (simp add: str_nat_inj)

lemma finite_numbered_names:
  "finite A \<Longrightarrow> finite {j. i \<le> j \<and> suggested_name @ ''_'' @ str_nat j \<in> A}"
proof -
  assume fin: "finite A"
  have "finite ((\<lambda>i. suggested_name @ ''_'' @ str_nat i) -` A)"
    using fin numbered_name_inj by (rule finite_vimageI)
  moreover have "{j. i \<le> j \<and> suggested_name @ ''_'' @ str_nat j \<in> A}
                 \<subseteq> (\<lambda>i. suggested_name @ ''_'' @ str_nat i) -` A"
    by auto
  ultimately show ?thesis by (rule rev_finite_subset)
qed

text \<open>
  The loop \<open>for i in itertools.count(1)\<close>.  It ends because the scope has finitely many
  children and the numbered names are pairwise different.
\<close>

function get_unique_name_loop :: "(string \<times> ns_id) list \<Rightarrow> string \<Rightarrow> nat \<Rightarrow> string" where
  "get_unique_name_loop childs suggested_name i =
     (let suggested_name_' = suggested_name @ ''_'' @ str_nat i in
      if suggested_name_' \<notin> set (dict_keys childs) \<and> suggested_name_' \<notin> ReservedNames
      then suggested_name_'
      else get_unique_name_loop childs suggested_name (Suc i))"
  by pat_completeness auto
termination
proof (relation "measure (\<lambda>(childs, suggested_name, i).
         card {j. i \<le> j \<and> suggested_name @ ''_'' @ str_nat j \<in> set (dict_keys childs) \<union> ReservedNames})")
  show "wf (measure (\<lambda>(childs, suggested_name, i).
         card {j. i \<le> j \<and> suggested_name @ ''_'' @ str_nat j \<in> set (dict_keys childs) \<union> ReservedNames}))"
    by simp
next
  fix childs :: "(string \<times> ns_id) list" and suggested_name :: string and i :: nat and x :: string
  assume x: "x = suggested_name @ ''_'' @ str_nat i"
    and taken: "\<not> (x \<notin> set (dict_keys childs) \<and> x \<notin> ReservedNames)"
  let ?A = "set (dict_keys childs) \<union> ReservedNames"
  let ?S = "\<lambda>k. {j. k \<le> j \<and> suggested_name @ ''_'' @ str_nat j \<in> ?A}"
  have fin: "finite (?S i)"
    by (rule finite_numbered_names) (simp add: ReservedNames_def)
  have "i \<in> ?S i" using x taken by auto
  moreover have "i \<notin> ?S (Suc i)" by simp
  moreover have "?S (Suc i) \<subseteq> ?S i" by auto
  ultimately have "?S (Suc i) \<subset> ?S i" by blast
  with fin have "card (?S (Suc i)) < card (?S i)" by (rule psubset_card_mono)
  then show "((childs, suggested_name, Suc i), (childs, suggested_name, i))
        \<in> measure (\<lambda>(childs, suggested_name, i).
         card {j. i \<le> j \<and> suggested_name @ ''_'' @ str_nat j \<in> set (dict_keys childs) \<union> ReservedNames})"
    by simp
qed

declare get_unique_name_loop.simps [simp del]

definition get_unique_name :: "session \<Rightarrow> ns_id \<Rightarrow> string \<Rightarrow> string" where
  "get_unique_name s self suggested_name =
     (if suggested_name \<notin> set (dict_keys (rn_childs_by_name (nodes s self)))
         \<and> suggested_name \<notin> ReservedNames
      then suggested_name
      else get_unique_name_loop (rn_childs_by_name (nodes s self)) suggested_name 1)"

section \<open>The construction context\<close>

text \<open>
  Modelled from the spec: creating a context (naming/returnn_ctx.py is not among the
  sources) allocates the scope's in-progress network; a nested scope also gets the layer
  that wraps it, placed in the parent context's network.
\<close>

definition ReturnnContext_init :: "ctx_id option \<Rightarrow> string option \<Rightarrow> session \<Rightarrow> ctx_id \<times> session" where
  "ReturnnContext_init parent name s =
     (let nm = (case name of None \<Rightarrow> ''root'' | Some n \<Rightarrow> n);
          sub = (case parent of None \<Rightarrow> None | Some p \<Rightarrow> Some (next_layer s));
          s1 = (case parent of
                  None \<Rightarrow> s
                | Some p \<Rightarrow> s\<lparr>layers := (layers s)(next_layer s :=
                               \<lparr>l_name = nm, l_network = rc_network (contexts s p),
                                l_params = [], l_output = 0\<rparr>),
                             next_layer := Suc (next_layer s)\<rparr>);
          c = next_ctx s1;
          net = next_net s1
      in (c, s1\<lparr>contexts := (contexts s1)(c :=
                   \<lparr>rc_parent = parent, rc_name = name, rc_network = net,
                    rc_sub_net_layer = sub, rc_inputs = [], rc_output = None\<rparr>),
                 next_ctx := Suc c,
                 networks := (networks s1)(net :=
                   \<lparr>n_name = nm, n_layers = [], n_parent_layer = sub\<rparr>),
                 next_net := Suc net\<rparr>))"

text \<open>
  Modelled from the spec: \<open>define_input\<close> records a new input slot (the value and its
  optional index) and \<open>define_output\<close> records the single output of the scope.
\<close>

definition define_input :: "ctx_id \<Rightarrow> tensor_id \<Rightarrow> string option \<Rightarrow> session \<Rightarrow> session" where
  "define_input c tensor data_key s =
     s\<lparr>contexts := (contexts s)(c := (contexts s c)\<lparr>rc_inputs := rc_inputs (contexts s c) @ [(tensor, data_key)]\<rparr>)\<rparr>"

definition define_output :: "ctx_id \<Rightarrow> layer_id option \<Rightarrow> session \<Rightarrow> session" where
  "define_output c layer s =
     s\<lparr>contexts := (contexts s)(c := (contexts s c)\<lparr>rc_output := layer\<rparr>)\<rparr>"

section \<open>Namespace nodes (namespace.py)\<close>

definition is_subnetwork :: "session \<Rightarrow> ns_id \<Rightarrow> bool" where
  "is_subnetwork s self = rn_is_subnet (nodes s self)"

text \<open>
  \<open>maybe_create_returnn_ctx\<close> (lines 115-129) climbs the parent chain as long as the parent
  has no context.
\<close>

partial_function (option) maybe_create_returnn_ctx :: "ns_id \<Rightarrow> session \<Rightarrow> unit result option" where
  "maybe_create_returnn_ctx self s =
     (if \<not> is_subnetwork s self then Some (Inl AssertionError, s)
      else if \<not> rn_wrap_to_returnn_enabled (nodes s self) then Some (Inl AssertionError, s)
      else if rn_returnn_ctx (nodes s self) \<noteq> None then Some (Inr (), s)
      else
        Option.bind
          (case rn_parent (nodes s self) of
             None \<Rightarrow> Some (Inr (), s)
           | Some p \<Rightarrow>
               Option.bind
                 (if rn_returnn_ctx (nodes s p) = None then maybe_create_returnn_ctx p s
                  else Some (Inr (), s))
                 (\<lambda>(r, s1). case r of
                     Inl e \<Rightarrow> Some (Inl e, s1)
                   | Inr _ \<Rightarrow>
                       if rn_returnn_ctx (nodes s1 p) = None then Some (Inl AssertionError, s1)
                       else Some (Inr (), s1)))
          (\<lambda>(r, s1). case r of
              Inl e \<Rightarrow> Some (Inl e, s1)
            | Inr _ \<Rightarrow>
                (let (c, s2) = ReturnnContext_init
                       (case rn_parent (nodes s1 self) of
                          None \<Rightarrow> None
                        | Some p \<Rightarrow> rn_returnn_ctx (nodes s1 p))
                       (rn_name (nodes s1 self)) s1
                 in Some (Inr (), s2\<lparr>nodes := (nodes s2)(self :=
                                      (nodes s2 self)\<lparr>rn_returnn_ctx := Some c\<rparr>)\<rparr>))))"

text \<open>Lines 139-140 of \<open>assign_module\<close>: the two \<open>append\<close>s.\<close>

definition append_module :: "ns_id \<Rightarrow> mod_id \<Rightarrow> session \<Rightarrow> session" where
  "append_module self module s =
     s\<lparr>nodes := (nodes s)(self :=
          (nodes s self)\<lparr>rn_modules := rn_modules (nodes s self) @ [module]\<rparr>),
       module_entries := (module_entries s)(module :=
          (module_entries s module)\<lparr>me_names := me_names (module_entries s module) @ [self]\<rparr>)\<rparr>"

text \<open>\<open>assign_module\<close> (lines 131-147).\<close>

definition assign_module :: "ns_id \<Rightarrow> mod_id \<Rightarrow> session \<Rightarrow> unit result option" where
  "assign_module self module s =
     (let fwd = has_torch_forward (me_module (module_entries s module)) in
      if module \<in> set (rn_modules (nodes s self)) then return () s
      else if rn_is_subnet (nodes s self) \<and> \<not> fwd then raise AssertionError s
      else if \<not> rn_is_subnet (nodes s self) \<and> rn_modules (nodes s self) \<noteq> [] then raise AssertionError s
      else if \<not> rn_is_subnet (nodes s self) \<and> fwd then raise AssertionError s
      else
        let s1 = append_module self module s
        in
          if rn_is_reserved (nodes s1 self) \<and> fwd then raise AssertionError s1
          else if rn_wrap_to_returnn_enabled (nodes s1 self)
                  \<and> fwd \<and> rn_returnn_ctx (nodes s1 self) = None
          then (if rn_parent (nodes s1 self) = None then raise AssertionError s1
                else maybe_create_returnn_ctx self s1)
          else return () s1)"

text \<open>Lines 112-113 of \<open>assign_call\<close>.\<close>

definition append_call :: "ns_id \<Rightarrow> call_id \<Rightarrow> session \<Rightarrow> session" where
  "append_call self call s =
     s\<lparr>call_entries := (call_entries s)(call :=
          (call_entries s call)\<lparr>ce_namespace := Some self\<rparr>),
       nodes := (nodes s)(self :=
          (nodes s self)\<lparr>rn_calls := rn_calls (nodes s self) @ [call]\<rparr>)\<rparr>"

text \<open>\<open>assign_call\<close> (lines 102-113).\<close>

definition assign_call :: "ns_id \<Rightarrow> call_id \<Rightarrow> session \<Rightarrow> unit result option" where
  "assign_call self call s =
     (if call \<in> set (rn_calls (nodes s self)) then return () s
      else
        and_then (assign_module self (ce_module (call_entries s call)) s) (\<lambda>_ s1.
          let fwd = has_torch_forward (me_module (module_entries s1 (ce_module (call_entries s1 call)))) in
          if rn_is_subnet (nodes s1 self) \<and> \<not> fwd then raise AssertionError s1
          else if \<not> rn_is_subnet (nodes s1 self) \<and> rn_calls (nodes s1 self) \<noteq> [] then raise AssertionError s1
          else if \<not> rn_is_subnet (nodes s1 self) \<and> fwd then raise AssertionError s1
          else if ce_namespace (call_entries s1 call) \<noteq> None then raise AssertionError s1
          else
            return () (append_call self call s1)))"

text \<open>\<open>assign_tensor\<close> (lines 96-100).\<close>

definition assign_tensor :: "ns_id \<Rightarrow> tensor_id \<Rightarrow> session \<Rightarrow> unit result" where
  "assign_tensor self tensor s =
     (case (case rn_tensor (nodes s self) of
              None \<Rightarrow> Inr s
            | Some old \<Rightarrow>
                (case list_remove (te_names (tensor_entries s old)) (Some self) of
                   Inl e \<Rightarrow> Inl e
                 | Inr names' \<Rightarrow> Inr (s\<lparr>tensor_entries := (tensor_entries s)(old :=
                                          (tensor_entries s old)\<lparr>te_names := names'\<rparr>)\<rparr>))) of
        Inl e \<Rightarrow> (Inl e, s)
      | Inr s1 \<Rightarrow>
          (Inr (), s1\<lparr>nodes := (nodes s1)(self := (nodes s1 self)\<lparr>rn_tensor := Some tensor\<rparr>),
                     tensor_entries := (tensor_entries s1)(tensor :=
                        (tensor_entries s1 tensor)\<lparr>te_names := te_names (tensor_entries s1 tensor) @ [Some self]\<rparr>)\<rparr>))"

text \<open>The new object of \<open>RegisteredName.__init__\<close>, with the defaults of the class.\<close>

definition new_node ::
  "ns_id option \<Rightarrow> string option \<Rightarrow> bool \<Rightarrow> bool \<Rightarrow> bool \<Rightarrow> session \<Rightarrow> session" where
  "new_node parent name wrap is_reserved is_subnet s =
     s\<lparr>nodes := (nodes s)(next_node s :=
          \<lparr>rn_childs_by_name = [], rn_parent = parent, rn_name = name, rn_level = 0,
           rn_modules = [], rn_calls = [], rn_tensor = None, rn_returnn_ctx = None,
           rn_is_reserved = is_reserved, rn_is_subnet = is_subnet,
           rn_wrap_to_returnn_enabled = wrap, rn_inputs = []\<rparr>),
       next_node := Suc (next_node s)\<rparr>"

text \<open>Line 57: \<open>self.level = parent.level + 1\<close>.\<close>

definition set_level :: "ns_id \<Rightarrow> ns_id \<Rightarrow> session \<Rightarrow> session" where
  "set_level self p s =
     s\<lparr>nodes := (nodes s)(self := (nodes s self)\<lparr>rn_level := rn_level (nodes s p) + 1\<rparr>)\<rparr>"

text \<open>\<open>self.childs_by_name[name] = child\<close>.\<close>

definition set_child :: "ns_id \<Rightarrow> string \<Rightarrow> ns_id \<Rightarrow> session \<Rightarrow> session" where
  "set_child self name child s =
     s\<lparr>nodes := (nodes s)(self := (nodes s self)\<lparr>rn_childs_by_name :=
          dict_set (rn_childs_by_name (nodes s self)) name child\<rparr>)\<rparr>"

text \<open>
  \<open>RegisteredName.__init__\<close> (lines 29-62).  The assertions of lines 38-49 come before any
  reference to the new object exists; after them the object is allocated with the
  defaults of the class (\<open>level = 0\<close>, no tensor, no context).
\<close>

definition RegisteredName_init ::
  "bool option \<Rightarrow> ns_id option \<Rightarrow> string option \<Rightarrow> call_id option \<Rightarrow> tensor_id option \<Rightarrow> bool \<Rightarrow> bool
     \<Rightarrow> session \<Rightarrow> ns_id result option" where
  "RegisteredName_init wrap parent name call tensor is_reserved is_subnet s =
     (if parent \<noteq> None \<and> (name = None \<or> name = Some []) then raise AssertionError s
      else if parent \<noteq> None \<and> wrap \<noteq> None then raise AssertionError s
      else if parent = None \<and> name \<noteq> None \<and> name \<noteq> Some [] then raise AssertionError s
      else if parent = None \<and> wrap = None then raise AssertionError s
      else if \<not> is_reserved \<and> (case name of None \<Rightarrow> False | Some n \<Rightarrow> n \<in> ReservedNames)
      then raise AssertionError s
      else
        let self = next_node s;
            wrap' = (case parent of
                       Some p \<Rightarrow> rn_wrap_to_returnn_enabled (nodes s p)
                     | None \<Rightarrow> (case wrap of Some w \<Rightarrow> w | None \<Rightarrow> False));
            s0 = new_node parent name wrap' is_reserved is_subnet s
        in
          and_then (case call of None \<Rightarrow> return () s0 | Some c \<Rightarrow> assign_call self c s0) (\<lambda>_ s1.
            let s2 = (case parent of
                        None \<Rightarrow> s1
                      | Some p \<Rightarrow> set_level self p s1)
            in
              and_then (case tensor of None \<Rightarrow> return () s2 | Some t \<Rightarrow> Some (assign_tensor self t s2)) (\<lambda>_ s3.
                and_then (if rn_wrap_to_returnn_enabled (nodes s3 self) \<and> parent = None
                          then maybe_create_returnn_ctx self s3 else return () s3) (\<lambda>_ s4.
                  return self s4))))"

text \<open>\<open>register_sub_net\<close> (lines 164-169).\<close>

definition register_sub_net :: "ns_id \<Rightarrow> string \<Rightarrow> session \<Rightarrow> ns_id result option" where
  "register_sub_net self suggested_name s =
     (if \<not> is_subnetwork s self then raise AssertionError s
      else
        let name = get_unique_name s self suggested_name in
        and_then (RegisteredName_init None (Some self) (Some name) None None False True s) (\<lambda>child s1.
          return child (set_child self name child s1)))"

section \<open>The collaborators outside the two files\<close>

text \<open>What a compound unit's \<open>forward\<close> returns: a tensor, or something else.\<close>

datatype forward_value = TensorValue raw_tensor | OtherValue

text \<open>
  The operation units, the graph engine and the \<open>nest\<close> library are parameters of the model.
  \<open>forward\<close> runs arbitrary traced code and is a transformer of the whole session; the
  other collaborators describe, build or check one node and return a value or an error.
\<close>

record hooks =
  get_canonical_name :: "session \<Rightarrow> mod_id \<Rightarrow> ns_id \<Rightarrow> string"
  pack_sequence_as ::
    "tensor_id option list option \<Rightarrow> (string \<times> tensor_id option) list option \<Rightarrow> raw_tensor option list
       \<Rightarrow> error + (raw_tensor option list \<times> (string \<times> raw_tensor option) list)"
  forward :: "op_unit \<Rightarrow> raw_tensor option list \<Rightarrow> session \<Rightarrow> forward_value result option"
  create_returnn_layer_dict ::
    "op_unit \<Rightarrow> raw_tensor option list \<Rightarrow> (string \<times> raw_tensor option) list \<Rightarrow> error + pyval"
  construct_layer :: "session \<Rightarrow> net_id \<Rightarrow> string \<Rightarrow> pyval \<Rightarrow> error + ((string \<times> nat) list \<times> nat)"
  check_returnn_layer :: "op_unit \<Rightarrow> LayerBase \<Rightarrow> error option"
  make_output_tensor_from_returnn ::
    "session \<Rightarrow> op_unit \<Rightarrow> raw_tensor option list \<Rightarrow> LayerBase \<Rightarrow> error + raw_tensor"
  import_params_torch_to_returnn :: "session \<Rightarrow> call_id \<Rightarrow> layer_id \<Rightarrow> error option"
  check_call_returnn_outputs_to_prev_torch :: "session \<Rightarrow> call_id \<Rightarrow> error option"
  Copy :: op_unit

text \<open>\<open>register_sub_call\<close> (lines 171-177).\<close>

definition register_sub_call :: "hooks \<Rightarrow> ns_id \<Rightarrow> call_id \<Rightarrow> session \<Rightarrow> ns_id result option" where
  "register_sub_call h self call s =
     (if \<not> is_subnetwork s self then raise AssertionError s
      else
        let name = get_unique_name s self (get_canonical_name h s (ce_module (call_entries s call)) self) in
        and_then (RegisteredName_init None (Some self) (Some name) None None False
                    (has_torch_forward (me_module (module_entries s (ce_module (call_entries s call))))) s)
          (\<lambda>child s1.
            let s2 = set_child self name child s1
            in and_then (assign_call child call s2) (\<lambda>_ s3. return child s3)))"

text \<open>
  The objects \<open>x in xs\<close> compares: a namespace node and a tensor entry are instances of
  different classes without an \<open>__eq__\<close> of their own, hence never equal.
\<close>

datatype py_object = NameObject ns_id | TensorObject tensor_id

text \<open>Line 189 of \<open>register_input\<close>.\<close>

definition append_input :: "ns_id \<Rightarrow> ns_id \<Rightarrow> session \<Rightarrow> session" where
  "append_input self name_' s =
     s\<lparr>nodes := (nodes s)(self := (nodes s self)\<lparr>rn_inputs := rn_inputs (nodes s self) @ [name_']\<rparr>)\<rparr>"

text \<open>\<open>register_input\<close> (lines 179-192).\<close>

definition register_input :: "ns_id \<Rightarrow> tensor_id \<Rightarrow> session \<Rightarrow> ns_id result option" where
  "register_input self tensor s =
     (if \<not> is_subnetwork s self then raise AssertionError s
      else if TensorObject tensor \<in> set (map NameObject (rn_inputs (nodes s self)))
      then raise AssertionError s
      else
        let idx = length (rn_inputs (nodes s self));
            name = (if idx \<noteq> 0 then ReservedInputName @ '':'' @ str_nat idx else ReservedInputName)
        in
          if name \<in> set (dict_keys (rn_childs_by_name (nodes s self))) then raise AssertionError s
          else
            and_then (RegisteredName_init None (Some self) (Some name) None (Some tensor) True False s)
              (\<lambda>name_' s1.
                let s2 = append_input self name_' (set_child self name name_' s1)
                in
                  if rn_wrap_to_returnn_enabled (nodes s2 self)
                  then (case rn_returnn_ctx (nodes s2 self) of
                          None \<Rightarrow> raise AttributeError s2
                        | Some c \<Rightarrow>
                            return name_' (define_input c tensor
                              (if idx \<noteq> 0 then Some (str_nat idx) else None) s2))
                  else return name_' s2))"

text \<open>\<open>name_for_tensor\<close> (lines 226-233): the loop over \<open>tensor.names\<close>.\<close>

fun name_for_tensor_loop :: "session \<Rightarrow> ns_id \<Rightarrow> ns_id option list \<Rightarrow> error + string" where
  "name_for_tensor_loop s self [] = Inl KeyError"
| "name_for_tensor_loop s self (None # rest) = Inl AttributeError"
| "name_for_tensor_loop s self (Some name_' # rest) =
     (if rn_parent (nodes s name_') = Some self
      then (case rn_name (nodes s name_') of
              None \<Rightarrow> Inl KeyError
            | Some nm \<Rightarrow>
                (case map_of (rn_childs_by_name (nodes s self)) nm of
                   None \<Rightarrow> Inl KeyError
                 | Some c \<Rightarrow> if c = name_' then Inr nm else Inl AssertionError))
      else name_for_tensor_loop s self rest)"

definition name_for_tensor :: "session \<Rightarrow> ns_id \<Rightarrow> tensor_id \<Rightarrow> error + string" where
  "name_for_tensor s self tensor =
     (if \<not> is_subnetwork s self then Inl AssertionError
      else name_for_tensor_loop s self (te_names (tensor_entries s tensor)))"

section \<open>Invocation records (call.py)\<close>

text \<open>
  Modelled from the spec: the Tensor Identity Registry (\<open>naming.tensors\<close>; naming/naming.py is
  not among the sources) maps each traced value to its entry; a value that was never
  observed is not a key of it.  An entry is created on first observation.
\<close>

definition tensors_getitem :: "session \<Rightarrow> raw_tensor \<Rightarrow> error + tensor_id" where
  "tensors_getitem s x = (case map_of (tensors s) x of None \<Rightarrow> Inl KeyError | Some t \<Rightarrow> Inr t)"

fun tensors_getitem_all :: "session \<Rightarrow> raw_tensor list \<Rightarrow> error + tensor_id list" where
  "tensors_getitem_all s [] = Inr []"
| "tensors_getitem_all s (x # xs) =
     (case tensors_getitem s x of
        Inl e \<Rightarrow> Inl e
      | Inr t \<Rightarrow> (case tensors_getitem_all s xs of Inl e \<Rightarrow> Inl e | Inr ts \<Rightarrow> Inr (t # ts)))"

definition register_tensor :: "raw_tensor \<Rightarrow> session \<Rightarrow> session" where
  "register_tensor x s =
     (case map_of (tensors s) x of
        Some t \<Rightarrow> s
      | None \<Rightarrow>
          s\<lparr>tensor_entries := (tensor_entries s)(next_tensor s :=
               \<lparr>te_tensor = Some x, te_names = [], te_output_from_calls = [],
                te_output_from_modules = [], te_returnn_data = None\<rparr>),
            next_tensor := Suc (next_tensor s),
            tensors := tensors s @ [(x, next_tensor s)]\<rparr>)"

text \<open>\<open>CallEntry.__init__\<close> (lines 36-39).\<close>

definition CallEntry_init :: "mod_id \<Rightarrow> session \<Rightarrow> call_id \<times> session" where
  "CallEntry_init module s =
     (let self = next_call s
      in (self, s\<lparr>call_entries := (call_entries s)(self :=
                     \<lparr>ce_module = module, ce_orig_outputs = None, ce_inputs_args = None,
                      ce_inputs_kwargs = None, ce_inputs_flat = None, ce_outputs = None,
                      ce_parent_call = None, ce_child_calls = [], ce_level = None,
                      ce_namespace = None, ce_returnn_layer = None, ce_returnn_layer_dict = None\<rparr>),
                   next_call := Suc self,
                   module_entries := (module_entries s)(module :=
                     (module_entries s module)\<lparr>me_calls := me_calls (module_entries s module) @ [self]\<rparr>)\<rparr>))"

text \<open>\<open>set_returnn_layer\<close> (lines 57-59).\<close>

definition set_returnn_layer :: "call_id \<Rightarrow> layer_id option \<Rightarrow> pyval option \<Rightarrow> session \<Rightarrow> session" where
  "set_returnn_layer self layer layer_dict s =
     s\<lparr>call_entries := (call_entries s)(self :=
          (call_entries s self)\<lparr>ce_returnn_layer := layer, ce_returnn_layer_dict := layer_dict\<rparr>)\<rparr>"

text \<open>The loop of lines 71-74 of \<open>set_outputs\<close>.\<close>

definition add_producer :: "call_id \<Rightarrow> tensor_id \<Rightarrow> session \<Rightarrow> session" where
  "add_producer self x s =
     s\<lparr>tensor_entries := (tensor_entries s)(x :=
          (tensor_entries s x)\<lparr>te_output_from_calls := te_output_from_calls (tensor_entries s x) @ [self],
                              te_output_from_modules := te_output_from_modules (tensor_entries s x)
                                 @ [ce_module (call_entries s self)]\<rparr>)\<rparr>"

text \<open>\<open>set_outputs\<close> (lines 61-77).\<close>

definition set_outputs :: "call_id \<Rightarrow> outputs_arg \<Rightarrow> session \<Rightarrow> unit result" where
  "set_outputs self outputs s =
     (if ce_outputs (call_entries s self) \<noteq> None then (Inl AssertionError, s)
      else
        let s1 = (if keep_orig_module_io_tensors s
                  then s\<lparr>call_entries := (call_entries s)(self :=
                           (call_entries s self)\<lparr>ce_orig_outputs := Some outputs\<rparr>)\<rparr>
                  else s)
        in
          if wrap_to_returnn_enabled s1
          then
            (let outputs' = (case outputs of OneTensor x \<Rightarrow> [x] | TensorSeq xs \<Rightarrow> xs) in
             case tensors_getitem_all s1 outputs' of
               Inl e \<Rightarrow> (Inl e, s1)
             | Inr entry_outputs \<Rightarrow>
                 let s2 = s1\<lparr>call_entries := (call_entries s1)(self :=
                            (call_entries s1 self)\<lparr>ce_outputs := Some entry_outputs\<rparr>)\<rparr>;
                     s3 = fold (add_producer self) entry_outputs s2;
                     s4 = (case entry_outputs of
                             [] \<Rightarrow> s3
                           | x0 # _ \<Rightarrow>
                               if ce_namespace (call_entries s3 self) \<notin> set (te_names (tensor_entries s3 x0))
                               then s3\<lparr>tensor_entries := (tensor_entries s3)(x0 :=
                                        (tensor_entries s3 x0)\<lparr>te_names := te_names (tensor_entries s3 x0)
                                           @ [ce_namespace (call_entries s3 self)]\<rparr>)\<rparr>
                               else s3)
                 in (Inr (), s4))
          else (Inr (), s1))"

text \<open>
  The loop of lines 119-126 of \<open>apply_call\<close>: the parameters of the new layer are added to
  every enclosing layer, up to the first hidden one.
\<close>

partial_function (option) update_parent_params ::
  "layer_id option \<Rightarrow> string \<Rightarrow> layer_id \<Rightarrow> session \<Rightarrow> session option" where
  "update_parent_params parent_layer parent_layer_param_prefix layer s =
     (case parent_layer of
        None \<Rightarrow> Some s
      | Some pl \<Rightarrow>
          if startswith (l_name (layers s pl)) ''.'' then Some s
          else
            update_parent_params
              (n_parent_layer (networks s (l_network (layers s pl))))
              (l_name (layers s pl) @ ''/'' @ parent_layer_param_prefix)
              layer
              (s\<lparr>layers := (layers s)(pl := (layers s pl)\<lparr>l_params :=
                    fold (\<lambda>(k, v) d. dict_set d (parent_layer_param_prefix @ k) v)
                      (l_params (layers s layer)) (l_params (layers s pl))\<rparr>)\<rparr>))"

text \<open>
  Lines 128-133 of \<open>apply_call\<close>: the unit checks the layer and makes the output tensor,
  which is registered and bound to the namespace node.
\<close>

definition apply_call_output ::
  "hooks \<Rightarrow> call_id \<Rightarrow> ns_id \<Rightarrow> layer_id \<Rightarrow> pyval \<Rightarrow> raw_tensor option list \<Rightarrow> session
     \<Rightarrow> (raw_tensor \<times> layer_id option \<times> pyval option) result option" where
  "apply_call_output h self namespace layer layer_dict inputs_flat s =
     (let module = me_module (module_entries s (ce_module (call_entries s self))) in
      case check_returnn_layer h module (layers s layer) of
        Some e \<Rightarrow> raise e s
      | None \<Rightarrow>
          (case make_output_tensor_from_returnn h s module inputs_flat (layers s layer) of
             Inl e \<Rightarrow> raise e s
           | Inr res \<Rightarrow>
               let s3 = register_tensor res s in
               (case tensors_getitem s3 res of
                  Inl e \<Rightarrow> raise e s3
                | Inr res_entry \<Rightarrow>
                    let s4 = s3\<lparr>tensor_entries := (tensor_entries s3)(res_entry :=
                               (tensor_entries s3 res_entry)\<lparr>te_returnn_data :=
                                  Some (l_output (layers s3 layer))\<rparr>)\<rparr>
                    in and_then (Some (assign_tensor namespace res_entry s4))
                         (\<lambda>_ s5. return (res, Some layer, Some layer_dict) s5))))"

text \<open>The new layer of line 116, entered in its network.\<close>

definition add_layer :: "net_id \<Rightarrow> string \<Rightarrow> (string \<times> nat) list \<Rightarrow> nat \<Rightarrow> session \<Rightarrow> session" where
  "add_layer returnn_net nm params outp s =
     s\<lparr>layers := (layers s)(next_layer s :=
          \<lparr>l_name = nm, l_network = returnn_net, l_params = params, l_output = outp\<rparr>),
       next_layer := Suc (next_layer s),
       networks := (networks s)(returnn_net :=
          (networks s returnn_net)\<lparr>n_layers := dict_set (n_layers (networks s returnn_net)) nm (next_layer s)\<rparr>)\<rparr>"

text \<open>
  Lines 114-133 of \<open>apply_call\<close>: the layer is built in the parent scope's network, its
  parameters are hoisted, and the output tensor is bound to the namespace node.  A node
  with a parent always has a name (namespace.py, line 39).
\<close>

definition apply_call_construct ::
  "hooks \<Rightarrow> call_id \<Rightarrow> ns_id \<Rightarrow> string option \<Rightarrow> net_id \<Rightarrow> pyval \<Rightarrow> raw_tensor option list \<Rightarrow> session
     \<Rightarrow> (raw_tensor \<times> layer_id option \<times> pyval option) result option" where
  "apply_call_construct h self namespace layer_name returnn_net layer_dict inputs_flat s =
     (case layer_name of
        None \<Rightarrow> raise TypeError s
      | Some nm \<Rightarrow>
          (case construct_layer h s returnn_net nm layer_dict of
             Inl e \<Rightarrow> raise e s
           | Inr (params, outp) \<Rightarrow>
               let layer = next_layer s;
                   s1 = add_layer returnn_net nm params outp s
               in
                 (case update_parent_params
                         (n_parent_layer (networks s1 (l_network (layers s1 layer))))
                         (l_name (layers s1 layer) @ ''/'') layer s1 of
                    None \<Rightarrow> None
                  | Some s2 \<Rightarrow> apply_call_output h self namespace layer layer_dict inputs_flat s2)))"

text \<open>
  Lines 101-113 of \<open>apply_call\<close>: the branch of a unit without a torch forward.  The
  assertion of line 102 compares \<open>module.create_returnn_layer_dict\<close>, a bound method
  object made anew by the attribute access, with the plain function
  \<open>Module.create_returnn_layer_dict\<close> by identity; the two are never the same object, so
  the assertion never fails and has no branch here.  A unit that does not describe itself
  fails at line 106, inside \<open>create_returnn_layer_dict\<close>, after the construction context
  of the enclosing scope was created.
\<close>

definition apply_call_returnn ::
  "hooks \<Rightarrow> call_id \<Rightarrow> ns_id \<Rightarrow> raw_tensor option list \<Rightarrow> raw_tensor option list
     \<Rightarrow> (string \<times> raw_tensor option) list \<Rightarrow> session
     \<Rightarrow> (raw_tensor \<times> layer_id option \<times> pyval option) result option" where
  "apply_call_returnn h self namespace inputs_flat inputs_args inputs_kwargs s =
     (let module = me_module (module_entries s (ce_module (call_entries s self))) in
        (case rn_parent (nodes s namespace) of
           None \<Rightarrow> raise AssertionError s
         | Some parent_namespace \<Rightarrow>
             and_then (maybe_create_returnn_ctx parent_namespace s) (\<lambda>_ s1.
               case create_returnn_layer_dict h module inputs_args inputs_kwargs of
                 Inl e \<Rightarrow> raise e s1
               | Inr layer_dict \<Rightarrow>
                   (case rn_returnn_ctx (nodes s1 parent_namespace) of
                      None \<Rightarrow> raise AttributeError s1
                    | Some ctx \<Rightarrow>
                        let layer_name = rn_name (nodes s1 namespace);
                            returnn_net = rc_network (contexts s1 ctx)
                        in
                          if (case layer_name of
                                None \<Rightarrow> False
                              | Some nm \<Rightarrow> nm \<in> set (dict_keys (n_layers (networks s1 returnn_net))))
                          then raise AssertionError s1
                          else if length (me_calls (module_entries s1 (ce_module (call_entries s1 self)))) \<ge> 2
                          then raise NotImplementedError s1
                          else apply_call_construct h self namespace layer_name returnn_net
                                 layer_dict inputs_flat s1))))"

text \<open>\<open>repr\<close> of a layer name (a string without quotes or escapes).\<close>

definition py_repr :: "string \<Rightarrow> string" where
  "py_repr x = [CHR 0x27] @ x @ [CHR 0x27]"

text \<open>Lines 135-161 of \<open>apply_call\<close>.\<close>

definition apply_call_finish ::
  "hooks \<Rightarrow> call_id \<Rightarrow> raw_tensor \<Rightarrow> layer_id option \<Rightarrow> pyval option \<Rightarrow> session \<Rightarrow> raw_tensor result option" where
  "apply_call_finish h self res layer layer_dict s =
     (let s1 = set_returnn_layer self layer layer_dict s in
      and_then (Some (set_outputs self (TensorSeq [res]) s1)) (\<lambda>_ s2.
        case layer of
          None \<Rightarrow> return res s2
        | Some l \<Rightarrow>
            let layer_abs_repr_name =
                  n_name (networks s2 (l_network (layers s2 l))) @ ''/'' @ py_repr (l_name (layers s2 l));
                module = me_module (module_entries s2 (ce_module (call_entries s2 self)))
            in
              if import_params_from_torch_namespace s2
                 \<and> \<not> startswith layer_abs_repr_name ''.''
                 \<and> is_original_torch_module module
              then
                (case (if has_own_parameters module
                       then import_params_torch_to_returnn h s2 self l else None) of
                   Some e \<Rightarrow> raise e s2
                 | None \<Rightarrow>
                     (case check_call_returnn_outputs_to_prev_torch h s2 self of
                        Some e \<Rightarrow> raise e s2
                      | None \<Rightarrow> return res s2))
              else return res s2))"

text \<open>The loop of lines 91-92 of \<open>apply_call\<close>.\<close>

fun register_inputs :: "ns_id \<Rightarrow> raw_tensor option list \<Rightarrow> session \<Rightarrow> unit result option" where
  "register_inputs namespace [] s = return () s"
| "register_inputs namespace (x # xs) s =
     (case x of
        None \<Rightarrow> raise KeyError s
      | Some r \<Rightarrow>
          (case tensors_getitem s r of
             Inl e \<Rightarrow> raise e s
           | Inr t \<Rightarrow>
               and_then (register_input namespace t s) (\<lambda>_ s1. register_inputs namespace xs s1)))"

text \<open>
  Modelled from the spec: the Operation Unit Registry (\<open>naming.modules\<close>; naming/naming.py
  is not among the sources) holds one \<open>ModuleEntry\<close> per unit instance; the entry of a unit
  that was just constructed is new.
\<close>

definition new_module_entry :: "op_unit \<Rightarrow> session \<Rightarrow> mod_id \<times> session" where
  "new_module_entry u s =
     (next_module s,
      s\<lparr>module_entries := (module_entries s)(next_module s :=
           \<lparr>me_module = u, me_calls = [], me_names = []\<rparr>),
        next_module := Suc (next_module s)\<rparr>)"

text \<open>Lines 210-214 of \<open>register_returnn_subnet_output\<close>.\<close>

definition link_copy_call :: "call_id \<Rightarrow> call_id \<Rightarrow> tensor_id \<Rightarrow> session \<Rightarrow> session" where
  "link_copy_call copy_call call tensor s =
     (let s1 = s\<lparr>call_entries := (call_entries s)
                  (copy_call := (call_entries s copy_call)\<lparr>ce_parent_call := Some call\<rparr>)\<rparr>;
          s2 = s1\<lparr>call_entries := (call_entries s1)
                  (call := (call_entries s1 call)\<lparr>ce_child_calls :=
                     ce_child_calls (call_entries s1 call) @ [copy_call]\<rparr>)\<rparr>
      in s2\<lparr>call_entries := (call_entries s2)
             (copy_call := (call_entries s2 copy_call)
                \<lparr>ce_inputs_args := Some [Some tensor],
                 ce_inputs_flat := Some [Some tensor],
                 ce_inputs_kwargs := Some []\<rparr>)\<rparr>)"

text \<open>Lines 208-214 of \<open>register_returnn_subnet_output\<close>: the identity invocation.\<close>

definition new_copy_call :: "hooks \<Rightarrow> call_id \<Rightarrow> tensor_id \<Rightarrow> session \<Rightarrow> call_id \<times> session" where
  "new_copy_call h call tensor s =
     (let (copy_mod, s4) = new_module_entry (Copy h) s;
          (copy_call, s5) = CallEntry_init copy_mod s4
      in (copy_call, link_copy_call copy_call call tensor s5))"

text \<open>
  Lines 195-216 of \<open>register_returnn_subnet_output\<close>: the producer is looked up, the
  reserved output child and the identity invocation are created, and the invocation is
  pushed on the call stack.
\<close>

definition register_returnn_subnet_output_setup ::
  "hooks \<Rightarrow> ns_id \<Rightarrow> tensor_id \<Rightarrow> session \<Rightarrow> (ns_id \<times> call_id) result option" where
  "register_returnn_subnet_output_setup h self tensor s =
     (if \<not> is_subnetwork s self then raise AssertionError s
      else if \<not> wrap_to_returnn_enabled s then raise AssertionError s
      else
        (case name_for_tensor s self tensor of
           Inl e \<Rightarrow> raise e s
         | Inr name_' \<Rightarrow>
             (case map_of (rn_childs_by_name (nodes s self)) name_' of
                None \<Rightarrow> raise KeyError s
              | Some producer \<Rightarrow>
                  let potential_calls =
                        remdups (filter (\<lambda>c. c \<in> set (rn_calls (nodes s producer)))
                                   (te_output_from_calls (tensor_entries s tensor)))
                  in
                    if length potential_calls \<noteq> 1 then raise AssertionError s
                    else
                      let call = hd potential_calls in
                      and_then (Some (assign_tensor self tensor s)) (\<lambda>_ s1.
                        let name = ReservedOutputName in
                        if name \<in> set (dict_keys (rn_childs_by_name (nodes s1 self)))
                        then raise AssertionError s1
                        else
                          and_then (RegisteredName_init None (Some self) (Some name) None None True False s1)
                            (\<lambda>child s2.
                              let s3 = set_child self name child s2;
                                  (copy_call, s8) = new_copy_call h call tensor s3
                              in
                                and_then (assign_call child copy_call s8) (\<lambda>_ s9.
                                  return (child, copy_call)
                                    (s9\<lparr>module_call_stack := module_call_stack s9 @ [copy_call]\<rparr>)))))))"

text \<open>
  The \<open>finally\<close> block of lines 219-221, entered with the outcome \<open>r\<close> of the \<open>try\<close> body: the
  assertion on the stack top comes first, then the pop; an exception of the body is raised
  again after the block.
\<close>

definition register_returnn_subnet_output_finally ::
  "call_id \<Rightarrow> error + 'a \<Rightarrow> session \<Rightarrow> 'a result option" where
  "register_returnn_subnet_output_finally copy_call r s =
     (if module_call_stack s = [] then raise IndexError s
      else if last (module_call_stack s) \<noteq> copy_call then raise AssertionError s
      else
        let s1 = s\<lparr>module_call_stack := butlast (module_call_stack s)\<rparr> in
        (case r of Inl e \<Rightarrow> raise e s1 | Inr v \<Rightarrow> return v s1))"

text \<open>Lines 222-224 of \<open>register_returnn_subnet_output\<close>.\<close>

definition register_returnn_subnet_output_finish ::
  "ns_id \<Rightarrow> tensor_id \<Rightarrow> ns_id \<Rightarrow> call_id \<Rightarrow> session \<Rightarrow> ns_id result option" where
  "register_returnn_subnet_output_finish self tensor child copy_call s =
     (case rn_returnn_ctx (nodes s self) of
        None \<Rightarrow> raise AttributeError s
      | Some c \<Rightarrow>
          let s1 = define_output c (ce_returnn_layer (call_entries s copy_call)) s in
          (case ce_returnn_layer (call_entries s1 copy_call) of
             None \<Rightarrow> raise AttributeError s1
           | Some l \<Rightarrow>
               return child
                 (s1\<lparr>tensor_entries := (tensor_entries s1)(tensor :=
                       (tensor_entries s1 tensor)\<lparr>te_returnn_data := Some (l_output (layers s1 l))\<rparr>)\<rparr>)))"

text \<open>
  \<open>apply_call\<close> (call.py, lines 79-161) and \<open>register_returnn_subnet_output\<close> (namespace.py,
  lines 194-224) call each other; the first argument bounds the depth of that recursion.
\<close>

fun apply_call :: "nat \<Rightarrow> hooks \<Rightarrow> call_id \<Rightarrow> session \<Rightarrow> raw_tensor result option"
  and register_returnn_subnet_output :: "nat \<Rightarrow> hooks \<Rightarrow> ns_id \<Rightarrow> tensor_id \<Rightarrow> session \<Rightarrow> ns_id result option"
where
  "apply_call 0 h self s = None"
| "apply_call (Suc n) h self s =
     (let module = me_module (module_entries s (ce_module (call_entries s self))) in
      case ce_namespace (call_entries s self) of
        None \<Rightarrow> raise AssertionError s
      | Some namespace \<Rightarrow>
          (case ce_inputs_flat (call_entries s self) of
             None \<Rightarrow> raise TypeError s
           | Some flat \<Rightarrow>
               let inputs_flat = map (\<lambda>x. case x of None \<Rightarrow> None
                                          | Some t \<Rightarrow> te_tensor (tensor_entries s t)) flat
               in
                 (case pack_sequence_as h (ce_inputs_args (call_entries s self))
                         (ce_inputs_kwargs (call_entries s self)) inputs_flat of
                    Inl e \<Rightarrow> raise e s
                  | Inr (inputs_args, inputs_kwargs) \<Rightarrow>
                      and_then
                        (if has_torch_forward module
                         then
                           and_then (register_inputs namespace inputs_flat s) (\<lambda>_ s1.
                             and_then (forward h module inputs_args s1) (\<lambda>res s2.
                               case res of
                                 OtherValue \<Rightarrow> raise AssertionError s2
                               | TensorValue r \<Rightarrow>
                                   (case tensors_getitem s2 r of
                                      Inl e \<Rightarrow> raise e s2
                                    | Inr res_entry \<Rightarrow>
                                        (case rn_returnn_ctx (nodes s2 namespace) of
                                           None \<Rightarrow> raise AttributeError s2
                                         | Some c \<Rightarrow>
                                             and_then
                                               (if rc_sub_net_layer (contexts s2 c) \<noteq> None
                                                then and_then (register_returnn_subnet_output n h namespace res_entry s2)
                                                       (\<lambda>_ s3. return () s3)
                                                else return () s2)
                                               (\<lambda>_ s3.
                                                 case rn_returnn_ctx (nodes s3 namespace) of
                                                   None \<Rightarrow> raise AttributeError s3
                                                 | Some c' \<Rightarrow>
                                                     return (r, rc_sub_net_layer (contexts s3 c'), None) s3)))))
                         else apply_call_returnn h self namespace inputs_flat inputs_args inputs_kwargs s)
                        (\<lambda>(res, layer, layer_dict) s1. apply_call_finish h self res layer layer_dict s1))))"
| "register_returnn_subnet_output n h self tensor s =
     and_then (register_returnn_subnet_output_setup h self tensor s) (\<lambda>(child, copy_call) s1.
       case apply_call n h copy_call s1 of
         None \<Rightarrow> None
       | Some (r, s2) \<Rightarrow>
           and_then (register_returnn_subnet_output_finally copy_call r s2) (\<lambda>_ s3.
             register_returnn_subnet_output_finish self tensor child copy_call s3))"

section \<open>Serialization (namespace.py, lines 250-276)\<close>

text \<open>The loop of lines 257-263: the parent scope's name of every input slot's tensor.\<close>

fun gather_inputs :: "session \<Rightarrow> ns_id \<Rightarrow> ns_id list \<Rightarrow> error + string list" where
  "gather_inputs s self [] = Inr []"
| "gather_inputs s self (input_child # rest) =
     (case rn_tensor (nodes s input_child) of
        None \<Rightarrow> Inl AssertionError
      | Some input_tensor \<Rightarrow>
          (case rn_parent (nodes s self) of
             None \<Rightarrow> Inl AssertionError
           | Some parent_namespace \<Rightarrow>
               (case name_for_tensor s parent_namespace input_tensor of
                  Inl e \<Rightarrow> Inl e
                | Inr input_layer_name \<Rightarrow>
                    (case gather_inputs s self rest of
                       Inl e \<Rightarrow> Inl e
                     | Inr names \<Rightarrow> Inr (input_layer_name # names)))))"

text \<open>The test of line 251: the node has a call, and its first call is on a unit without a torch forward.\<close>

definition dumps_as_layer :: "session \<Rightarrow> ns_id \<Rightarrow> bool" where
  "dumps_as_layer s self =
     (case rn_calls (nodes s self) of
        [] \<Rightarrow> False
      | c # _ \<Rightarrow> \<not> has_torch_forward (me_module (module_entries s (ce_module (call_entries s c)))))"

text \<open>The dictionary of lines 265-268.\<close>

definition subnetwork_layer_dict :: "string list \<Rightarrow> (string \<times> pyval) list \<Rightarrow> pyval" where
  "subnetwork_layer_dict inputs subnet_dict =
     (if length inputs \<le> 1
      then PDict [(''class'', PStr ''subnetwork''),
                  (''from'', if inputs \<noteq> [] then PStr (hd inputs) else PList []),
                  (''subnetwork'', PDict subnet_dict)]
      else PDict [(''class'', PStr ''subnetwork''),
                  (''from'', PList (map PStr inputs)),
                  (''subnetwork'', PDict subnet_dict),
                  (''concat_sources'', PBool False)])"

text \<open>
  \<open>dump_as_returnn_layer_dict\<close> and \<open>dump_as_returnn_net_dict\<close> descend the tree of children;
  the first argument bounds the depth.  \<open>dump_net_loop\<close> is the loop of lines 272-275.
\<close>

fun dump_as_returnn_layer_dict :: "nat \<Rightarrow> session \<Rightarrow> ns_id \<Rightarrow> (error + pyval) option"
  and dump_as_returnn_net_dict :: "nat \<Rightarrow> session \<Rightarrow> ns_id \<Rightarrow> (error + (string \<times> pyval) list) option"
  and dump_net_loop ::
    "nat \<Rightarrow> session \<Rightarrow> (string \<times> ns_id) list \<Rightarrow> (string \<times> pyval) list \<Rightarrow> (error + (string \<times> pyval) list) option"
where
  "dump_as_returnn_layer_dict 0 s self = None"
| "dump_as_returnn_layer_dict (Suc n) s self =
     (if dumps_as_layer s self
      then (if length (rn_calls (nodes s self)) \<noteq> 1 then Some (Inl AssertionError)
            else Some (Inr (case ce_returnn_layer_dict (call_entries s (hd (rn_calls (nodes s self)))) of
                              None \<Rightarrow> PNone
                            | Some d \<Rightarrow> d)))
      else
        (case gather_inputs s self (rn_inputs (nodes s self)) of
           Inl e \<Rightarrow> Some (Inl e)
         | Inr inputs \<Rightarrow>
             (case dump_as_returnn_net_dict n s self of
                None \<Rightarrow> None
              | Some (Inl e) \<Rightarrow> Some (Inl e)
              | Some (Inr subnet_dict) \<Rightarrow> Some (Inr (subnetwork_layer_dict inputs subnet_dict)))))"
| "dump_as_returnn_net_dict n s self = dump_net_loop n s (rn_childs_by_name (nodes s self)) []"
| "dump_net_loop n s [] net_dict = Some (Inr net_dict)"
| "dump_net_loop n s ((name, child) # rest) net_dict =
     (if rn_calls (nodes s child) = [] then dump_net_loop n s rest net_dict
      else
        (case dump_as_returnn_layer_dict n s child of
           None \<Rightarrow> None
         | Some (Inl e) \<Rightarrow> Some (Inl e)
         | Some (Inr d) \<Rightarrow> dump_net_loop n s rest (dict_set net_dict name d)))"

section \<open>Auxiliary notions for the properties\<close>

text \<open>The names a scope cannot hand out any more: those of its children and the reserved ones.\<close>

definition taken_names :: "session \<Rightarrow> ns_id \<Rightarrow> string set" where
  "taken_names s self = set (dict_keys (rn_childs_by_name (nodes s self))) \<union> ReservedNames"

text \<open>
  What creating construction contexts may change in a session: the \<open>returnn_ctx\<close> field of
  nodes that had none, and new contexts, networks and layers beyond the allocated ones.
\<close>

definition context_creation_only :: "session \<Rightarrow> session \<Rightarrow> bool" where
  "context_creation_only s s' \<longleftrightarrow>
     (\<forall>n. nodes s' n = (nodes s n)\<lparr>rn_returnn_ctx := rn_returnn_ctx (nodes s' n)\<rparr>)
     \<and> (\<forall>n. rn_returnn_ctx (nodes s n) \<noteq> None \<longrightarrow> rn_returnn_ctx (nodes s' n) = rn_returnn_ctx (nodes s n))
     \<and> next_node s' = next_node s
     \<and> call_entries s' = call_entries s \<and> next_call s' = next_call s
     \<and> module_entries s' = module_entries s \<and> next_module s' = next_module s
     \<and> tensor_entries s' = tensor_entries s \<and> next_tensor s' = next_tensor s
     \<and> (\<forall>c. c < next_ctx s \<longrightarrow> contexts s' c = contexts s c) \<and> next_ctx s \<le> next_ctx s'
     \<and> (\<forall>n. n < next_net s \<longrightarrow> networks s' n = networks s n) \<and> next_net s \<le> next_net s'
     \<and> (\<forall>l. l < next_layer s \<longrightarrow> layers s' l = layers s l) \<and> next_layer s \<le> next_layer s'
     \<and> wrap_to_returnn_enabled s' = wrap_to_returnn_enabled s
     \<and> keep_orig_module_io_tensors s' = keep_orig_module_io_tensors s
     \<and> import_params_from_torch_namespace s' = import_params_from_torch_namespace s
     \<and> module_call_stack s' = module_call_stack s
     \<and> tensors s' = tensors s"



text \<open>The effect of \<open>assign_tensor\<close> on a node that has no tensor yet.\<close>

definition bind_tensor :: "ns_id \<Rightarrow> tensor_id \<Rightarrow> session \<Rightarrow> session" where
  "bind_tensor self t s =
     s\<lparr>nodes := (nodes s)(self := (nodes s self)\<lparr>rn_tensor := Some t\<rparr>),
       tensor_entries := (tensor_entries s)(t :=
         (tensor_entries s t)\<lparr>te_names := te_names (tensor_entries s t) @ [Some self]\<rparr>)\<rparr>"

text \<open>
  The name and the context key of input slot \<open>idx\<close> (namespace.py, lines 181-185 and 191),
  and the session after lines 187-189 of \<open>register_input\<close>.
\<close>

definition input_slot_name :: "nat \<Rightarrow> string" where
  "input_slot_name idx = (if idx \<noteq> 0 then ReservedInputName @ '':'' @ str_nat idx else ReservedInputName)"

definition input_slot_key :: "nat \<Rightarrow> string option" where
  "input_slot_key idx = (if idx \<noteq> 0 then Some (str_nat idx) else None)"

definition new_input_slot :: "ns_id \<Rightarrow> tensor_id \<Rightarrow> session \<Rightarrow> session" where
  "new_input_slot self t s =
     append_input self (next_node s)
       (set_child self (input_slot_name (length (rn_inputs (nodes s self)))) (next_node s)
         (bind_tensor (next_node s) t
           (set_level (next_node s) self
             (new_node (Some self) (Some (input_slot_name (length (rn_inputs (nodes s self)))))
                (rn_wrap_to_returnn_enabled (nodes s self)) True False s))))"

text \<open>What \<open>assign_module\<close> and \<open>assign_call\<close> leave alone.\<close>

definition binding_only :: "session \<Rightarrow> session \<Rightarrow> bool" where
  "binding_only s s' \<longleftrightarrow>
     (\<forall>n. rn_childs_by_name (nodes s' n) = rn_childs_by_name (nodes s n)
        \<and> rn_parent (nodes s' n) = rn_parent (nodes s n)
        \<and> rn_name (nodes s' n) = rn_name (nodes s n)
        \<and> rn_level (nodes s' n) = rn_level (nodes s n)
        \<and> rn_tensor (nodes s' n) = rn_tensor (nodes s n)
        \<and> rn_is_reserved (nodes s' n) = rn_is_reserved (nodes s n)
        \<and> rn_is_subnet (nodes s' n) = rn_is_subnet (nodes s n)
        \<and> rn_wrap_to_returnn_enabled (nodes s' n) = rn_wrap_to_returnn_enabled (nodes s n)
        \<and> rn_inputs (nodes s' n) = rn_inputs (nodes s n))
     \<and> (\<forall>k. ce_module (call_entries s' k) = ce_module (call_entries s k)
            \<and> ce_outputs (call_entries s' k) = ce_outputs (call_entries s k)
            \<and> ce_inputs_flat (call_entries s' k) = ce_inputs_flat (call_entries s k)
            \<and> ce_inputs_args (call_entries s' k) = ce_inputs_args (call_entries s k)
            \<and> ce_inputs_kwargs (call_entries s' k) = ce_inputs_kwargs (call_entries s k)
            \<and> ce_returnn_layer (call_entries s' k) = ce_returnn_layer (call_entries s k)
            \<and> ce_returnn_layer_dict (call_entries s' k) = ce_returnn_layer_dict (call_entries s k))
     \<and> (\<forall>k. me_module (module_entries s' k) = me_module (module_entries s k)
            \<and> me_calls (module_entries s' k) = me_calls (module_entries s k))
     \<and> next_node s' = next_node s \<and> next_call s' = next_call s \<and> next_module s' = next_module s
     \<and> tensor_entries s' = tensor_entries s \<and> next_tensor s' = next_tensor s
     \<and> wrap_to_returnn_enabled s' = wrap_to_returnn_enabled s
     \<and> keep_orig_module_io_tensors s' = keep_orig_module_io_tensors s
     \<and> import_params_from_torch_namespace s' = import_params_from_torch_namespace s
     \<and> module_call_stack s' = module_call_stack s
     \<and> tensors s' = tensors s"

text \<open>
  Repeated \<open>register_sub_net\<close> at one scope, one call per suggested name; the result is the
  list of the names the created children got.
\<close>

fun register_sub_nets :: "ns_id \<Rightarrow> string list \<Rightarrow> session \<Rightarrow> string list result option" where
  "register_sub_nets self [] s = return [] s"
| "register_sub_nets self (suggested_name # rest) s =
     and_then (register_sub_net self suggested_name s) (\<lambda>child s1.
       and_then (register_sub_nets self rest s1) (\<lambda>names s2.
         return ((case rn_name (nodes s1 child) of Some n \<Rightarrow> n | None \<Rightarrow> []) # names) s2))"

section \<open>Example sessions\<close>

text \<open>A session without objects: every arena holds blank objects, nothing is allocated.\<close>

definition blank_node :: RegisteredName where
  "blank_node = \<lparr>rn_childs_by_name = [], rn_parent = None, rn_name = None, rn_level = 0,
     rn_modules = [], rn_calls = [], rn_tensor = None, rn_returnn_ctx = None,
     rn_is_reserved = False, rn_is_subnet = False, rn_wrap_to_returnn_enabled = False,
     rn_inputs = []\<rparr>"

definition blank_call :: CallEntry where
  "blank_call = \<lparr>ce_module = 0, ce_orig_outputs = None, ce_inputs_args = None,
     ce_inputs_kwargs = None, ce_inputs_flat = None, ce_outputs = None, ce_parent_call = None,
     ce_child_calls = [], ce_level = None, ce_namespace = None, ce_returnn_layer = None,
     ce_returnn_layer_dict = None\<rparr>"

definition primitive_unit :: op_unit where
  "primitive_unit = \<lparr>has_torch_forward = False, is_original_torch_module = False, has_own_parameters = False, unit_tag = 0\<rparr>"

definition compound_unit :: op_unit where
  "compound_unit = \<lparr>has_torch_forward = True, is_original_torch_module = False, has_own_parameters = False, unit_tag = 1\<rparr>"

definition blank_module :: ModuleEntry where
  "blank_module = \<lparr>me_module = primitive_unit, me_calls = [], me_names = []\<rparr>"

definition blank_tensor :: TensorEntry where
  "blank_tensor = \<lparr>te_tensor = None, te_names = [], te_output_from_calls = [],
     te_output_from_modules = [], te_returnn_data = None\<rparr>"

definition blank_session :: session where
  "blank_session = \<lparr>nodes = (\<lambda>_. blank_node), next_node = 0,
     call_entries = (\<lambda>_. blank_call), next_call = 0,
     module_entries = (\<lambda>_. blank_module), next_module = 0,
     tensor_entries = (\<lambda>_. blank_tensor), next_tensor = 0,
     contexts = (\<lambda>_. \<lparr>rc_parent = None, rc_name = None, rc_network = 0,
                       rc_sub_net_layer = None, rc_inputs = [], rc_output = None\<rparr>), next_ctx = 0,
     networks = (\<lambda>_. \<lparr>n_name = [], n_layers = [], n_parent_layer = None\<rparr>), next_net = 0,
     layers = (\<lambda>_. \<lparr>l_name = [], l_network = 0, l_params = [], l_output = 0\<rparr>), next_layer = 0,
     wrap_to_returnn_enabled = False, keep_orig_module_io_tensors = False,
     import_params_from_torch_namespace = False, module_call_stack = [], tensors = []\<rparr>"

text \<open>One invocation (number 0) and one traced value (7, with entry 0); materialization off.\<close>

definition one_call_session :: session where
  "one_call_session = blank_session\<lparr>next_call := 1, next_module := 1,
     module_entries := (\<lambda>_. blank_module)(0 := blank_module\<lparr>me_calls := [0]\<rparr>),
     tensor_entries := (\<lambda>_. blank_tensor)(0 := blank_tensor\<lparr>te_tensor := Some 7\<rparr>),
     next_tensor := 1, tensors := [(7, 0)]\<rparr>"

text \<open>
  A traced session after one compound unit (scope \<open>sub\<close>, node 1) ran one primitive unit
  (\<open>relu\<close>, node 4) on its input: the value is known as \<open>x\<close> in the root scope (node 3) and as
  the input slot \<open>data\<close> of \<open>sub\<close> (node 2).
\<close>

definition relu_layer_dict :: pyval where
  "relu_layer_dict = PDict [(''class'', PStr ''activation''), (''activation'', PStr ''relu''),
                            (''from'', PStr ''data'')]"

definition dump_session :: session where
  "dump_session = blank_session\<lparr>
     nodes := (\<lambda>_. blank_node)
       (0 := blank_node\<lparr>rn_childs_by_name := [(''x'', 3), (''sub'', 1)], rn_is_subnet := True\<rparr>,
        1 := blank_node\<lparr>rn_childs_by_name := [(''data'', 2), (''relu'', 4)], rn_parent := Some 0,
               rn_name := Some ''sub'', rn_level := 1, rn_modules := [0], rn_calls := [0],
               rn_is_subnet := True, rn_inputs := [2]\<rparr>,
        2 := blank_node\<lparr>rn_parent := Some 1, rn_name := Some ''data'', rn_level := 2,
               rn_tensor := Some 0, rn_is_reserved := True\<rparr>,
        3 := blank_node\<lparr>rn_parent := Some 0, rn_name := Some ''x'', rn_level := 1,
               rn_tensor := Some 0\<rparr>,
        4 := blank_node\<lparr>rn_parent := Some 1, rn_name := Some ''relu'', rn_level := 2,
               rn_modules := [1], rn_calls := [1]\<rparr>),
     next_node := 5,
     call_entries := (\<lambda>_. blank_call)
       (0 := blank_call\<lparr>ce_module := 0, ce_namespace := Some 1\<rparr>,
        1 := blank_call\<lparr>ce_module := 1, ce_namespace := Some 4, ce_parent_call := Some 0,
               ce_returnn_layer_dict := Some relu_layer_dict\<rparr>),
     next_call := 2,
     module_entries := (\<lambda>_. blank_module)
       (0 := \<lparr>me_module = compound_unit, me_calls = [0], me_names = [1]\<rparr>,
        1 := \<lparr>me_module = primitive_unit, me_calls = [1], me_names = [4]\<rparr>),
     next_module := 2,
     tensor_entries := (\<lambda>_. blank_tensor)
       (0 := blank_tensor\<lparr>te_tensor := Some 7, te_names := [Some 3, Some 2]\<rparr>),
     next_tensor := 1,
     tensors := [(7, 0)]\<rparr>"


text \<open>The same session before the primitive invocation was materialized.\<close>

definition unmaterialized_session :: session where
  "unmaterialized_session = dump_session\<lparr>call_entries := (call_entries dump_session)
     (1 := (call_entries dump_session 1)\<lparr>ce_returnn_layer_dict := None\<rparr>)\<rparr>"

text \<open>
  A root scope (node 0) and two traced values (7 and 8, with entries 0 and 1); graph
  materialization is off in \<open>root_session\<close> and on, with the root's context, in
  \<open>wrap_root_session\<close>.
\<close>

definition root_session :: session where
  "root_session = blank_session\<lparr>
     nodes := (\<lambda>_. blank_node)(0 := blank_node\<lparr>rn_is_subnet := True\<rparr>),
     next_node := 1,
     tensor_entries := (\<lambda>_. blank_tensor)
       (0 := blank_tensor\<lparr>te_tensor := Some 7\<rparr>, 1 := blank_tensor\<lparr>te_tensor := Some 8\<rparr>),
     next_tensor := 2,
     tensors := [(7, 0), (8, 1)]\<rparr>"

definition wrap_root_session :: session where
  "wrap_root_session = root_session\<lparr>
     nodes := (\<lambda>_. blank_node)(0 := blank_node\<lparr>rn_is_subnet := True,
        rn_wrap_to_returnn_enabled := True, rn_returnn_ctx := Some 0\<rparr>),
     contexts := (contexts blank_session)(0 := \<lparr>rc_parent = None, rc_name = None, rc_network = 0,
        rc_sub_net_layer = None, rc_inputs = [], rc_output = None\<rparr>),
     next_ctx := 1,
     networks := (networks blank_session)(0 := \<lparr>n_name = ''root'', n_layers = [], n_parent_layer = None\<rparr>),
     next_net := 1,
     wrap_to_returnn_enabled := True\<rparr>"

text \<open>
  Collaborators for the examples: every unit prefers the name \<open>relu\<close>, describes itself as
  a \<open>copy\<close> node, and the engine builds a layer without parameters.
\<close>

definition plain_hooks :: hooks where
  "plain_hooks = \<lparr>
     get_canonical_name = (\<lambda>_ _ _. ''relu''),
     pack_sequence_as = (\<lambda>_ _ flat. Inr (flat, [])),
     forward = (\<lambda>_ _ s. Some (Inl (ExternalError 0), s)),
     create_returnn_layer_dict = (\<lambda>_ _ _. Inr (PDict [(''class'', PStr ''copy''), (''from'', PStr ''relu'')])),
     construct_layer = (\<lambda>_ _ _ _. Inr ([], 0)),
     check_returnn_layer = (\<lambda>_ _. None),
     make_output_tensor_from_returnn = (\<lambda>_ _ _ _. Inr 9),
     import_params_torch_to_returnn = (\<lambda>_ _ _. None),
     check_call_returnn_outputs_to_prev_torch = (\<lambda>_ _. None),
     Copy = primitive_unit\<rparr>"

text \<open>
  The traced session once more, with a further invocation (number 2, of a third unit, a
  primitive one) that is not bound to a namespace node yet.
\<close>

definition second_call_session :: session where
  "second_call_session = dump_session\<lparr>
     call_entries := (call_entries dump_session)(2 := blank_call\<lparr>ce_module := 2, ce_parent_call := Some 0\<rparr>),
     next_call := 3,
     module_entries := (module_entries dump_session)
       (2 := \<lparr>me_module = primitive_unit, me_calls = [2], me_names = []\<rparr>),
     next_module := 3\<rparr>"

text \<open>
  A root scope with graph materialization: the primitive unit 0 was invoked (invocation 0,
  node \<open>relu\<close>, layer 0 of the root network) and is invoked a second time (invocation 1,
  bound to the node \<open>relu_1\<close>, not applied yet).
\<close>

definition reuse_session :: session where
  "reuse_session = blank_session\<lparr>
     nodes := (\<lambda>_. blank_node)
       (0 := blank_node\<lparr>rn_childs_by_name := [(''relu'', 1), (''relu_1'', 2)], rn_is_subnet := True,
               rn_wrap_to_returnn_enabled := True, rn_returnn_ctx := Some 0\<rparr>,
        1 := blank_node\<lparr>rn_parent := Some 0, rn_name := Some ''relu'', rn_level := 1,
               rn_modules := [0], rn_calls := [0], rn_tensor := Some 1,
               rn_wrap_to_returnn_enabled := True\<rparr>,
        2 := blank_node\<lparr>rn_parent := Some 0, rn_name := Some ''relu_1'', rn_level := 1,
               rn_modules := [0], rn_calls := [1], rn_wrap_to_returnn_enabled := True\<rparr>),
     next_node := 3,
     call_entries := (\<lambda>_. blank_call)
       (0 := blank_call\<lparr>ce_module := 0, ce_inputs_args := Some [Some 0], ce_inputs_kwargs := Some [],
               ce_inputs_flat := Some [Some 0], ce_outputs := Some [1], ce_namespace := Some 1,
               ce_returnn_layer := Some 0, ce_returnn_layer_dict := Some relu_layer_dict\<rparr>,
        1 := blank_call\<lparr>ce_module := 0, ce_inputs_args := Some [Some 1], ce_inputs_kwargs := Some [],
               ce_inputs_flat := Some [Some 1], ce_namespace := Some 2\<rparr>),
     next_call := 2,
     module_entries := (\<lambda>_. blank_module)
       (0 := \<lparr>me_module = primitive_unit, me_calls = [0, 1], me_names = [1, 2]\<rparr>),
     next_module := 1,
     tensor_entries := (\<lambda>_. blank_tensor)
       (0 := blank_tensor\<lparr>te_tensor := Some 7\<rparr>,
        1 := blank_tensor\<lparr>te_tensor := Some 8, te_names := [Some 1], te_output_from_calls := [0],
               te_output_from_modules := [0], te_returnn_data := Some 0\<rparr>),
     next_tensor := 2,
     contexts := (contexts blank_session)(0 := \<lparr>rc_parent = None, rc_name = None, rc_network = 0,
        rc_sub_net_layer = None, rc_inputs = [], rc_output = None\<rparr>),
     next_ctx := 1,
     networks := (networks blank_session)(0 := \<lparr>n_name = ''root'', n_layers = [(''relu'', 0)], n_parent_layer = None\<rparr>),
     next_net := 1,
     layers := (layers blank_session)(0 := \<lparr>l_name = ''relu'', l_network = 0, l_params = [], l_output = 0\<rparr>),
     next_layer := 1,
     wrap_to_returnn_enabled := True,
     tensors := [(7, 0), (8, 1)]\<rparr>"

section \<open>Dictionaries and sequencing\<close>

lemma dict_set_fresh: "k \<notin> set (dict_keys d) \<Longrightarrow> dict_set d k v = d @ [(k, v)]"
  by (induction d) (auto simp: dict_set_def dict_keys_def)

lemma dict_keys_dict_set: "set (dict_keys (dict_set d k v)) = insert k (set (dict_keys d))"
  using dom_update [of k v d] by (simp add: dict_set_def dict_keys_def)

lemma and_then_simps [simp]:
  "and_then None f = None"
  "and_then (Some (Inl e, s)) f = Some (Inl e, s)"
  "and_then (Some (Inr v, s)) f = f v s"
  "and_then (raise e s) f = raise e s"
  "and_then (return v s) f = f v s"
  by (simp_all add: and_then_def raise_def return_def)

lemma and_then_Some:
  assumes "and_then m f = Some y"
  obtains (raised) e s1 where "m = Some (Inl e, s1)" and "y = (Inl e, s1)"
        | (returned) v s1 where "m = Some (Inr v, s1)" and "f v s1 = Some y"
  using assms by (auto simp: and_then_def split: option.splits sum.splits prod.splits)

lemma raise_Some [simp]: "raise e s = Some y \<longleftrightarrow> y = (Inl e, s)"
  by (auto simp: raise_def)

lemma return_Some [simp]: "return v s = Some y \<longleftrightarrow> y = (Inr v, s)"
  by (auto simp: return_def)

lemma str_nat_1: "str_nat (Suc 0) = ''1''"
  by code_simp

lemma str_nat_1': "str_nat 1 = ''1''"
  by code_simp

lemma and_then_cong_returned:
  assumes "\<And>v s1. m = Some (Inr v, s1) \<Longrightarrow> f v s1 = g v s1"
  shows "and_then m f = and_then m g"
  using assms by (auto simp: and_then_def split: option.splits sum.splits prod.splits)

lemma and_then_raises:
  assumes "\<And>v s1. m \<noteq> Some (Inr v, s1)"
  shows "and_then m f = m"
  using assms by (auto simp: and_then_def split: option.splits sum.splits prod.splits)

section \<open>Properties of invocation records\<close>

lemma call_entries_add_producer: "call_entries (add_producer c x s) = call_entries s"
  by (simp add: add_producer_def)

lemma call_entries_fold_add_producer:
  "call_entries (fold (add_producer c) xs s) = call_entries s"
  by (induction xs arbitrary: s) (simp_all add: call_entries_add_producer)

lemma set_outputs_sets:
  assumes "wrap_to_returnn_enabled s" and "set_outputs c outs s = (Inr (), s')"
  shows "ce_outputs (call_entries s' c) \<noteq> None"
  using assms
  by (auto simp: set_outputs_def Let_def call_entries_fold_add_producer call_entries_add_producer
      split: if_splits sum.splits list.splits)

text \<open>
  C8, as amended.  With graph materialization enabled (\<open>wrap_to_returnn_enabled\<close>), once
  \<open>set_outputs\<close> has returned normally on an invocation, every later \<open>set_outputs\<close> on it,
  in any session that still holds the recorded outputs, fails with \<open>AssertionError\<close> and
  changes nothing, whatever the other flags and the new outputs are.
\<close>

theorem set_outputs_once:
  assumes "wrap_to_returnn_enabled s"
    and "set_outputs c outs s = (Inr (), s')"
    and "ce_outputs (call_entries s'' c) = ce_outputs (call_entries s' c)"
  shows "set_outputs c outs' s'' = (Inl AssertionError, s'')"
proof -
  have "ce_outputs (call_entries s' c) \<noteq> None"
    using assms(1,2) by (rule set_outputs_sets)
  with assms(3) show ?thesis
    by (simp add: set_outputs_def)
qed

lemma one_call_session_wrap_set_outputs_fst:
  "fst (set_outputs 0 (TensorSeq [7]) (one_call_session\<lparr>wrap_to_returnn_enabled := True\<rparr>)) = Inr ()"
  by (simp add: set_outputs_def one_call_session_def blank_session_def tensors_getitem_def
      add_producer_def blank_call_def blank_tensor_def Let_def)

lemma one_call_session_wrap_set_outputs:
  "set_outputs 0 (TensorSeq [7]) (one_call_session\<lparr>wrap_to_returnn_enabled := True\<rparr>)
     = (Inr (), snd (set_outputs 0 (TensorSeq [7]) (one_call_session\<lparr>wrap_to_returnn_enabled := True\<rparr>)))"
  using one_call_session_wrap_set_outputs_fst by (simp add: prod_eq_iff)

theorem set_outputs_once_witness:
  "wrap_to_returnn_enabled (one_call_session\<lparr>wrap_to_returnn_enabled := True\<rparr>)
   \<and> fst (set_outputs 0 (TensorSeq [7]) (one_call_session\<lparr>wrap_to_returnn_enabled := True\<rparr>)) = Inr ()
   \<and> set_outputs 0 (OneTensor 7)
        (snd (set_outputs 0 (TensorSeq [7]) (one_call_session\<lparr>wrap_to_returnn_enabled := True\<rparr>)))
      = (Inl AssertionError,
         snd (set_outputs 0 (TensorSeq [7]) (one_call_session\<lparr>wrap_to_returnn_enabled := True\<rparr>)))"
proof -
  have w: "wrap_to_returnn_enabled (one_call_session\<lparr>wrap_to_returnn_enabled := True\<rparr>)"
    by simp
  show ?thesis
    using w one_call_session_wrap_set_outputs_fst
      set_outputs_once [OF w one_call_session_wrap_set_outputs refl, of "OneTensor 7"]
    by simp
qed

text \<open>
  C8 as stated fails: with graph materialization disabled \<open>set_outputs\<close> records no outputs
  (call.py, line 66), and a second call on the same invocation returns normally.
\<close>

theorem set_outputs_twice_counterexample:
  "\<not> wrap_to_returnn_enabled one_call_session
   \<and> set_outputs 0 (TensorSeq [7]) one_call_session = (Inr (), one_call_session)
   \<and> set_outputs 0 (TensorSeq [7]) (snd (set_outputs 0 (TensorSeq [7]) one_call_session))
      = (Inr (), one_call_session)"
  by (simp add: set_outputs_def one_call_session_def blank_session_def blank_call_def)

section \<open>Properties of namespace nodes\<close>

subsection \<open>Unique names\<close>

lemma get_unique_name_loop_first_free:
  "\<exists>j\<ge>i. get_unique_name_loop childs sug i = sug @ ''_'' @ str_nat j
      \<and> sug @ ''_'' @ str_nat j \<notin> set (dict_keys childs) \<union> ReservedNames
      \<and> (\<forall>k. i \<le> k \<and> k < j \<longrightarrow> sug @ ''_'' @ str_nat k \<in> set (dict_keys childs) \<union> ReservedNames)"
proof (induction childs sug i rule: get_unique_name_loop.induct)
  case (1 childs sug i)
  let ?nm = "sug @ ''_'' @ str_nat i"
  show ?case
  proof (cases "?nm \<notin> set (dict_keys childs) \<and> ?nm \<notin> ReservedNames")
    case True
    then have "get_unique_name_loop childs sug i = ?nm"
      by (subst get_unique_name_loop.simps) (simp add: Let_def)
    with True show ?thesis by (intro exI [of _ i]) auto
  next
    case False
    then have eq: "get_unique_name_loop childs sug i = get_unique_name_loop childs sug (Suc i)"
      by (subst get_unique_name_loop.simps) (auto simp: Let_def)
    from 1 [OF refl False] obtain j where j: "Suc i \<le> j"
      "get_unique_name_loop childs sug (Suc i) = sug @ ''_'' @ str_nat j"
      "sug @ ''_'' @ str_nat j \<notin> set (dict_keys childs) \<union> ReservedNames"
      "\<forall>k. Suc i \<le> k \<and> k < j \<longrightarrow> sug @ ''_'' @ str_nat k \<in> set (dict_keys childs) \<union> ReservedNames"
      by blast
    have "\<forall>k. i \<le> k \<and> k < j \<longrightarrow> sug @ ''_'' @ str_nat k \<in> set (dict_keys childs) \<union> ReservedNames"
    proof (intro allI impI)
      fix k assume k: "i \<le> k \<and> k < j"
      show "sug @ ''_'' @ str_nat k \<in> set (dict_keys childs) \<union> ReservedNames"
      proof (cases "k = i")
        case True with False show ?thesis by auto
      next
        case False with k j(4) show ?thesis by simp
      qed
    qed
    with j eq show ?thesis by (intro exI [of _ j]) auto
  qed
qed

lemma get_unique_name_free:
  "suggested \<notin> taken_names s self \<Longrightarrow> get_unique_name s self suggested = suggested"
  by (simp add: get_unique_name_def taken_names_def)

lemma get_unique_name_numbered:
  assumes "suggested \<in> taken_names s self"
  shows "\<exists>i\<ge>1. get_unique_name s self suggested = suggested @ ''_'' @ str_nat i
      \<and> suggested @ ''_'' @ str_nat i \<notin> taken_names s self
      \<and> (\<forall>k. 1 \<le> k \<and> k < i \<longrightarrow> suggested @ ''_'' @ str_nat k \<in> taken_names s self)"
proof -
  have "get_unique_name s self suggested
          = get_unique_name_loop (rn_childs_by_name (nodes s self)) suggested 1"
    using assms by (auto simp: get_unique_name_def taken_names_def)
  then show ?thesis
    using get_unique_name_loop_first_free [of 1 "rn_childs_by_name (nodes s self)" suggested]
    by (simp add: taken_names_def)
qed

lemma get_unique_name_not_taken: "get_unique_name s self suggested \<notin> taken_names s self"
proof (cases "suggested \<in> taken_names s self")
  case True
  from get_unique_name_numbered [OF True] show ?thesis by auto
next
  case False
  then show ?thesis by (simp add: get_unique_name_free)
qed


subsection \<open>Context creation\<close>

lemma context_creation_only_refl: "context_creation_only s s"
  by (simp add: context_creation_only_def)

lemma node_ctx_update_eq:
  "n' = n\<lparr>rn_returnn_ctx := c'\<rparr> \<Longrightarrow> n'' = n'\<lparr>rn_returnn_ctx := c''\<rparr> \<Longrightarrow> n'' = n\<lparr>rn_returnn_ctx := c''\<rparr>"
  by simp

lemma context_creation_only_trans:
  assumes "context_creation_only s s1" and "context_creation_only s1 s2"
  shows "context_creation_only s s2"
proof -
  have n: "\<forall>n. nodes s2 n = (nodes s n)\<lparr>rn_returnn_ctx := rn_returnn_ctx (nodes s2 n)\<rparr>"
  proof
    fix n
    have a: "nodes s1 n = (nodes s n)\<lparr>rn_returnn_ctx := rn_returnn_ctx (nodes s1 n)\<rparr>"
      using assms(1) by (simp add: context_creation_only_def)
    have b: "nodes s2 n = (nodes s1 n)\<lparr>rn_returnn_ctx := rn_returnn_ctx (nodes s2 n)\<rparr>"
      using assms(2) by (simp add: context_creation_only_def)
    show "nodes s2 n = (nodes s n)\<lparr>rn_returnn_ctx := rn_returnn_ctx (nodes s2 n)\<rparr>"
      using a b by (rule node_ctx_update_eq)
  qed
  have c: "\<forall>n. rn_returnn_ctx (nodes s n) \<noteq> None \<longrightarrow> rn_returnn_ctx (nodes s2 n) = rn_returnn_ctx (nodes s n)"
    using assms by (auto simp: context_creation_only_def)
  have rest: "next_node s2 = next_node s
     \<and> call_entries s2 = call_entries s \<and> next_call s2 = next_call s
     \<and> module_entries s2 = module_entries s \<and> next_module s2 = next_module s
     \<and> tensor_entries s2 = tensor_entries s \<and> next_tensor s2 = next_tensor s
     \<and> wrap_to_returnn_enabled s2 = wrap_to_returnn_enabled s
     \<and> keep_orig_module_io_tensors s2 = keep_orig_module_io_tensors s
     \<and> import_params_from_torch_namespace s2 = import_params_from_torch_namespace s
     \<and> module_call_stack s2 = module_call_stack s
     \<and> tensors s2 = tensors s"
    using assms by (simp add: context_creation_only_def)
  have ctx: "(\<forall>c. c < next_ctx s \<longrightarrow> contexts s2 c = contexts s c) \<and> next_ctx s \<le> next_ctx s2"
    using assms by (auto simp: context_creation_only_def)
  have net: "(\<forall>n. n < next_net s \<longrightarrow> networks s2 n = networks s n) \<and> next_net s \<le> next_net s2"
    using assms by (auto simp: context_creation_only_def)
  have lay: "(\<forall>l. l < next_layer s \<longrightarrow> layers s2 l = layers s l) \<and> next_layer s \<le> next_layer s2"
    using assms by (auto simp: context_creation_only_def)
  show ?thesis
    unfolding context_creation_only_def using n c rest ctx net lay by blast
qed

lemma ReturnnContext_init_unchanged:
  assumes "ReturnnContext_init parent name s1 = (c, s2)"
  shows "nodes s2 = nodes s1 \<and> next_node s2 = next_node s1
     \<and> call_entries s2 = call_entries s1 \<and> next_call s2 = next_call s1
     \<and> module_entries s2 = module_entries s1 \<and> next_module s2 = next_module s1
     \<and> tensor_entries s2 = tensor_entries s1 \<and> next_tensor s2 = next_tensor s1
     \<and> wrap_to_returnn_enabled s2 = wrap_to_returnn_enabled s1
     \<and> keep_orig_module_io_tensors s2 = keep_orig_module_io_tensors s1
     \<and> import_params_from_torch_namespace s2 = import_params_from_torch_namespace s1
     \<and> module_call_stack s2 = module_call_stack s1
     \<and> tensors s2 = tensors s1"
  using assms by (cases parent) (auto simp: ReturnnContext_init_def Let_def)

lemma ReturnnContext_init_arenas:
  assumes "ReturnnContext_init parent name s1 = (c, s2)"
  shows "(\<forall>k. k < next_ctx s1 \<longrightarrow> contexts s2 k = contexts s1 k) \<and> next_ctx s1 \<le> next_ctx s2
     \<and> (\<forall>n. n < next_net s1 \<longrightarrow> networks s2 n = networks s1 n) \<and> next_net s1 \<le> next_net s2
     \<and> (\<forall>l. l < next_layer s1 \<longrightarrow> layers s2 l = layers s1 l) \<and> next_layer s1 \<le> next_layer s2"
  using assms by (cases parent) (auto simp: ReturnnContext_init_def Let_def)

lemma ReturnnContext_init_frame:
  assumes init: "ReturnnContext_init parent name s = (c, s2)"
    and none: "rn_returnn_ctx (nodes s self) = None"
  shows "context_creation_only s
           (s2\<lparr>nodes := (nodes s2)(self := (nodes s2 self)\<lparr>rn_returnn_ctx := Some c\<rparr>)\<rparr>)"
  using ReturnnContext_init_unchanged [OF init] ReturnnContext_init_arenas [OF init] none
  by (simp add: context_creation_only_def)

lemma context_creation_only_set_ctx:
  assumes f: "context_creation_only s s1"
    and none: "rn_returnn_ctx (nodes s self) = None"
  shows "context_creation_only s
           (s1\<lparr>nodes := (nodes s1)(self := (nodes s1 self)\<lparr>rn_returnn_ctx := c\<rparr>)\<rparr>)"
proof -
  have n: "\<forall>n. nodes s1 n = (nodes s n)\<lparr>rn_returnn_ctx := rn_returnn_ctx (nodes s1 n)\<rparr>"
    using f by (simp add: context_creation_only_def)
  have "nodes s1 self = (nodes s self)\<lparr>rn_returnn_ctx := rn_returnn_ctx (nodes s1 self)\<rparr>"
    using n by blast
  then have "(nodes s1 self)\<lparr>rn_returnn_ctx := c\<rparr> = (nodes s self)\<lparr>rn_returnn_ctx := c\<rparr>"
    by (metis RegisteredName.update_convs(8) RegisteredName.surjective)
  then show ?thesis
    using f none unfolding context_creation_only_def by auto
qed

lemma maybe_create_returnn_ctx_frame:
  "maybe_create_returnn_ctx self s = Some y \<Longrightarrow> context_creation_only s (snd y)"
proof (induction rule: maybe_create_returnn_ctx.raw_induct [rotated 1, consumes 1, case_names 1])
  case (1 rec self s y)
  show ?case
  proof (cases "\<not> is_subnetwork s self \<or> \<not> rn_wrap_to_returnn_enabled (nodes s self)
                 \<or> rn_returnn_ctx (nodes s self) \<noteq> None")
    case True
    with 1(2) show ?thesis
      by (auto simp: context_creation_only_refl split: if_splits)
  next
    case False
    then have noctx: "rn_returnn_ctx (nodes s self) = None" by simp
    define parent_step where "parent_step =
      (case rn_parent (nodes s self) of
         None \<Rightarrow> Some (Inr (), s)
       | Some p \<Rightarrow>
           Option.bind
             (if rn_returnn_ctx (nodes s p) = None then rec p s else Some (Inr (), s))
             (\<lambda>(r, s1). case r of
                 Inl e \<Rightarrow> Some (Inl e, s1)
               | Inr _ \<Rightarrow>
                   if rn_returnn_ctx (nodes s1 p) = None then Some (Inl AssertionError, s1)
                   else Some (Inr (), s1)))"
    from 1(2) False obtain r s1 where ps: "parent_step = Some (r, s1)"
      by (cases parent_step) (auto simp: parent_step_def)
    have f1: "context_creation_only s s1"
    proof (cases "rn_parent (nodes s self)")
      case None
      with ps show ?thesis by (simp add: parent_step_def context_creation_only_refl)
    next
      case (Some p)
      show ?thesis
      proof (cases "rn_returnn_ctx (nodes s p) = None")
        case True
        with ps Some obtain y' where y': "rec p s = Some y'" and "s1 = snd y'"
          by (auto simp: parent_step_def split: bind_splits prod.splits sum.splits if_splits)
        with 1(1) [OF y'] show ?thesis by simp
      next
        case False
        with ps Some show ?thesis
          by (auto simp: parent_step_def context_creation_only_refl split: if_splits)
      qed
    qed
    show ?thesis
    proof (cases r)
      case (Inl e)
      with 1(2) False ps f1 show ?thesis
        by (auto simp: parent_step_def [symmetric])
    next
      case (Inr u)
      obtain c s2 where init: "ReturnnContext_init
                       (case rn_parent (nodes s1 self) of
                          None \<Rightarrow> None
                        | Some p \<Rightarrow> rn_returnn_ctx (nodes s1 p))
                       (rn_name (nodes s1 self)) s1 = (c, s2)"
        by (cases "ReturnnContext_init
                       (case rn_parent (nodes s1 self) of
                          None \<Rightarrow> None
                        | Some p \<Rightarrow> rn_returnn_ctx (nodes s1 p))
                       (rn_name (nodes s1 self)) s1") blast
      have y: "y = (Inr (), s2\<lparr>nodes := (nodes s2)(self := (nodes s2 self)\<lparr>rn_returnn_ctx := Some c\<rparr>)\<rparr>)"
        using 1(2) False ps Inr init by (auto simp: parent_step_def [symmetric])
      have f2: "context_creation_only s1 (s2\<lparr>nodes := (nodes s2)(self := (nodes s2 self)\<lparr>rn_returnn_ctx := rn_returnn_ctx (nodes s1 self)\<rparr>)\<rparr>)"
        using ReturnnContext_init_unchanged [OF init] ReturnnContext_init_arenas [OF init]
        by (simp add: context_creation_only_def)
      have "context_creation_only s (s2\<lparr>nodes := (nodes s2)(self := (nodes s2 self)\<lparr>rn_returnn_ctx := rn_returnn_ctx (nodes s1 self)\<rparr>)\<rparr>)"
        using f1 f2 by (rule context_creation_only_trans)
      from context_creation_only_set_ctx [OF this noctx, of "Some c"]
      show ?thesis using y by simp
    qed
  qed
qed


subsection \<open>Fields that context creation leaves alone\<close>

lemma context_creation_only_node:
  assumes "context_creation_only s s'"
  shows "rn_childs_by_name (nodes s' n) = rn_childs_by_name (nodes s n)"
    and "rn_parent (nodes s' n) = rn_parent (nodes s n)"
    and "rn_name (nodes s' n) = rn_name (nodes s n)"
    and "rn_level (nodes s' n) = rn_level (nodes s n)"
    and "rn_modules (nodes s' n) = rn_modules (nodes s n)"
    and "rn_calls (nodes s' n) = rn_calls (nodes s n)"
    and "rn_tensor (nodes s' n) = rn_tensor (nodes s n)"
    and "rn_is_reserved (nodes s' n) = rn_is_reserved (nodes s n)"
    and "rn_is_subnet (nodes s' n) = rn_is_subnet (nodes s n)"
    and "rn_wrap_to_returnn_enabled (nodes s' n) = rn_wrap_to_returnn_enabled (nodes s n)"
    and "rn_inputs (nodes s' n) = rn_inputs (nodes s n)"
proof -
  have eq: "nodes s' n = (nodes s n)\<lparr>rn_returnn_ctx := rn_returnn_ctx (nodes s' n)\<rparr>"
    using assms by (simp add: context_creation_only_def)
  show "rn_childs_by_name (nodes s' n) = rn_childs_by_name (nodes s n)" by (subst eq) simp
  show "rn_parent (nodes s' n) = rn_parent (nodes s n)" by (subst eq) simp
  show "rn_name (nodes s' n) = rn_name (nodes s n)" by (subst eq) simp
  show "rn_level (nodes s' n) = rn_level (nodes s n)" by (subst eq) simp
  show "rn_modules (nodes s' n) = rn_modules (nodes s n)" by (subst eq) simp
  show "rn_calls (nodes s' n) = rn_calls (nodes s n)" by (subst eq) simp
  show "rn_tensor (nodes s' n) = rn_tensor (nodes s n)" by (subst eq) simp
  show "rn_is_reserved (nodes s' n) = rn_is_reserved (nodes s n)" by (subst eq) simp
  show "rn_is_subnet (nodes s' n) = rn_is_subnet (nodes s n)" by (subst eq) simp
  show "rn_wrap_to_returnn_enabled (nodes s' n) = rn_wrap_to_returnn_enabled (nodes s n)"
    by (subst eq) simp
  show "rn_inputs (nodes s' n) = rn_inputs (nodes s n)" by (subst eq) simp
qed

lemma context_creation_only_session:
  assumes "context_creation_only s s'"
  shows "next_node s' = next_node s"
    and "call_entries s' = call_entries s" and "next_call s' = next_call s"
    and "module_entries s' = module_entries s" and "next_module s' = next_module s"
    and "tensor_entries s' = tensor_entries s" and "next_tensor s' = next_tensor s"
    and "wrap_to_returnn_enabled s' = wrap_to_returnn_enabled s"
    and "keep_orig_module_io_tensors s' = keep_orig_module_io_tensors s"
    and "import_params_from_torch_namespace s' = import_params_from_torch_namespace s"
    and "module_call_stack s' = module_call_stack s"
    and "tensors s' = tensors s"
  using assms by (simp_all add: context_creation_only_def)

subsection \<open>Assigning modules and calls\<close>

lemma assign_module_Some:
  assumes "assign_module self m s = Some (r, s')"
  shows "s' = s \<or> context_creation_only (append_module self m s) s'"
proof -
  have "maybe_create_returnn_ctx self (append_module self m s) = Some (r, s')
        \<or> s' = s \<or> s' = append_module self m s"
    using assms by (auto simp: assign_module_def Let_def split: if_splits)
  then show ?thesis
    using maybe_create_returnn_ctx_frame [of self "append_module self m s" "(r, s')"]
    by (auto simp: context_creation_only_refl)
qed

lemma assign_module_returns:
  assumes "assign_module self m s = Some (Inr (), s')"
  shows "(m \<in> set (rn_modules (nodes s self)) \<and> s' = s)
       \<or> (m \<notin> set (rn_modules (nodes s self))
          \<and> (rn_is_subnet (nodes s self) \<longleftrightarrow> has_torch_forward (me_module (module_entries s m)))
          \<and> (\<not> rn_is_subnet (nodes s self) \<longrightarrow> rn_modules (nodes s self) = [])
          \<and> context_creation_only (append_module self m s) s')"
proof (cases "m \<in> set (rn_modules (nodes s self))")
  case True
  with assms show ?thesis by (simp add: assign_module_def Let_def)
next
  case False
  have "maybe_create_returnn_ctx self (append_module self m s) = Some (Inr (), s')
        \<or> s' = append_module self m s"
    using assms False by (auto simp: assign_module_def Let_def split: if_splits)
  then have "context_creation_only (append_module self m s) s'"
    using maybe_create_returnn_ctx_frame [of self "append_module self m s" "(Inr (), s')"]
    by (auto simp: context_creation_only_refl)
  moreover have "rn_is_subnet (nodes s self) \<longleftrightarrow> has_torch_forward (me_module (module_entries s m))"
    using assms False by (auto simp: assign_module_def Let_def split: if_splits)
  moreover have "\<not> rn_is_subnet (nodes s self) \<longrightarrow> rn_modules (nodes s self) = []"
    using assms False by (auto simp: assign_module_def Let_def split: if_splits)
  ultimately show ?thesis using False by simp
qed

subsection \<open>New nodes and input slots\<close>

lemma RegisteredName_init_child:
  "RegisteredName_init None (Some p) (Some nm) None None is_res is_sub s =
     (if nm = [] \<or> (\<not> is_res \<and> nm \<in> ReservedNames) then Some (Inl AssertionError, s)
      else Some (Inr (next_node s),
                 set_level (next_node s) p
                   (new_node (Some p) (Some nm) (rn_wrap_to_returnn_enabled (nodes s p)) is_res is_sub s)))"
  by (simp add: RegisteredName_init_def Let_def new_node_def set_level_def raise_def return_def)

lemma assign_tensor_fresh:
  "rn_tensor (nodes s self) = None \<Longrightarrow>
   assign_tensor self t s =
     (Inr (), s\<lparr>nodes := (nodes s)(self := (nodes s self)\<lparr>rn_tensor := Some t\<rparr>),
               tensor_entries := (tensor_entries s)(t :=
                 (tensor_entries s t)\<lparr>te_names := te_names (tensor_entries s t) @ [Some self]\<rparr>)\<rparr>)"
  by (simp add: assign_tensor_def)

lemma RegisteredName_init_child_tensor:
  "RegisteredName_init None (Some p) (Some nm) None (Some t) is_res is_sub s =
     (if nm = [] \<or> (\<not> is_res \<and> nm \<in> ReservedNames) then Some (Inl AssertionError, s)
      else Some (Inr (next_node s),
                 bind_tensor (next_node s) t
                   (set_level (next_node s) p
                     (new_node (Some p) (Some nm) (rn_wrap_to_returnn_enabled (nodes s p)) is_res is_sub s))))"
  by (simp add: RegisteredName_init_def Let_def new_node_def set_level_def raise_def return_def
      assign_tensor_def and_then_def bind_tensor_def)

lemma ReservedInputName_slot_nonempty:
  "(if idx \<noteq> 0 then ReservedInputName @ '':'' @ str_nat idx else ReservedInputName) \<noteq> []"
  by (simp add: ReservedInputName_def)

lemma input_slot_name_nonempty: "input_slot_name idx \<noteq> []"
  by (simp add: input_slot_name_def ReservedInputName_def)

lemma new_input_slot_self:
  "self \<noteq> next_node s \<Longrightarrow>
     rn_wrap_to_returnn_enabled (nodes (new_input_slot self t s) self) = rn_wrap_to_returnn_enabled (nodes s self)
   \<and> rn_returnn_ctx (nodes (new_input_slot self t s) self) = rn_returnn_ctx (nodes s self)"
  by (simp add: new_input_slot_def append_input_def set_child_def bind_tensor_def set_level_def new_node_def)

lemma register_input_unfold:
  assumes "self \<noteq> next_node s"
  shows "register_input self t s =
     (if \<not> is_subnetwork s self then Some (Inl AssertionError, s)
      else if input_slot_name (length (rn_inputs (nodes s self))) \<in> set (dict_keys (rn_childs_by_name (nodes s self)))
      then Some (Inl AssertionError, s)
      else if rn_wrap_to_returnn_enabled (nodes s self)
      then (case rn_returnn_ctx (nodes s self) of
              None \<Rightarrow> Some (Inl AttributeError, new_input_slot self t s)
            | Some c \<Rightarrow> Some (Inr (next_node s),
                define_input c t (input_slot_key (length (rn_inputs (nodes s self)))) (new_input_slot self t s)))
      else Some (Inr (next_node s), new_input_slot self t s))"
proof -
  have mem: "TensorObject t \<notin> set (map NameObject (rn_inputs (nodes s self)))"
    by auto
  have ne: "(if length (rn_inputs (nodes s self)) \<noteq> 0
             then ReservedInputName @ '':'' @ str_nat (length (rn_inputs (nodes s self)))
             else ReservedInputName) \<noteq> []"
    by (simp add: ReservedInputName_def)
  show ?thesis
    using mem ne assms
    by (simp add: register_input_def Let_def RegisteredName_init_child_tensor
        new_input_slot_def input_slot_name_def input_slot_key_def append_input_def set_child_def
        bind_tensor_def set_level_def new_node_def raise_def return_def
        split: option.splits)
qed

lemma two_inputs:
  "(case register_input 0 0 wrap_root_session of
      Some (Inr a, s1) \<Rightarrow>
        (case register_input 0 1 s1 of
           Some (Inr b, s2) \<Rightarrow>
             map (\<lambda>n. rn_name (nodes s2 n)) (rn_inputs (nodes s2 0)) = [Some ''data'', Some ''data:1'']
             \<and> rc_inputs (contexts s2 0) = [(0, None), (1, Some ''1'')]
         | _ \<Rightarrow> False)
    | _ \<Rightarrow> False)"
  by (simp add: register_input_unfold is_subnetwork_def wrap_root_session_def root_session_def
      blank_session_def blank_node_def blank_tensor_def new_input_slot_def input_slot_name_def
      input_slot_key_def append_input_def set_child_def bind_tensor_def set_level_def new_node_def
      define_input_def dict_set_def dict_keys_def ReservedInputName_def str_nat_1)

text \<open>
  C10 fails on the code: line 182 looks the tensor entry up in \<open>_inputs\<close>, a list of
  namespace nodes, so the assertion never fires; registering the same traced value twice
  yields the two slots \<open>data\<close> and \<open>data:1\<close>, both bound to it.
\<close>

theorem register_input_same_tensor_twice:
  "(case register_input 0 0 root_session of
      Some (Inr a, s1) \<Rightarrow>
        (case register_input 0 0 s1 of
           Some (Inr b, s2) \<Rightarrow>
             map (\<lambda>n. (rn_name (nodes s2 n), rn_tensor (nodes s2 n))) (rn_inputs (nodes s2 0))
               = [(Some ''data'', Some 0), (Some ''data:1'', Some 0)]
         | _ \<Rightarrow> False)
    | _ \<Rightarrow> False)"
  by (simp add: register_input_unfold is_subnetwork_def root_session_def
      blank_session_def blank_node_def blank_tensor_def new_input_slot_def input_slot_name_def
      input_slot_key_def append_input_def set_child_def bind_tensor_def set_level_def new_node_def
      define_input_def dict_set_def dict_keys_def ReservedInputName_def str_nat_1)


lemma new_input_slot_fields:
  assumes "self \<noteq> next_node s"
    and "input_slot_name (length (rn_inputs (nodes s self))) \<notin> set (dict_keys (rn_childs_by_name (nodes s self)))"
  shows "rn_name (nodes (new_input_slot self t s) (next_node s))
           = Some (input_slot_name (length (rn_inputs (nodes s self))))"
    and "rn_is_reserved (nodes (new_input_slot self t s) (next_node s))"
    and "\<not> rn_is_subnet (nodes (new_input_slot self t s) (next_node s))"
    and "rn_parent (nodes (new_input_slot self t s) (next_node s)) = Some self"
    and "rn_tensor (nodes (new_input_slot self t s) (next_node s)) = Some t"
    and "rn_calls (nodes (new_input_slot self t s) (next_node s)) = []"
    and "rn_inputs (nodes (new_input_slot self t s) self) = rn_inputs (nodes s self) @ [next_node s]"
    and "rn_childs_by_name (nodes (new_input_slot self t s) self)
           = rn_childs_by_name (nodes s self)
             @ [(input_slot_name (length (rn_inputs (nodes s self))), next_node s)]"
    and "contexts (new_input_slot self t s) = contexts s"
    and "next_node (new_input_slot self t s) = Suc (next_node s)"
  using assms
  by (simp_all add: new_input_slot_def append_input_def set_child_def bind_tensor_def
      set_level_def new_node_def dict_set_fresh)

text \<open>
  C7, as amended.  Every \<open>register_input\<close> on an allocated scope that returns normally
  creates a reserved child for the next slot index: it is named \<open>data\<close> for index 0 and
  \<open>data:index\<close> for every index from 1 on, is bound to the traced value, and is appended to
  the scope's children and to its input slots, so that successive calls fill the slots in
  registration order.  When graph materialization is enabled for the scope, its
  construction context is informed of the new slot, with the index omitted when it is
  zero; when it is disabled no context is informed.
\<close>

theorem register_input_slot:
  assumes "self < next_node s"
    and "register_input self t s = Some (Inr child, s')"
  shows "rn_name (nodes s' child)
           = Some (if length (rn_inputs (nodes s self)) = 0 then ''data''
                   else ''data:'' @ str_nat (length (rn_inputs (nodes s self))))
       \<and> rn_is_reserved (nodes s' child) \<and> rn_parent (nodes s' child) = Some self
       \<and> rn_tensor (nodes s' child) = Some t \<and> rn_calls (nodes s' child) = []
       \<and> rn_inputs (nodes s' self) = rn_inputs (nodes s self) @ [child]
       \<and> rn_childs_by_name (nodes s' self)
           = rn_childs_by_name (nodes s self)
             @ [(if length (rn_inputs (nodes s self)) = 0 then ''data''
                 else ''data:'' @ str_nat (length (rn_inputs (nodes s self))), child)]
       \<and> (if rn_wrap_to_returnn_enabled (nodes s self)
          then \<exists>c. rn_returnn_ctx (nodes s self) = Some c
                 \<and> rc_inputs (contexts s' c)
                    = rc_inputs (contexts s c)
                      @ [(t, if length (rn_inputs (nodes s self)) = 0 then None
                             else Some (str_nat (length (rn_inputs (nodes s self)))))]
          else contexts s' = contexts s)"
proof -
  let ?idx = "length (rn_inputs (nodes s self))"
  have ne: "self \<noteq> next_node s" using assms(1) by simp
  note u = assms(2) [unfolded register_input_unfold [OF ne]]
  have fresh: "input_slot_name ?idx \<notin> set (dict_keys (rn_childs_by_name (nodes s self)))"
    using u by (auto split: if_splits)
  have child: "child = next_node s"
    using u by (auto split: if_splits option.splits)
  note f = new_input_slot_fields [OF ne fresh, of t]
  have nm: "input_slot_name ?idx = (if ?idx = 0 then ''data'' else ''data:'' @ str_nat ?idx)"
    by (simp add: input_slot_name_def ReservedInputName_def)
  show ?thesis
  proof (cases "rn_wrap_to_returnn_enabled (nodes s self)")
    case False
    with u have s': "s' = new_input_slot self t s"
      by (auto split: if_splits)
    show ?thesis
      using False f nm unfolding s' child by simp
  next
    case True
    with u obtain c where c: "rn_returnn_ctx (nodes s self) = Some c"
      and s': "s' = define_input c t (input_slot_key ?idx) (new_input_slot self t s)"
      by (auto split: if_splits option.splits)
    have n: "nodes s' = nodes (new_input_slot self t s)"
      by (simp add: s' define_input_def)
    have ci: "rc_inputs (contexts s' c) = rc_inputs (contexts s c) @ [(t, input_slot_key ?idx)]"
      by (simp add: s' define_input_def f(9))
    show ?thesis
      using True f nm c ci unfolding n child by (simp add: input_slot_key_def)
  qed
qed

theorem register_input_slot_witness:
  "(0::nat) < next_node wrap_root_session
   \<and> (case register_input 0 0 wrap_root_session of
        Some (Inr a, s1) \<Rightarrow>
          rn_name (nodes s1 a) = Some ''data''
          \<and> (case register_input 0 1 s1 of
               Some (Inr b, s2) \<Rightarrow>
                 map (\<lambda>n. rn_name (nodes s2 n)) (rn_inputs (nodes s2 0)) = [Some ''data'', Some ''data:1'']
                 \<and> rc_inputs (contexts s2 0) = [(0, None), (1, Some ''1'')]
             | _ \<Rightarrow> False)
      | _ \<Rightarrow> False)"
proof -
  have a: "(0::nat) < next_node wrap_root_session"
    by (simp add: wrap_root_session_def root_session_def)
  obtain r s1 where r: "register_input 0 0 wrap_root_session = Some (r, s1)"
    using two_inputs by (auto split: option.splits)
  then obtain c where c: "r = Inr c"
    using two_inputs by (auto split: sum.splits)
  have "rn_inputs (nodes wrap_root_session 0) = []"
    by (simp add: wrap_root_session_def root_session_def blank_node_def)
  with register_input_slot [OF a r [unfolded c]]
  have "rn_name (nodes s1 c) = Some ''data''" by simp
  with a r c two_inputs show ?thesis by (auto split: option.splits sum.splits)
qed

text \<open>
  C7 as stated fails for a scope without graph materialization: the slot is created, but
  the scope has no construction context and none is informed (namespace.py, line 190).
\<close>

theorem register_input_not_informed_counterexample:
  "\<not> rn_wrap_to_returnn_enabled (nodes root_session 0)
   \<and> rn_returnn_ctx (nodes root_session 0) = None
   \<and> (case register_input 0 0 root_session of
        Some (Inr a, s1) \<Rightarrow> rn_name (nodes s1 a) = Some ''data'' \<and> contexts s1 = contexts root_session
                              \<and> next_ctx s1 = 0
      | _ \<Rightarrow> False)"
  by (simp add: register_input_unfold is_subnetwork_def root_session_def
      blank_session_def blank_node_def blank_tensor_def new_input_slot_def input_slot_name_def
      input_slot_key_def append_input_def set_child_def bind_tensor_def set_level_def new_node_def
      define_input_def dict_set_def dict_keys_def ReservedInputName_def)

subsection \<open>Bindings\<close>

lemma append_module_fields:
  "rn_childs_by_name (nodes (append_module self m s) n) = rn_childs_by_name (nodes s n)"
  "rn_parent (nodes (append_module self m s) n) = rn_parent (nodes s n)"
  "rn_name (nodes (append_module self m s) n) = rn_name (nodes s n)"
  "rn_level (nodes (append_module self m s) n) = rn_level (nodes s n)"
  "rn_calls (nodes (append_module self m s) n) = rn_calls (nodes s n)"
  "rn_tensor (nodes (append_module self m s) n) = rn_tensor (nodes s n)"
  "rn_returnn_ctx (nodes (append_module self m s) n) = rn_returnn_ctx (nodes s n)"
  "rn_is_reserved (nodes (append_module self m s) n) = rn_is_reserved (nodes s n)"
  "rn_is_subnet (nodes (append_module self m s) n) = rn_is_subnet (nodes s n)"
  "rn_wrap_to_returnn_enabled (nodes (append_module self m s) n) = rn_wrap_to_returnn_enabled (nodes s n)"
  "rn_inputs (nodes (append_module self m s) n) = rn_inputs (nodes s n)"
  "rn_modules (nodes (append_module self m s) n)
     = (if n = self then rn_modules (nodes s n) @ [m] else rn_modules (nodes s n))"
  "next_node (append_module self m s) = next_node s"
  "call_entries (append_module self m s) = call_entries s"
  "next_call (append_module self m s) = next_call s"
  "next_module (append_module self m s) = next_module s"
  "me_module (module_entries (append_module self m s) k) = me_module (module_entries s k)"
  "me_calls (module_entries (append_module self m s) k) = me_calls (module_entries s k)"
  "tensor_entries (append_module self m s) = tensor_entries s"
  "next_tensor (append_module self m s) = next_tensor s"
  "contexts (append_module self m s) = contexts s"
  "networks (append_module self m s) = networks s"
  "layers (append_module self m s) = layers s"
  "next_ctx (append_module self m s) = next_ctx s"
  "next_net (append_module self m s) = next_net s"
  "next_layer (append_module self m s) = next_layer s"
  "wrap_to_returnn_enabled (append_module self m s) = wrap_to_returnn_enabled s"
  "keep_orig_module_io_tensors (append_module self m s) = keep_orig_module_io_tensors s"
  "import_params_from_torch_namespace (append_module self m s) = import_params_from_torch_namespace s"
  "module_call_stack (append_module self m s) = module_call_stack s"
  "tensors (append_module self m s) = tensors s"
  by (simp_all add: append_module_def)

lemma append_call_fields:
  "rn_childs_by_name (nodes (append_call self c s) n) = rn_childs_by_name (nodes s n)"
  "rn_parent (nodes (append_call self c s) n) = rn_parent (nodes s n)"
  "rn_name (nodes (append_call self c s) n) = rn_name (nodes s n)"
  "rn_level (nodes (append_call self c s) n) = rn_level (nodes s n)"
  "rn_modules (nodes (append_call self c s) n) = rn_modules (nodes s n)"
  "rn_tensor (nodes (append_call self c s) n) = rn_tensor (nodes s n)"
  "rn_returnn_ctx (nodes (append_call self c s) n) = rn_returnn_ctx (nodes s n)"
  "rn_is_reserved (nodes (append_call self c s) n) = rn_is_reserved (nodes s n)"
  "rn_is_subnet (nodes (append_call self c s) n) = rn_is_subnet (nodes s n)"
  "rn_wrap_to_returnn_enabled (nodes (append_call self c s) n) = rn_wrap_to_returnn_enabled (nodes s n)"
  "rn_inputs (nodes (append_call self c s) n) = rn_inputs (nodes s n)"
  "rn_calls (nodes (append_call self c s) n)
     = (if n = self then rn_calls (nodes s n) @ [c] else rn_calls (nodes s n))"
  "next_node (append_call self c s) = next_node s"
  "ce_namespace (call_entries (append_call self c s) k)
     = (if k = c then Some self else ce_namespace (call_entries s k))"
  "ce_module (call_entries (append_call self c s) k) = ce_module (call_entries s k)"
  "ce_outputs (call_entries (append_call self c s) k) = ce_outputs (call_entries s k)"
  "ce_inputs_flat (call_entries (append_call self c s) k) = ce_inputs_flat (call_entries s k)"
  "ce_inputs_args (call_entries (append_call self c s) k) = ce_inputs_args (call_entries s k)"
  "ce_inputs_kwargs (call_entries (append_call self c s) k) = ce_inputs_kwargs (call_entries s k)"
  "ce_returnn_layer (call_entries (append_call self c s) k) = ce_returnn_layer (call_entries s k)"
  "ce_returnn_layer_dict (call_entries (append_call self c s) k) = ce_returnn_layer_dict (call_entries s k)"
  "next_call (append_call self c s) = next_call s"
  "module_entries (append_call self c s) = module_entries s"
  "next_module (append_call self c s) = next_module s"
  "tensor_entries (append_call self c s) = tensor_entries s"
  "next_tensor (append_call self c s) = next_tensor s"
  "contexts (append_call self c s) = contexts s"
  "networks (append_call self c s) = networks s"
  "layers (append_call self c s) = layers s"
  "next_ctx (append_call self c s) = next_ctx s"
  "next_net (append_call self c s) = next_net s"
  "next_layer (append_call self c s) = next_layer s"
  "wrap_to_returnn_enabled (append_call self c s) = wrap_to_returnn_enabled s"
  "keep_orig_module_io_tensors (append_call self c s) = keep_orig_module_io_tensors s"
  "import_params_from_torch_namespace (append_call self c s) = import_params_from_torch_namespace s"
  "module_call_stack (append_call self c s) = module_call_stack s"
  "tensors (append_call self c s) = tensors s"
  by (simp_all add: append_call_def)

lemma binding_only_refl: "binding_only s s"
  by (simp add: binding_only_def)

lemma binding_only_trans: "binding_only s s1 \<Longrightarrow> binding_only s1 s2 \<Longrightarrow> binding_only s s2"
  by (simp add: binding_only_def)

lemma context_creation_only_binding: "context_creation_only s s' \<Longrightarrow> binding_only s s'"
  unfolding binding_only_def
  using context_creation_only_node [of s s'] context_creation_only_session [of s s']
  by simp

lemma append_module_binding: "binding_only s (append_module self m s)"
  by (simp add: binding_only_def append_module_fields)

lemma append_call_binding: "binding_only s (append_call self c s)"
  by (simp add: binding_only_def append_call_fields)

lemma assign_module_binding:
  assumes "assign_module self m s = Some (r, s')"
  shows "binding_only s s'"
  using assign_module_Some [OF assms]
  by (auto intro: binding_only_refl binding_only_trans [OF append_module_binding]
      context_creation_only_binding)

lemma assign_call_binding:
  assumes "assign_call self c s = Some (r, s')"
  shows "binding_only s s'"
proof (cases "c \<in> set (rn_calls (nodes s self))")
  case True
  with assms show ?thesis by (simp add: assign_call_def binding_only_refl)
next
  case False
  with assms have a: "and_then (assign_module self (ce_module (call_entries s c)) s) (\<lambda>_ s1.
          let fwd = has_torch_forward (me_module (module_entries s1 (ce_module (call_entries s1 c)))) in
          if rn_is_subnet (nodes s1 self) \<and> \<not> fwd then raise AssertionError s1
          else if \<not> rn_is_subnet (nodes s1 self) \<and> rn_calls (nodes s1 self) \<noteq> [] then raise AssertionError s1
          else if \<not> rn_is_subnet (nodes s1 self) \<and> fwd then raise AssertionError s1
          else if ce_namespace (call_entries s1 c) \<noteq> None then raise AssertionError s1
          else return () (append_call self c s1)) = Some (r, s')"
    by (simp add: assign_call_def)
  from a show ?thesis
  proof (cases rule: and_then_Some)
    case (raised e s1)
    then show ?thesis using assign_module_binding by auto
  next
    case (returned v s1)
    from returned(1) have b1: "binding_only s s1" by (rule assign_module_binding)
    from returned(2) have "s' = s1 \<or> s' = append_call self c s1"
      by (auto simp: Let_def split: if_splits)
    then show ?thesis
      using b1 binding_only_trans [OF b1 append_call_binding] by auto
  qed
qed

lemma assign_call_returns:
  assumes "assign_call self c s = Some (Inr (), s')"
    and "c \<notin> set (rn_calls (nodes s self))"
  shows "\<exists>s1. binding_only s s1 \<and> s' = append_call self c s1
            \<and> rn_calls (nodes s1 self) = rn_calls (nodes s self)
            \<and> (\<forall>k. ce_namespace (call_entries s1 k) = ce_namespace (call_entries s k))
            \<and> ce_namespace (call_entries s c) = None
            \<and> (rn_is_subnet (nodes s self)
                 \<longleftrightarrow> has_torch_forward (me_module (module_entries s (ce_module (call_entries s c)))))
            \<and> (\<not> rn_is_subnet (nodes s self) \<longrightarrow> rn_calls (nodes s self) = [])"
proof -
  from assms have a: "and_then (assign_module self (ce_module (call_entries s c)) s) (\<lambda>_ s1.
          let fwd = has_torch_forward (me_module (module_entries s1 (ce_module (call_entries s1 c)))) in
          if rn_is_subnet (nodes s1 self) \<and> \<not> fwd then raise AssertionError s1
          else if \<not> rn_is_subnet (nodes s1 self) \<and> rn_calls (nodes s1 self) \<noteq> [] then raise AssertionError s1
          else if \<not> rn_is_subnet (nodes s1 self) \<and> fwd then raise AssertionError s1
          else if ce_namespace (call_entries s1 c) \<noteq> None then raise AssertionError s1
          else return () (append_call self c s1)) = Some (Inr (), s')"
    by (simp add: assign_call_def)
  from a show ?thesis
  proof (cases rule: and_then_Some)
    case (raised e s1)
    then show ?thesis by simp
  next
    case (returned v s1)
    from returned(1) have b1: "binding_only s s1" by (rule assign_module_binding)
    have calls: "rn_calls (nodes s1 self) = rn_calls (nodes s self)"
      and ns: "\<forall>k. ce_namespace (call_entries s1 k) = ce_namespace (call_entries s k)"
    proof -
      from assign_module_Some [OF returned(1)]
      have "s1 = s \<or> context_creation_only (append_module self (ce_module (call_entries s c)) s) s1" .
      then show "rn_calls (nodes s1 self) = rn_calls (nodes s self)"
        using context_creation_only_node(6) [of "append_module self (ce_module (call_entries s c)) s" s1 self]
        by (auto simp: append_module_fields)
      from \<open>s1 = s \<or> context_creation_only (append_module self (ce_module (call_entries s c)) s) s1\<close>
      show "\<forall>k. ce_namespace (call_entries s1 k) = ce_namespace (call_entries s k)"
        using context_creation_only_session(2) [of "append_module self (ce_module (call_entries s c)) s" s1]
        by (auto simp: append_module_fields)
    qed
    have eqs: "rn_is_subnet (nodes s1 self) = rn_is_subnet (nodes s self)"
      "ce_module (call_entries s1 c) = ce_module (call_entries s c)"
      "\<And>k. me_module (module_entries s1 k) = me_module (module_entries s k)"
      using b1 by (simp_all add: binding_only_def)
    from returned(2) have
      "s' = append_call self c s1"
      "ce_namespace (call_entries s1 c) = None"
      "rn_is_subnet (nodes s1 self)
         \<longleftrightarrow> has_torch_forward (me_module (module_entries s1 (ce_module (call_entries s1 c))))"
      "\<not> rn_is_subnet (nodes s1 self) \<longrightarrow> rn_calls (nodes s1 self) = []"
      by (auto simp: Let_def split: if_splits)
    then show ?thesis
      using b1 calls ns eqs by (intro exI [of _ s1]) simp
  qed
qed

subsection \<open>Registering invocations\<close>

lemma new_child_fields:
  assumes "self \<noteq> next_node s"
  shows "rn_childs_by_name (nodes (set_child self nm (next_node s)
            (set_level (next_node s) p (new_node par name w r sub s))) n)
         = (if n = self then dict_set (rn_childs_by_name (nodes s self)) nm (next_node s)
            else if n = next_node s then [] else rn_childs_by_name (nodes s n))"
    and "rn_calls (nodes (set_child self nm (next_node s)
            (set_level (next_node s) p (new_node par name w r sub s))) (next_node s)) = []"
    and "rn_name (nodes (set_child self nm (next_node s)
            (set_level (next_node s) p (new_node par name w r sub s))) (next_node s)) = name"
    and "rn_parent (nodes (set_child self nm (next_node s)
            (set_level (next_node s) p (new_node par name w r sub s))) (next_node s)) = par"
    and "rn_is_subnet (nodes (set_child self nm (next_node s)
            (set_level (next_node s) p (new_node par name w r sub s))) (next_node s)) = sub"
    and "next_node (set_child self nm (next_node s)
            (set_level (next_node s) p (new_node par name w r sub s))) = Suc (next_node s)"
    and "call_entries (set_child self nm (next_node s)
            (set_level (next_node s) p (new_node par name w r sub s))) = call_entries s"
    and "module_entries (set_child self nm (next_node s)
            (set_level (next_node s) p (new_node par name w r sub s))) = module_entries s"
  using assms by (simp_all add: set_child_def set_level_def new_node_def)

lemma register_sub_call_unfold:
  "register_sub_call h self call s =
     (if \<not> is_subnetwork s self then Some (Inl AssertionError, s)
      else if get_unique_name s self (get_canonical_name h s (ce_module (call_entries s call)) self) = []
      then Some (Inl AssertionError, s)
      else and_then
             (assign_call (next_node s) call
                (set_child self (get_unique_name s self (get_canonical_name h s (ce_module (call_entries s call)) self))
                   (next_node s)
                   (set_level (next_node s) self
                      (new_node (Some self)
                         (Some (get_unique_name s self (get_canonical_name h s (ce_module (call_entries s call)) self)))
                         (rn_wrap_to_returnn_enabled (nodes s self)) False
                         (has_torch_forward (me_module (module_entries s (ce_module (call_entries s call))))) s))))
             (\<lambda>_. return (next_node s)))"
proof -
  have "get_unique_name s self (get_canonical_name h s (ce_module (call_entries s call)) self) \<notin> ReservedNames"
    using get_unique_name_not_taken [of s self] by (simp add: taken_names_def)
  then show ?thesis
    by (simp add: register_sub_call_def Let_def RegisteredName_init_child raise_def return_def)
qed

lemma register_sub_call_returns:
  assumes "self < next_node s"
    and "register_sub_call h self call s = Some (Inr child, s')"
  shows "child = next_node s \<and> next_node s' = Suc (next_node s)
       \<and> get_unique_name s self (get_canonical_name h s (ce_module (call_entries s call)) self)
            \<notin> set (dict_keys (rn_childs_by_name (nodes s self)))
       \<and> rn_childs_by_name (nodes s' self)
           = rn_childs_by_name (nodes s self)
             @ [(get_unique_name s self (get_canonical_name h s (ce_module (call_entries s call)) self), child)]
       \<and> rn_name (nodes s' child)
           = Some (get_unique_name s self (get_canonical_name h s (ce_module (call_entries s call)) self))
       \<and> rn_parent (nodes s' child) = Some self
       \<and> rn_calls (nodes s' child) = [call]
       \<and> ce_namespace (call_entries s' call) = Some child
       \<and> (\<forall>n. n \<noteq> self \<and> n \<noteq> child \<longrightarrow> rn_childs_by_name (nodes s' n) = rn_childs_by_name (nodes s n))"
proof -
  let ?name = "get_unique_name s self (get_canonical_name h s (ce_module (call_entries s call)) self)"
  let ?s2 = "set_child self ?name (next_node s)
                   (set_level (next_node s) self
                      (new_node (Some self) (Some ?name)
                         (rn_wrap_to_returnn_enabled (nodes s self)) False
                         (has_torch_forward (me_module (module_entries s (ce_module (call_entries s call))))) s))"
  have ne: "self \<noteq> next_node s" using assms(1) by simp
  note f = new_child_fields [OF ne, of ?name self "Some self" "Some ?name"
      "rn_wrap_to_returnn_enabled (nodes s self)" False
      "has_torch_forward (me_module (module_entries s (ce_module (call_entries s call))))"]
  have fresh: "?name \<notin> set (dict_keys (rn_childs_by_name (nodes s self)))"
    using get_unique_name_not_taken [of s self] by (simp add: taken_names_def)
  from assms(2) have a: "and_then (assign_call (next_node s) call ?s2)
             (\<lambda>_. return (next_node s)) = Some (Inr child, s')"
    by (simp add: register_sub_call_unfold split: if_splits)
  from a have ac: "assign_call (next_node s) call ?s2 = Some (Inr (), s')" and child: "child = next_node s"
    by (auto elim!: and_then_Some)
  have "call \<notin> set (rn_calls (nodes ?s2 (next_node s)))"
    by (simp add: f(2))
  from assign_call_returns [OF ac this] obtain s1 where
    b: "binding_only ?s2 s1" and s': "s' = append_call (next_node s) call s1"
    and calls: "rn_calls (nodes s1 (next_node s)) = rn_calls (nodes ?s2 (next_node s))"
    by blast
  have ch: "\<And>n. rn_childs_by_name (nodes s' n) = rn_childs_by_name (nodes ?s2 n)"
    and nm: "rn_name (nodes s' (next_node s)) = rn_name (nodes ?s2 (next_node s))"
    and par: "rn_parent (nodes s' (next_node s)) = rn_parent (nodes ?s2 (next_node s))"
    and nn: "next_node s' = next_node ?s2"
    using b by (simp_all add: s' append_call_fields binding_only_def)
  have "rn_childs_by_name (nodes s' self) = rn_childs_by_name (nodes s self) @ [(?name, next_node s)]"
    using ne fresh by (simp add: ch f(1) dict_set_fresh)
  moreover have "rn_calls (nodes s' (next_node s)) = [call]"
    by (simp add: s' append_call_fields calls f(2))
  moreover have "ce_namespace (call_entries s' call) = Some (next_node s)"
    by (simp add: s' append_call_fields)
  moreover have "\<forall>n. n \<noteq> self \<and> n \<noteq> next_node s \<longrightarrow> rn_childs_by_name (nodes s' n) = rn_childs_by_name (nodes s n)"
    by (simp add: ch f(1))
  ultimately show ?thesis
    using child fresh by (simp add: nm par nn f)
qed

text \<open>
  C1, as amended.  \<open>register_sub_call\<close> has no merge case.  Every call on an allocated
  compound scope that returns normally creates exactly one new child: a fresh node, entered
  last in the scope's children under \<open>get_unique_name\<close> of the unit's canonical name (the
  name itself when it is free, a numbered one when it collides), with the scope as its
  parent and bound to exactly the given invocation.  This holds whether or not any
  existing node already has bound invocations.
\<close>

theorem register_sub_call_creates_child:
  assumes "self < next_node s"
    and "register_sub_call h self call s = Some (Inr child, s')"
  shows "child = next_node s \<and> next_node s' = Suc (next_node s)
       \<and> get_unique_name s self (get_canonical_name h s (ce_module (call_entries s call)) self)
            \<notin> set (dict_keys (rn_childs_by_name (nodes s self)))
       \<and> rn_childs_by_name (nodes s' self)
           = rn_childs_by_name (nodes s self)
             @ [(get_unique_name s self (get_canonical_name h s (ce_module (call_entries s call)) self), child)]
       \<and> rn_name (nodes s' child)
           = Some (get_unique_name s self (get_canonical_name h s (ce_module (call_entries s call)) self))
       \<and> rn_parent (nodes s' child) = Some self
       \<and> rn_calls (nodes s' child) = [call]
       \<and> ce_namespace (call_entries s' call) = Some child
       \<and> (\<forall>n. n \<noteq> self \<and> n \<noteq> child \<longrightarrow> rn_childs_by_name (nodes s' n) = rn_childs_by_name (nodes s n))"
  using assms by (rule register_sub_call_returns)

lemma second_call_session_facts:
  "(1::nat) < next_node second_call_session"
  "rn_calls (nodes second_call_session 1) = [0]"
  "map_of (rn_childs_by_name (nodes second_call_session 1)) ''relu'' = Some 4"
  "rn_calls (nodes second_call_session 4) = [1]"
  "get_canonical_name plain_hooks second_call_session (ce_module (call_entries second_call_session 2)) 1 = ''relu''"
  by (simp_all add: second_call_session_def dump_session_def blank_session_def blank_node_def plain_hooks_def)

lemma second_call_childs:
  "(case register_sub_call plain_hooks 1 2 second_call_session of
      Some (Inr child, s') \<Rightarrow>
        child = 5 \<and> rn_childs_by_name (nodes s' 1) = [(''data'', 2), (''relu'', 4), (''relu_1'', 5)]
        \<and> rn_calls (nodes s' 5) = [2]
    | _ \<Rightarrow> False)"
  by (simp add: register_sub_call_unfold is_subnetwork_def get_unique_name_def
      get_unique_name_loop.simps str_nat_1 str_nat_1' ReservedNames_def ReservedInputName_def ReservedOutputName_def
      assign_call_def assign_module_def Let_def
      second_call_session_def dump_session_def blank_session_def blank_node_def blank_call_def
      blank_module_def primitive_unit_def compound_unit_def plain_hooks_def
      set_child_def set_level_def new_node_def append_module_def append_call_def
      dict_set_def dict_keys_def raise_def return_def)

theorem register_sub_call_creates_child_witness:
  "(1::nat) < next_node second_call_session
   \<and> (case register_sub_call plain_hooks 1 2 second_call_session of
        Some (Inr child, s') \<Rightarrow>
          child = next_node second_call_session \<and> next_node s' = Suc (next_node second_call_session)
          \<and> rn_calls (nodes s' child) = [2] \<and> ce_namespace (call_entries s' 2) = Some child
          \<and> rn_childs_by_name (nodes s' 1) = [(''data'', 2), (''relu'', 4), (''relu_1'', 5)]
      | _ \<Rightarrow> False)"
proof -
  obtain child s' where r: "register_sub_call plain_hooks 1 2 second_call_session = Some (Inr child, s')"
  proof (cases "register_sub_call plain_hooks 1 2 second_call_session")
    case None
    with second_call_childs show ?thesis by simp
  next
    case (Some y)
    obtain a b where y: "y = (a, b)" by (cases y)
    show ?thesis
    proof (cases a)
      case (Inl e)
      with second_call_childs Some y show ?thesis by simp
    next
      case (Inr c)
      with Some y that show ?thesis by simp
    qed
  qed
  from register_sub_call_creates_child [OF second_call_session_facts(1) r] second_call_childs r
  show ?thesis
    by (simp add: second_call_session_facts(1))
qed

text \<open>
  C1 as stated fails: the scope \<open>sub\<close> has a bound invocation, and so has its child \<open>relu\<close>,
  the node that carries the unit's preferred name; \<open>register_sub_call\<close> still creates a new
  child, \<open>relu_1\<close>.
\<close>

theorem register_sub_call_merge_counterexample:
  "rn_calls (nodes second_call_session 1) = [0]
   \<and> map_of (rn_childs_by_name (nodes second_call_session 1)) ''relu'' = Some 4
   \<and> rn_calls (nodes second_call_session 4) = [1]
   \<and> get_canonical_name plain_hooks second_call_session (ce_module (call_entries second_call_session 2)) 1 = ''relu''
   \<and> (case register_sub_call plain_hooks 1 2 second_call_session of
        Some (Inr child, s') \<Rightarrow>
          child = 5 \<and> rn_childs_by_name (nodes s' 1) = [(''data'', 2), (''relu'', 4), (''relu_1'', 5)]
          \<and> rn_calls (nodes s' 5) = [2]
      | _ \<Rightarrow> False)"
  using second_call_session_facts second_call_childs by simp

subsection \<open>Names stay taken\<close>

lemma taken_names_mono_childs:
  "set (dict_keys (rn_childs_by_name (nodes s self))) \<subseteq> set (dict_keys (rn_childs_by_name (nodes s' self)))
     \<Longrightarrow> taken_names s self \<subseteq> taken_names s' self"
  by (auto simp: taken_names_def)

lemma binding_only_taken_names: "binding_only s s' \<Longrightarrow> taken_names s' n = taken_names s n"
  by (simp add: taken_names_def binding_only_def)

lemma new_child_taken_names:
  assumes "self \<noteq> next_node s"
  shows "taken_names s self \<subseteq> taken_names (set_child scope nm (next_node s)
            (set_level (next_node s) p (new_node par name w r sub s))) self"
  using assms
  by (auto simp: taken_names_def set_child_def set_level_def new_node_def dict_keys_dict_set)

lemma register_sub_net_unfold:
  "register_sub_net self suggested s =
     (if \<not> is_subnetwork s self then Some (Inl AssertionError, s)
      else if get_unique_name s self suggested = [] then Some (Inl AssertionError, s)
      else Some (Inr (next_node s),
                 set_child self (get_unique_name s self suggested) (next_node s)
                   (set_level (next_node s) self
                      (new_node (Some self) (Some (get_unique_name s self suggested))
                         (rn_wrap_to_returnn_enabled (nodes s self)) False True s))))"
proof -
  have "get_unique_name s self suggested \<notin> ReservedNames"
    using get_unique_name_not_taken [of s self] by (simp add: taken_names_def)
  then show ?thesis
    by (simp add: register_sub_net_def Let_def RegisteredName_init_child raise_def return_def)
qed

lemma register_sub_net_taken_names:
  assumes "self \<noteq> next_node s" and "register_sub_net scope suggested s = Some (r, s')"
  shows "taken_names s self \<subseteq> taken_names s' self"
proof -
  have "s' = s \<or> s' = set_child scope (get_unique_name s scope suggested) (next_node s)
                   (set_level (next_node s) scope
                      (new_node (Some scope) (Some (get_unique_name s scope suggested))
                         (rn_wrap_to_returnn_enabled (nodes s scope)) False True s))"
    using assms(2) by (auto simp: register_sub_net_unfold split: if_splits)
  then show ?thesis
  proof
    assume "s' = s" then show ?thesis by simp
  next
    assume e: "s' = set_child scope (get_unique_name s scope suggested) (next_node s)
                   (set_level (next_node s) scope
                      (new_node (Some scope) (Some (get_unique_name s scope suggested))
                         (rn_wrap_to_returnn_enabled (nodes s scope)) False True s))"
    show ?thesis unfolding e by (rule new_child_taken_names [OF assms(1)])
  qed
qed

lemma register_sub_call_taken_names:
  assumes "self \<noteq> next_node s" and "register_sub_call h scope call s = Some (r, s')"
  shows "taken_names s self \<subseteq> taken_names s' self"
proof -
  let ?s2 = "set_child scope (get_unique_name s scope (get_canonical_name h s (ce_module (call_entries s call)) scope))
                   (next_node s)
                   (set_level (next_node s) scope
                      (new_node (Some scope)
                         (Some (get_unique_name s scope (get_canonical_name h s (ce_module (call_entries s call)) scope)))
                         (rn_wrap_to_returnn_enabled (nodes s scope)) False
                         (has_torch_forward (me_module (module_entries s (ce_module (call_entries s call))))) s))"
  have "s' = s \<or> (\<exists>r'. assign_call (next_node s) call ?s2 = Some (r', s'))"
    using assms(2)
    by (auto simp: register_sub_call_unfold split: if_splits elim!: and_then_Some)
  then show ?thesis
  proof
    assume "s' = s" then show ?thesis by simp
  next
    assume "\<exists>r'. assign_call (next_node s) call ?s2 = Some (r', s')"
    then obtain r' where "assign_call (next_node s) call ?s2 = Some (r', s')" ..
    then have "binding_only ?s2 s'" by (rule assign_call_binding)
    then have "taken_names s' self = taken_names ?s2 self" by (rule binding_only_taken_names)
    with new_child_taken_names [OF assms(1)] show ?thesis by simp
  qed
qed

lemma register_input_taken_names:
  assumes "self \<noteq> next_node s" and "scope \<noteq> next_node s"
    and "register_input scope t s = Some (r, s')"
  shows "taken_names s self \<subseteq> taken_names s' self"
proof -
  have a: "taken_names s self \<subseteq> taken_names (new_input_slot scope t s) self"
    using assms(1)
    by (auto simp: taken_names_def new_input_slot_def append_input_def set_child_def bind_tensor_def
        set_level_def new_node_def dict_keys_dict_set)
  have b: "\<And>c k. taken_names (define_input c t k (new_input_slot scope t s)) self
                  = taken_names (new_input_slot scope t s) self"
    by (simp add: taken_names_def define_input_def)
  show ?thesis
    using assms(3) a b
    by (auto simp: register_input_unfold [OF assms(2)] split: if_splits option.splits)
qed

subsection \<open>Allocation of names\<close>

lemma register_sub_net_returns:
  assumes "self \<noteq> next_node s" and "register_sub_net self suggested s = Some (Inr child, s')"
  shows "rn_name (nodes s' child) = Some (get_unique_name s self suggested)"
    and "taken_names s' self = insert (get_unique_name s self suggested) (taken_names s self)"
    and "next_node s' = Suc (next_node s)"
proof -
  let ?s' = "set_child self (get_unique_name s self suggested) (next_node s)
                   (set_level (next_node s) self
                      (new_node (Some self) (Some (get_unique_name s self suggested))
                         (rn_wrap_to_returnn_enabled (nodes s self)) False True s))"
  have e: "child = next_node s" "s' = ?s'"
    using assms(2) by (auto simp: register_sub_net_unfold split: if_splits)
  note f = new_child_fields [OF assms(1), of "get_unique_name s self suggested" self "Some self"
      "Some (get_unique_name s self suggested)" "rn_wrap_to_returnn_enabled (nodes s self)" False True]
  show "rn_name (nodes s' child) = Some (get_unique_name s self suggested)"
    unfolding e by (rule f(3))
  show "taken_names s' self = insert (get_unique_name s self suggested) (taken_names s self)"
    unfolding e by (simp add: taken_names_def f(1) dict_keys_dict_set)
  show "next_node s' = Suc (next_node s)"
    unfolding e by (rule f(6))
qed

lemma register_sub_nets_distinct:
  assumes "register_sub_nets self suggestions s = Some (Inr names, s')"
    and "self < next_node s"
  shows "distinct names \<and> set names \<inter> taken_names s self = {}
       \<and> taken_names s' self = taken_names s self \<union> set names"
  using assms
proof (induction suggestions arbitrary: s names)
  case Nil
  then show ?case by simp
next
  case (Cons sug rest)
  from Cons.prems(1) obtain child s1 where
    r1: "register_sub_net self sug s = Some (Inr child, s1)"
    and r2: "and_then (register_sub_nets self rest s1) (\<lambda>names s2.
         return ((case rn_name (nodes s1 child) of Some n \<Rightarrow> n | None \<Rightarrow> []) # names) s2)
          = Some (Inr names, s')"
    by (auto elim!: and_then_Some)
  from r2 obtain names' where
    r3: "register_sub_nets self rest s1 = Some (Inr names', s')"
    and n: "names = (case rn_name (nodes s1 child) of Some n \<Rightarrow> n | None \<Rightarrow> []) # names'"
    by (auto elim!: and_then_Some)
  have ne: "self \<noteq> next_node s" using Cons.prems(2) by simp
  note f = register_sub_net_returns [OF ne r1]
  have "self < next_node s1" using f(3) Cons.prems(2) by simp
  from Cons.IH [OF r3 this] have ih: "distinct names'" "set names' \<inter> taken_names s1 self = {}"
    "taken_names s' self = taken_names s1 self \<union> set names'"
    by simp_all
  have nm: "names = get_unique_name s self sug # names'"
    using n f(1) by simp
  have "get_unique_name s self sug \<notin> taken_names s self"
    by (rule get_unique_name_not_taken)
  with ih f(2) show ?case
    unfolding nm by auto
qed

text \<open>
  C6.  At an allocated scope \<open>get_unique_name\<close> returns the suggested name when it is neither
  a child name nor reserved, and otherwise the first of \<open>suggested_1\<close>, \<open>suggested_2\<close>, ... that
  is neither; the result is never a child name or a reserved name.  The names handed out
  by repeated calls, each followed by the registration of the child, are pairwise distinct,
  not reserved and not taken before, and they are all taken afterwards; no registration
  (\<open>register_sub_net\<close>, \<open>register_sub_call\<close>, \<open>register_input\<close>, at this or any other scope)
  makes a taken name free again.
\<close>

theorem get_unique_name_allocation:
  assumes "self < next_node s"
  shows "(suggested \<notin> taken_names s self \<longrightarrow> get_unique_name s self suggested = suggested)
     \<and> (suggested \<in> taken_names s self \<longrightarrow>
          (\<exists>i\<ge>1. get_unique_name s self suggested = suggested @ ''_'' @ str_nat i
              \<and> (\<forall>k. 1 \<le> k \<and> k < i \<longrightarrow> suggested @ ''_'' @ str_nat k \<in> taken_names s self)))
     \<and> get_unique_name s self suggested \<notin> taken_names s self
     \<and> (register_sub_nets self suggestions s = Some (Inr names, s') \<longrightarrow>
          distinct names \<and> set names \<inter> taken_names s self = {}
          \<and> taken_names s' self = taken_names s self \<union> set names)
     \<and> (register_sub_net scope suggested s = Some (r1, s1) \<longrightarrow> taken_names s self \<subseteq> taken_names s1 self)
     \<and> (register_sub_call h scope call s = Some (r2, s2) \<longrightarrow> taken_names s self \<subseteq> taken_names s2 self)
     \<and> (scope < next_node s \<and> register_input scope t s = Some (r3, s3)
          \<longrightarrow> taken_names s self \<subseteq> taken_names s3 self)"
proof -
  have ne: "self \<noteq> next_node s" using assms by simp
  have a: "suggested \<in> taken_names s self \<longrightarrow>
          (\<exists>i\<ge>1. get_unique_name s self suggested = suggested @ ''_'' @ str_nat i
              \<and> (\<forall>k. 1 \<le> k \<and> k < i \<longrightarrow> suggested @ ''_'' @ str_nat k \<in> taken_names s self))"
    using get_unique_name_numbered [of suggested s self] by blast
  have b: "register_sub_nets self suggestions s = Some (Inr names, s') \<longrightarrow>
          distinct names \<and> set names \<inter> taken_names s self = {}
          \<and> taken_names s' self = taken_names s self \<union> set names"
    using register_sub_nets_distinct [OF _ assms] by blast
  have c: "register_sub_net scope suggested s = Some (r1, s1) \<longrightarrow> taken_names s self \<subseteq> taken_names s1 self"
    using register_sub_net_taken_names [OF ne] by blast
  have d: "register_sub_call h scope call s = Some (r2, s2) \<longrightarrow> taken_names s self \<subseteq> taken_names s2 self"
    using register_sub_call_taken_names [OF ne] by blast
  have e: "scope < next_node s \<and> register_input scope t s = Some (r3, s3)
          \<longrightarrow> taken_names s self \<subseteq> taken_names s3 self"
    using register_input_taken_names [OF ne, of scope t r3 s3] by auto
  show ?thesis
    using get_unique_name_free [of suggested s self] a get_unique_name_not_taken [of s self suggested] b c d e
    by blast
qed

lemma root_session_sub_nets:
  "(case register_sub_nets 0 [''conv'', ''conv'', ''data'', ''conv_1''] root_session of
      Some (Inr names, s') \<Rightarrow> names = [''conv'', ''conv_1'', ''data_1'', ''conv_1_1'']
    | _ \<Rightarrow> False)"
  by (simp add: register_sub_net_unfold is_subnetwork_def get_unique_name_def
      get_unique_name_loop.simps str_nat_1 str_nat_1' ReservedNames_def ReservedInputName_def ReservedOutputName_def
      Let_def root_session_def blank_session_def blank_node_def
      set_child_def set_level_def new_node_def dict_set_def dict_keys_def raise_def return_def)

theorem get_unique_name_allocation_witness:
  "(0::nat) < next_node root_session
   \<and> get_unique_name root_session 0 ''conv'' = ''conv''
   \<and> get_unique_name root_session 0 ''data'' = ''data_1''
   \<and> get_unique_name root_session 0 ''data'' \<notin> taken_names root_session 0
   \<and> (case register_sub_nets 0 [''conv'', ''conv'', ''data'', ''conv_1''] root_session of
        Some (Inr names, s') \<Rightarrow> names = [''conv'', ''conv_1'', ''data_1'', ''conv_1_1'']
      | _ \<Rightarrow> False)"
proof -
  have a: "(0::nat) < next_node root_session"
    by (simp add: root_session_def)
  have b: "get_unique_name root_session 0 ''conv'' = ''conv''"
    "get_unique_name root_session 0 ''data'' = ''data_1''"
    by (simp_all add: get_unique_name_def get_unique_name_loop.simps str_nat_1 str_nat_1'
        ReservedNames_def ReservedInputName_def ReservedOutputName_def
        root_session_def blank_session_def blank_node_def dict_keys_def)
  from get_unique_name_allocation [OF a, of "''data''"]
  have "get_unique_name root_session 0 ''data'' \<notin> taken_names root_session 0" by blast
  with a b root_session_sub_nets show ?thesis by simp
qed

section \<open>Properties of the serialization\<close>

lemma dumps_as_layer_single:
  "rn_calls (nodes s self) = [c] \<Longrightarrow>
   dumps_as_layer s self \<longleftrightarrow> \<not> has_torch_forward (me_module (module_entries s (ce_module (call_entries s c))))"
  by (simp add: dumps_as_layer_def)

text \<open>
  C3, as amended.  For a primitive namespace node (one bound invocation, on a unit without
  a torch forward) \<open>dump_as_returnn_layer_dict\<close> returns the invocation's \<open>returnn_layer_dict\<close>
  verbatim, whatever it holds: the description when it was materialized, and \<open>None\<close> when it
  was not.  It makes no check that the description exists and raises no error.
\<close>

theorem dump_primitive_verbatim:
  assumes "rn_calls (nodes s self) = [c]"
    and "\<not> has_torch_forward (me_module (module_entries s (ce_module (call_entries s c))))"
  shows "dump_as_returnn_layer_dict (Suc n) s self
           = Some (Inr (case ce_returnn_layer_dict (call_entries s c) of None \<Rightarrow> PNone | Some d \<Rightarrow> d))"
  using assms by (simp add: dumps_as_layer_single)

lemma dump_session_relu:
  "rn_calls (nodes dump_session 4) = [1]"
  "\<not> has_torch_forward (me_module (module_entries dump_session (ce_module (call_entries dump_session 1))))"
  "ce_returnn_layer_dict (call_entries dump_session 1) = Some relu_layer_dict"
  by (simp_all add: dump_session_def blank_session_def blank_call_def blank_node_def primitive_unit_def)

theorem dump_primitive_verbatim_witness:
  "rn_calls (nodes dump_session 4) = [1]
   \<and> \<not> has_torch_forward (me_module (module_entries dump_session (ce_module (call_entries dump_session 1))))
   \<and> dump_as_returnn_layer_dict (Suc 0) dump_session 4 = Some (Inr relu_layer_dict)"
  using dump_primitive_verbatim [OF dump_session_relu(1,2), of 0] dump_session_relu
  by simp

text \<open>
  C3 as stated fails: the dump of a primitive node whose invocation has no materialized
  description returns \<open>None\<close>; it does not fail.
\<close>

theorem dump_unmaterialized_counterexample:
  "rn_calls (nodes unmaterialized_session 4) = [1]
   \<and> \<not> has_torch_forward (me_module (module_entries unmaterialized_session
          (ce_module (call_entries unmaterialized_session 1))))
   \<and> ce_returnn_layer_dict (call_entries unmaterialized_session 1) = None
   \<and> dump_as_returnn_layer_dict (Suc 0) unmaterialized_session 4 = Some (Inr PNone)"
  by (simp add: unmaterialized_session_def dump_session_def blank_session_def blank_call_def
      blank_node_def primitive_unit_def dumps_as_layer_def)






























section \<open>Properties of applying an invocation\<close>

text \<open>The branch of a unit without a torch forward, when the unit has two or more invocations.\<close>

lemma apply_call_returnn_reuse:
  assumes "2 \<le> length (me_calls (module_entries s (ce_module (call_entries s self))))"
  shows "apply_call_returnn h self namespace inputs_flat inputs_args inputs_kwargs s =
        (case rn_parent (nodes s namespace) of
           None \<Rightarrow> raise AssertionError s
         | Some parent_namespace \<Rightarrow>
             and_then (maybe_create_returnn_ctx parent_namespace s) (\<lambda>_ s1.
               case create_returnn_layer_dict h (me_module (module_entries s (ce_module (call_entries s self))))
                      inputs_args inputs_kwargs of
                 Inl e \<Rightarrow> raise e s1
               | Inr layer_dict \<Rightarrow>
                   (case rn_returnn_ctx (nodes s1 parent_namespace) of
                      None \<Rightarrow> raise AttributeError s1
                    | Some ctx \<Rightarrow>
                        if (case rn_name (nodes s1 namespace) of
                              None \<Rightarrow> False
                            | Some nm \<Rightarrow> nm \<in> set (dict_keys (n_layers (networks s1 (rc_network (contexts s1 ctx))))))
                        then raise AssertionError s1
                        else raise NotImplementedError s1)))"
proof -
  have k: "\<And>p v s1. maybe_create_returnn_ctx p s = Some (Inr v, s1) \<Longrightarrow>
            2 \<le> length (me_calls (module_entries s1 (ce_module (call_entries s1 self))))"
  proof -
    fix p v s1 assume "maybe_create_returnn_ctx p s = Some (Inr v, s1)"
    from maybe_create_returnn_ctx_frame [OF this] have "context_creation_only s s1" by simp
    from context_creation_only_session(2,4) [OF this] assms
    show "2 \<le> length (me_calls (module_entries s1 (ce_module (call_entries s1 self))))" by simp
  qed
  show ?thesis
    unfolding apply_call_returnn_def Let_def
    by (auto split: option.splits sum.splits intro!: and_then_cong_returned dest!: k)
qed

lemma apply_call_returnn_reuse_outcome:
  assumes "2 \<le> length (me_calls (module_entries s (ce_module (call_entries s self))))"
    and "apply_call_returnn h self namespace inputs_flat inputs_args inputs_kwargs s = Some (r, s')"
  shows "(\<exists>e. r = Inl e) \<and> context_creation_only s s'"
proof -
  note u = assms(2) [unfolded apply_call_returnn_reuse [OF assms(1)]]
  show ?thesis
  proof (cases "rn_parent (nodes s namespace)")
    case None
    with u show ?thesis by (auto simp: context_creation_only_refl split: if_splits)
  next
    case (Some p)
    show ?thesis
    proof -
      from u Some have "and_then (maybe_create_returnn_ctx p s) (\<lambda>_ s1.
               case create_returnn_layer_dict h (me_module (module_entries s (ce_module (call_entries s self))))
                      inputs_args inputs_kwargs of
                 Inl e \<Rightarrow> raise e s1
               | Inr layer_dict \<Rightarrow>
                   (case rn_returnn_ctx (nodes s1 p) of
                      None \<Rightarrow> raise AttributeError s1
                    | Some ctx \<Rightarrow>
                        if (case rn_name (nodes s1 namespace) of
                              None \<Rightarrow> False
                            | Some nm \<Rightarrow> nm \<in> set (dict_keys (n_layers (networks s1 (rc_network (contexts s1 ctx))))))
                        then raise AssertionError s1
                        else raise NotImplementedError s1)) = Some (r, s')"
        by simp
      then show ?thesis
      proof (cases rule: and_then_Some)
        case (raised e s1)
        with maybe_create_returnn_ctx_frame [OF raised(1)] show ?thesis by simp
      next
        case (returned v s1)
        from maybe_create_returnn_ctx_frame [OF returned(1)] have "context_creation_only s s1" by simp
        with returned(2) show ?thesis
          by (auto split: sum.splits option.splits if_splits)
      qed
    qed
  qed
qed


lemma apply_call_primitive_unfold:
  assumes "\<not> has_torch_forward (me_module (module_entries s (ce_module (call_entries s self))))"
  shows "apply_call (Suc n) h self s =
     (case ce_namespace (call_entries s self) of
        None \<Rightarrow> raise AssertionError s
      | Some namespace \<Rightarrow>
          (case ce_inputs_flat (call_entries s self) of
             None \<Rightarrow> raise TypeError s
           | Some flat \<Rightarrow>
               (case pack_sequence_as h (ce_inputs_args (call_entries s self))
                       (ce_inputs_kwargs (call_entries s self))
                       (map (\<lambda>x. case x of None \<Rightarrow> None | Some t \<Rightarrow> te_tensor (tensor_entries s t)) flat) of
                  Inl e \<Rightarrow> raise e s
                | Inr (inputs_args, inputs_kwargs) \<Rightarrow>
                    and_then
                      (apply_call_returnn h self namespace
                         (map (\<lambda>x. case x of None \<Rightarrow> None | Some t \<Rightarrow> te_tensor (tensor_entries s t)) flat)
                         inputs_args inputs_kwargs s)
                      (\<lambda>(res, layer, layer_dict) s1. apply_call_finish h self res layer layer_dict s1))))"
  using assms by (simp add: Let_def split: option.splits sum.splits prod.splits)

lemma apply_call_reuse_outcome:
  assumes prim: "\<not> has_torch_forward (me_module (module_entries s (ce_module (call_entries s self))))"
    and reuse: "2 \<le> length (me_calls (module_entries s (ce_module (call_entries s self))))"
    and run: "apply_call (Suc n) h self s = Some (r, s')"
  shows "(\<exists>e. r = Inl e) \<and> context_creation_only s s'"
proof -
  note u = run [unfolded apply_call_primitive_unfold [OF prim]]
  show ?thesis
  proof (cases "ce_namespace (call_entries s self)")
    case None
    with u show ?thesis by (simp add: context_creation_only_refl)
  next
    case ns: (Some namespace)
    show ?thesis
    proof (cases "ce_inputs_flat (call_entries s self)")
      case None
      with u ns show ?thesis by (simp add: context_creation_only_refl)
    next
      case fl: (Some flat)
      show ?thesis
      proof (cases "pack_sequence_as h (ce_inputs_args (call_entries s self))
                       (ce_inputs_kwargs (call_entries s self))
                       (map (\<lambda>x. case x of None \<Rightarrow> None | Some t \<Rightarrow> te_tensor (tensor_entries s t)) flat)")
        case (Inl e)
        with u ns fl show ?thesis by (simp add: context_creation_only_refl)
      next
        case (Inr ak)
        obtain inputs_args inputs_kwargs where ak: "ak = (inputs_args, inputs_kwargs)" by (cases ak)
        from u ns fl Inr ak have "and_then
                      (apply_call_returnn h self namespace
                         (map (\<lambda>x. case x of None \<Rightarrow> None | Some t \<Rightarrow> te_tensor (tensor_entries s t)) flat)
                         inputs_args inputs_kwargs s)
                      (\<lambda>(res, layer, layer_dict) s1. apply_call_finish h self res layer layer_dict s1)
                    = Some (r, s')"
          by simp
        then show ?thesis
        proof (cases rule: and_then_Some)
          case (raised e s1)
          with apply_call_returnn_reuse_outcome [OF reuse raised(1)] show ?thesis by simp
        next
          case (returned v s1)
          with apply_call_returnn_reuse_outcome [OF reuse returned(1)] show ?thesis by simp
        qed
      qed
    qed
  qed
qed

lemma apply_call_reuse_no_construct:
  assumes prim: "\<not> has_torch_forward (me_module (module_entries s (ce_module (call_entries s self))))"
    and reuse: "2 \<le> length (me_calls (module_entries s (ce_module (call_entries s self))))"
  shows "apply_call (Suc n) (h\<lparr>construct_layer := f\<rparr>) self s = apply_call (Suc n) h self s"
proof -
  have fin: "\<And>m k k'. (\<And>v s1. m \<noteq> Some (Inr v, s1)) \<Longrightarrow> and_then m k = and_then m k'"
    by (rule and_then_cong_returned) blast
  have nr: "\<And>h' ns fl a k v s1. apply_call_returnn h' self ns fl a k s \<noteq> Some (Inr v, s1)"
    using apply_call_returnn_reuse_outcome [OF reuse] by blast
  have ret: "\<And>ns fl a k. apply_call_returnn (h\<lparr>construct_layer := f\<rparr>) self ns fl a k s
                = apply_call_returnn h self ns fl a k s"
    by (simp add: apply_call_returnn_reuse [OF reuse] split: option.splits)
  show ?thesis
    unfolding apply_call_primitive_unfold [OF prim]
    by (auto split: option.splits sum.splits simp: ret intro!: fin nr)
qed

lemma maybe_create_returnn_ctx_present:
  assumes "rn_is_subnet (nodes s p)" and "rn_wrap_to_returnn_enabled (nodes s p)"
    and "rn_returnn_ctx (nodes s p) = Some c"
  shows "maybe_create_returnn_ctx p s = Some (Inr (), s)"
  using assms by (subst maybe_create_returnn_ctx.simps) (simp add: is_subnetwork_def)

lemma apply_call_reuse_unfold:
  assumes prim: "\<not> has_torch_forward (me_module (module_entries s (ce_module (call_entries s self))))"
    and reuse: "2 \<le> length (me_calls (module_entries s (ce_module (call_entries s self))))"
    and ns: "ce_namespace (call_entries s self) = Some namespace"
    and fl: "ce_inputs_flat (call_entries s self) = Some flat"
    and pk: "pack_sequence_as h (ce_inputs_args (call_entries s self)) (ce_inputs_kwargs (call_entries s self))
               (map (\<lambda>x. case x of None \<Rightarrow> None | Some t \<Rightarrow> te_tensor (tensor_entries s t)) flat)
             = Inr (inputs_args, inputs_kwargs)"
    and par: "rn_parent (nodes s namespace) = Some p"
    and ctx: "maybe_create_returnn_ctx p s = Some (Inr u, s1)"
  shows "apply_call (Suc n) h self s =
     (case create_returnn_layer_dict h (me_module (module_entries s (ce_module (call_entries s self))))
             inputs_args inputs_kwargs of
        Inl e \<Rightarrow> Some (Inl e, s1)
      | Inr layer_dict \<Rightarrow>
          (case rn_returnn_ctx (nodes s1 p) of
             None \<Rightarrow> Some (Inl AttributeError, s1)
           | Some c \<Rightarrow>
               if (case rn_name (nodes s1 namespace) of
                     None \<Rightarrow> False
                   | Some nm \<Rightarrow> nm \<in> set (dict_keys (n_layers (networks s1 (rc_network (contexts s1 c))))))
               then Some (Inl AssertionError, s1)
               else Some (Inl NotImplementedError, s1)))"
  unfolding apply_call_primitive_unfold [OF prim]
  by (simp add: ns fl pk apply_call_returnn_reuse [OF reuse] par ctx raise_def
      split: sum.splits option.splits)

lemma apply_call_returnn_reuse_unchanged:
  assumes reuse: "2 \<le> length (me_calls (module_entries s (ce_module (call_entries s self))))"
    and has: "\<And>p. rn_parent (nodes s namespace) = Some p \<Longrightarrow> rn_returnn_ctx (nodes s p) \<noteq> None"
    and run: "apply_call_returnn h self namespace inputs_flat inputs_args inputs_kwargs s = Some (r, s')"
  shows "s' = s"
proof -
  have mc: "\<And>p r1 s1. rn_returnn_ctx (nodes s p) \<noteq> None \<Longrightarrow> maybe_create_returnn_ctx p s = Some (r1, s1)
              \<Longrightarrow> s1 = s"
    by (subst (asm) maybe_create_returnn_ctx.simps) (auto split: if_splits)
  note u = run [unfolded apply_call_returnn_reuse [OF reuse]]
  show ?thesis
  proof (cases "rn_parent (nodes s namespace)")
    case None
    with u show ?thesis by simp
  next
    case par: (Some p)
    from has [OF par] have c: "rn_returnn_ctx (nodes s p) \<noteq> None" .
    from u par
    have "and_then (maybe_create_returnn_ctx p s) (\<lambda>_ s1.
               case create_returnn_layer_dict h (me_module (module_entries s (ce_module (call_entries s self))))
                      inputs_args inputs_kwargs of
                 Inl e \<Rightarrow> raise e s1
               | Inr layer_dict \<Rightarrow>
                   (case rn_returnn_ctx (nodes s1 p) of
                      None \<Rightarrow> raise AttributeError s1
                    | Some ctx \<Rightarrow>
                        if (case rn_name (nodes s1 namespace) of
                              None \<Rightarrow> False
                            | Some nm \<Rightarrow> nm \<in> set (dict_keys (n_layers (networks s1 (rc_network (contexts s1 ctx))))))
                        then raise AssertionError s1
                        else raise NotImplementedError s1))
               = Some (r, s')"
      by simp
    then show ?thesis
    proof (cases rule: and_then_Some)
      case (raised e s1)
      with mc [OF c] show ?thesis by auto
    next
      case (returned v s1)
      from mc [OF c returned(1)] returned(2) show ?thesis
        by (auto split: sum.splits option.splits if_splits)
    qed
  qed
qed

lemma apply_call_reuse_unchanged:
  assumes prim: "\<not> has_torch_forward (me_module (module_entries s (ce_module (call_entries s self))))"
    and reuse: "2 \<le> length (me_calls (module_entries s (ce_module (call_entries s self))))"
    and has: "\<And>namespace p. ce_namespace (call_entries s self) = Some namespace
                \<Longrightarrow> rn_parent (nodes s namespace) = Some p \<Longrightarrow> rn_returnn_ctx (nodes s p) \<noteq> None"
    and run: "apply_call (Suc n) h self s = Some (r, s')"
  shows "s' = s"
proof -
  note u = run [unfolded apply_call_primitive_unfold [OF prim]]
  show ?thesis
  proof (cases "ce_namespace (call_entries s self)")
    case None
    with u show ?thesis by simp
  next
    case ns: (Some namespace)
    show ?thesis
    proof (cases "ce_inputs_flat (call_entries s self)")
      case None
      with u ns show ?thesis by simp
    next
      case fl: (Some flat)
      show ?thesis
      proof (cases "pack_sequence_as h (ce_inputs_args (call_entries s self))
                       (ce_inputs_kwargs (call_entries s self))
                       (map (\<lambda>x. case x of None \<Rightarrow> None | Some t \<Rightarrow> te_tensor (tensor_entries s t)) flat)")
        case (Inl e)
        with u ns fl show ?thesis by simp
      next
        case (Inr ak)
        obtain inputs_args inputs_kwargs where ak: "ak = (inputs_args, inputs_kwargs)" by (cases ak)
        from u ns fl Inr ak have "and_then
                      (apply_call_returnn h self namespace
                         (map (\<lambda>x. case x of None \<Rightarrow> None | Some t \<Rightarrow> te_tensor (tensor_entries s t)) flat)
                         inputs_args inputs_kwargs s)
                      (\<lambda>(res, layer, layer_dict) s1. apply_call_finish h self res layer layer_dict s1)
                    = Some (r, s')"
          by simp
        then show ?thesis
        proof (cases rule: and_then_Some)
          case (raised e s1)
          with apply_call_returnn_reuse_unchanged [OF reuse has [OF ns] raised(1)] show ?thesis by simp
        next
          case (returned v s1)
          with apply_call_returnn_reuse_outcome [OF reuse returned(1)] show ?thesis by simp
        qed
      qed
    qed
  qed
qed

lemma apply_call_reuse_returns:
  assumes prim: "\<not> has_torch_forward (me_module (module_entries s (ce_module (call_entries s self))))"
    and reuse: "2 \<le> length (me_calls (module_entries s (ce_module (call_entries s self))))"
    and mc: "\<And>namespace p. ce_namespace (call_entries s self) = Some namespace
                \<Longrightarrow> rn_parent (nodes s namespace) = Some p \<Longrightarrow> maybe_create_returnn_ctx p s \<noteq> None"
  shows "apply_call (Suc n) h self s \<noteq> None"
proof (cases "ce_namespace (call_entries s self)")
  case None
  then show ?thesis unfolding apply_call_primitive_unfold [OF prim] by (simp add: raise_def)
next
  case ns: (Some namespace)
  show ?thesis
  proof (cases "rn_parent (nodes s namespace)")
    case None
    with ns show ?thesis
      unfolding apply_call_primitive_unfold [OF prim]
      by (simp add: apply_call_returnn_reuse [OF reuse] raise_def split: option.splits sum.splits)
  next
    case par: (Some p)
    from mc [OF ns par] obtain r1 s1 where m: "maybe_create_returnn_ctx p s = Some (r1, s1)" by auto
    with ns par show ?thesis
      unfolding apply_call_primitive_unfold [OF prim]
      by (cases r1)
         (simp_all add: apply_call_returnn_reuse [OF reuse] raise_def split: option.splits sum.splits)
  qed
qed


text \<open>
  C2, as amended.  Take a primitive unit (one without a torch forward) that has two or
  more invocations, and apply one of them.

  \<^item> The application never returns normally and never reaches the construction of the
    layer: whenever \<open>apply_call\<close> ends it ends with an error, and the layer constructor
    plays no part in the outcome.

  \<^item> The error is the one of the first failing step of lines 84-111, and the reuse test of
    line 110 is the last of them.  When the invocation is bound to a node with a parent
    scope, its inputs can be packed and \<open>maybe_create_returnn_ctx\<close> returns for the parent
    scope, then: an error \<open>e\<close> of the unit's own \<open>create_returnn_layer_dict\<close> is the
    outcome; otherwise a parent scope without a context gives \<open>AttributeError\<close>; otherwise
    a node name that is already a layer of the parent's network gives \<open>AssertionError\<close>;
    and only otherwise the outcome is \<open>NotImplementedError\<close>.

  \<^item> The session after the error differs from the one before at most by construction
    contexts that \<open>maybe_create_returnn_ctx\<close> created for scopes that had none (with
    the network and wrapping layer that belong to a new context): every invocation
    record, every unit record, every binding of a namespace node and every existing
    context, network and layer is as before.  When the parent scope of the node has its
    context already, the session is exactly the one before.

  \<^item> The application ends whenever \<open>maybe_create_returnn_ctx\<close> ends for the parent scope.
\<close>

theorem apply_call_reuse_rejected:
  assumes "\<not> has_torch_forward (me_module (module_entries s (ce_module (call_entries s self))))"
    and "2 \<le> length (me_calls (module_entries s (ce_module (call_entries s self))))"
  shows "(\<forall>r s'. apply_call (Suc n) h self s = Some (r, s')
            \<longrightarrow> (\<exists>e. r = Inl e) \<and> context_creation_only s s')
       \<and> apply_call (Suc n) (h\<lparr>construct_layer := f\<rparr>) self s = apply_call (Suc n) h self s
       \<and> (ce_namespace (call_entries s self) = Some namespace
          \<and> ce_inputs_flat (call_entries s self) = Some flat
          \<and> pack_sequence_as h (ce_inputs_args (call_entries s self)) (ce_inputs_kwargs (call_entries s self))
               (map (\<lambda>x. case x of None \<Rightarrow> None | Some t \<Rightarrow> te_tensor (tensor_entries s t)) flat)
             = Inr (inputs_args, inputs_kwargs)
          \<and> rn_parent (nodes s namespace) = Some p
          \<and> maybe_create_returnn_ctx p s = Some (Inr u, s1)
          \<longrightarrow> apply_call (Suc n) h self s =
                (case create_returnn_layer_dict h (me_module (module_entries s (ce_module (call_entries s self))))
                        inputs_args inputs_kwargs of
                   Inl e \<Rightarrow> Some (Inl e, s1)
                 | Inr layer_dict \<Rightarrow>
                     (case rn_returnn_ctx (nodes s1 p) of
                        None \<Rightarrow> Some (Inl AttributeError, s1)
                      | Some c \<Rightarrow>
                          if (case rn_name (nodes s1 namespace) of
                                None \<Rightarrow> False
                              | Some nm \<Rightarrow> nm \<in> set (dict_keys (n_layers (networks s1 (rc_network (contexts s1 c))))))
                          then Some (Inl AssertionError, s1)
                          else Some (Inl NotImplementedError, s1))))
       \<and> ((\<forall>namespace p. ce_namespace (call_entries s self) = Some namespace
                \<longrightarrow> rn_parent (nodes s namespace) = Some p \<longrightarrow> rn_returnn_ctx (nodes s p) \<noteq> None)
          \<longrightarrow> (\<forall>r s'. apply_call (Suc n) h self s = Some (r, s') \<longrightarrow> s' = s))
       \<and> ((\<forall>namespace p. ce_namespace (call_entries s self) = Some namespace
                \<longrightarrow> rn_parent (nodes s namespace) = Some p \<longrightarrow> maybe_create_returnn_ctx p s \<noteq> None)
          \<longrightarrow> apply_call (Suc n) h self s \<noteq> None)"
proof -
  have a: "\<forall>r s'. apply_call (Suc n) h self s = Some (r, s')
            \<longrightarrow> (\<exists>e. r = Inl e) \<and> context_creation_only s s'"
    using apply_call_reuse_outcome [OF assms] by blast
  have b: "apply_call (Suc n) (h\<lparr>construct_layer := f\<rparr>) self s = apply_call (Suc n) h self s"
    using assms by (rule apply_call_reuse_no_construct)
  have c: "(\<forall>namespace p. ce_namespace (call_entries s self) = Some namespace
                \<longrightarrow> rn_parent (nodes s namespace) = Some p \<longrightarrow> rn_returnn_ctx (nodes s p) \<noteq> None)
          \<longrightarrow> (\<forall>r s'. apply_call (Suc n) h self s = Some (r, s') \<longrightarrow> s' = s)"
    using apply_call_reuse_unchanged [OF assms] by blast
  have d: "(\<forall>namespace p. ce_namespace (call_entries s self) = Some namespace
                \<longrightarrow> rn_parent (nodes s namespace) = Some p \<longrightarrow> maybe_create_returnn_ctx p s \<noteq> None)
          \<longrightarrow> apply_call (Suc n) h self s \<noteq> None"
    using apply_call_reuse_returns [OF assms] by blast
  show ?thesis
    using a b c d apply_call_reuse_unfold [OF assms] by blast
qed

lemma reuse_session_facts:
  "\<not> has_torch_forward (me_module (module_entries reuse_session (ce_module (call_entries reuse_session 1))))"
  "2 \<le> length (me_calls (module_entries reuse_session (ce_module (call_entries reuse_session 1))))"
  "ce_namespace (call_entries reuse_session 1) = Some 2"
  "ce_inputs_flat (call_entries reuse_session 1) = Some [Some 1]"
  "pack_sequence_as plain_hooks (ce_inputs_args (call_entries reuse_session 1))
       (ce_inputs_kwargs (call_entries reuse_session 1))
       (map (\<lambda>x. case x of None \<Rightarrow> None | Some t \<Rightarrow> te_tensor (tensor_entries reuse_session t)) [Some 1])
     = Inr ([Some 8], [])"
  "rn_parent (nodes reuse_session 2) = Some 0"
  "rn_is_subnet (nodes reuse_session 0)" "rn_wrap_to_returnn_enabled (nodes reuse_session 0)"
  "rn_returnn_ctx (nodes reuse_session 0) = Some 0"
  "create_returnn_layer_dict plain_hooks (me_module (module_entries reuse_session (ce_module (call_entries reuse_session 1))))
       [Some 8] [] = Inr (PDict [(''class'', PStr ''copy''), (''from'', PStr ''relu'')])"
  "rn_name (nodes reuse_session 2) = Some ''relu_1''"
  "''relu_1'' \<notin> set (dict_keys (n_layers (networks reuse_session (rc_network (contexts reuse_session 0)))))"
  by (simp_all add: reuse_session_def blank_session_def blank_node_def blank_call_def blank_tensor_def
      primitive_unit_def plain_hooks_def dict_keys_def)

lemma reuse_session_first_facts:
  "\<not> has_torch_forward (me_module (module_entries reuse_session (ce_module (call_entries reuse_session 0))))"
  "2 \<le> length (me_calls (module_entries reuse_session (ce_module (call_entries reuse_session 0))))"
  "ce_namespace (call_entries reuse_session 0) = Some 1"
  "ce_inputs_flat (call_entries reuse_session 0) = Some [Some 0]"
  "pack_sequence_as plain_hooks (ce_inputs_args (call_entries reuse_session 0))
       (ce_inputs_kwargs (call_entries reuse_session 0))
       (map (\<lambda>x. case x of None \<Rightarrow> None | Some t \<Rightarrow> te_tensor (tensor_entries reuse_session t)) [Some 0])
     = Inr ([Some 7], [])"
  "rn_parent (nodes reuse_session 1) = Some 0"
  "create_returnn_layer_dict plain_hooks (me_module (module_entries reuse_session (ce_module (call_entries reuse_session 0))))
       [Some 7] [] = Inr (PDict [(''class'', PStr ''copy''), (''from'', PStr ''relu'')])"
  "rn_name (nodes reuse_session 1) = Some ''relu''"
  "''relu'' \<in> set (dict_keys (n_layers (networks reuse_session (rc_network (contexts reuse_session 0)))))"
  by (simp_all add: reuse_session_def blank_session_def blank_node_def blank_call_def blank_tensor_def
      primitive_unit_def plain_hooks_def dict_keys_def)

theorem apply_call_reuse_rejected_witness:
  "\<not> has_torch_forward (me_module (module_entries reuse_session (ce_module (call_entries reuse_session 1))))
   \<and> 2 \<le> length (me_calls (module_entries reuse_session (ce_module (call_entries reuse_session 1))))
   \<and> ce_returnn_layer (call_entries reuse_session 0) = Some 0
   \<and> apply_call (Suc 0) plain_hooks 1 reuse_session = Some (Inl NotImplementedError, reuse_session)"
proof -
  have "ce_returnn_layer (call_entries reuse_session 0) = Some 0"
    by (simp add: reuse_session_def blank_session_def blank_call_def)
  then show ?thesis
    using apply_call_reuse_rejected [OF reuse_session_facts(1,2),
        where n = 0 and h = plain_hooks and f = "construct_layer plain_hooks" and namespace = 2
          and flat = "[Some 1]" and inputs_args = "[Some 8]" and inputs_kwargs = "[]" and p = 0
          and u = "()" and ?s1.0 = reuse_session]
      reuse_session_facts
      maybe_create_returnn_ctx_present [OF reuse_session_facts(7,8,9)]
    by simp
qed

text \<open>
  C2 as stated fails: applying the second invocation of a primitive unit used twice,
  whose \<open>create_returnn_layer_dict\<close> fails with its own \<open>AssertionError\<close>, ends with that
  error and not with \<open>NotImplementedError\<close>, since line 106 runs before the reuse test of
  line 110.  Applying the first invocation again ends with the \<open>AssertionError\<close> of line
  109, since its layer name is a layer of the network already.
\<close>

theorem apply_call_reuse_other_error_counterexample:
  "\<not> has_torch_forward (me_module (module_entries reuse_session (ce_module (call_entries reuse_session 1))))
   \<and> length (me_calls (module_entries reuse_session (ce_module (call_entries reuse_session 1)))) = 2
   \<and> apply_call (Suc 0) (plain_hooks\<lparr>create_returnn_layer_dict := (\<lambda>_ _ _. Inl AssertionError)\<rparr>) 1 reuse_session
       = Some (Inl AssertionError, reuse_session)
   \<and> apply_call (Suc 0) plain_hooks 0 reuse_session = Some (Inl AssertionError, reuse_session)"
proof -
  let ?h = "plain_hooks\<lparr>create_returnn_layer_dict := (\<lambda>_ _ _. Inl AssertionError)\<rparr>"
  have pk: "pack_sequence_as ?h (ce_inputs_args (call_entries reuse_session 1))
       (ce_inputs_kwargs (call_entries reuse_session 1))
       (map (\<lambda>x. case x of None \<Rightarrow> None | Some t \<Rightarrow> te_tensor (tensor_entries reuse_session t)) [Some 1])
     = Inr ([Some 8], [])"
    using reuse_session_facts(5) by simp
  have a: "apply_call (Suc 0) ?h 1 reuse_session = Some (Inl AssertionError, reuse_session)"
    using apply_call_reuse_unfold [OF reuse_session_facts(1,2,3,4) pk reuse_session_facts(6)
        maybe_create_returnn_ctx_present [OF reuse_session_facts(7,8,9)], of 0]
    by simp
  have b: "apply_call (Suc 0) plain_hooks 0 reuse_session = Some (Inl AssertionError, reuse_session)"
    using apply_call_reuse_unfold [OF reuse_session_first_facts(1,2,3,4,5,6)
        maybe_create_returnn_ctx_present [OF reuse_session_facts(7,8,9)], of 0]
      reuse_session_first_facts(7) reuse_session_facts(9) reuse_session_first_facts(8,9)
    by simp
  have "length (me_calls (module_entries reuse_session (ce_module (call_entries reuse_session 1)))) = 2"
    by (simp add: reuse_session_def blank_session_def blank_call_def)
  with a b reuse_session_facts(1) show ?thesis by simp
qed

subsection \<open>The call stack\<close>

lemma update_parent_params_stack:
  "update_parent_params parent_layer pre layer s = Some s' \<Longrightarrow>
     module_call_stack s' = module_call_stack s
     \<and> call_entries s' = call_entries s \<and> module_entries s' = module_entries s"
proof (induction rule: update_parent_params.raw_induct [rotated 1, consumes 1, case_names 1])
  case (1 rec parent_layer pre layer s s')
  show ?case
  proof (cases parent_layer)
    case None
    with 1(2) show ?thesis by simp
  next
    case (Some pl)
    show ?thesis
    proof (cases "startswith (l_name (layers s pl)) ''.''")
      case True
      with 1(2) Some show ?thesis by simp
    next
      case False
      with 1(2) Some have "rec (n_parent_layer (networks s (l_network (layers s pl))))
              (l_name (layers s pl) @ ''/'' @ pre) layer
              (s\<lparr>layers := (layers s)(pl := (layers s pl)\<lparr>l_params :=
                    fold (\<lambda>(k, v) d. dict_set d (pre @ k) v)
                      (l_params (layers s layer)) (l_params (layers s pl))\<rparr>)\<rparr>) = Some s'"
        by simp
      from 1(1) [OF this] show ?thesis by simp
    qed
  qed
qed

lemma register_tensor_stack:
  "module_call_stack (register_tensor x s) = module_call_stack s"
  "call_entries (register_tensor x s) = call_entries s"
  "module_entries (register_tensor x s) = module_entries s"
  by (simp_all add: register_tensor_def split: option.splits)

lemma assign_tensor_stack:
  "module_call_stack (snd (assign_tensor self t s)) = module_call_stack s"
  "call_entries (snd (assign_tensor self t s)) = call_entries s"
  "module_entries (snd (assign_tensor self t s)) = module_entries s"
  by (simp_all add: assign_tensor_def list_remove_def split: option.splits sum.splits)

lemma add_producer_stack: "module_call_stack (add_producer c x s) = module_call_stack s"
  by (simp add: add_producer_def)

lemma fold_add_producer_stack:
  "module_call_stack (fold (add_producer c) xs s) = module_call_stack s"
  by (induction xs arbitrary: s) (simp_all add: add_producer_stack)

lemma set_outputs_stack:
  "module_call_stack (snd (set_outputs self outs s)) = module_call_stack s"
  by (simp add: set_outputs_def Let_def fold_add_producer_stack add_producer_stack
      split: sum.splits list.splits)

lemma apply_call_output_stack:
  assumes "apply_call_output h self namespace layer layer_dict inputs_flat s = Some (r, s')"
  shows "module_call_stack s' = module_call_stack s"
proof -
  let ?module = "me_module (module_entries s (ce_module (call_entries s self)))"
  show ?thesis
  proof (cases "check_returnn_layer h ?module (layers s layer)")
    case (Some e)
    with assms show ?thesis by (simp add: apply_call_output_def)
  next
    case None
    show ?thesis
    proof (cases "make_output_tensor_from_returnn h s ?module inputs_flat (layers s layer)")
      case (Inl e)
      with assms None show ?thesis by (simp add: apply_call_output_def)
    next
      case (Inr res)
      show ?thesis
      proof (cases "tensors_getitem (register_tensor res s) res")
        case (Inl e)
        with assms None Inr show ?thesis
          by (simp add: apply_call_output_def Let_def register_tensor_stack)
      next
        case g: (Inr res_entry)
        define s4 where "s4 = (register_tensor res s)\<lparr>tensor_entries :=
            (tensor_entries (register_tensor res s))(res_entry :=
               (tensor_entries (register_tensor res s) res_entry)\<lparr>te_returnn_data :=
                  Some (l_output (layers (register_tensor res s) layer))\<rparr>)\<rparr>"
        have st4: "module_call_stack s4 = module_call_stack s"
          by (simp add: s4_def register_tensor_stack)
        from assms None Inr g have "and_then (Some (assign_tensor namespace res_entry s4))
                  (\<lambda>_ s5. return (res, Some layer, Some layer_dict) s5) = Some (r, s')"
          by (simp add: apply_call_output_def Let_def s4_def)
        then have "s' = snd (assign_tensor namespace res_entry s4)"
          by (cases "assign_tensor namespace res_entry s4") (auto elim!: and_then_Some)
        then show ?thesis using st4 by (simp add: assign_tensor_stack)
      qed
    qed
  qed
qed

lemma apply_call_construct_stack:
  assumes "apply_call_construct h self namespace layer_name returnn_net layer_dict inputs_flat s = Some (r, s')"
  shows "module_call_stack s' = module_call_stack s"
proof (cases layer_name)
  case None
  with assms show ?thesis by (simp add: apply_call_construct_def)
next
  case (Some nm)
  show ?thesis
  proof (cases "construct_layer h s returnn_net nm layer_dict")
    case (Inl e)
    with assms Some show ?thesis by (simp add: apply_call_construct_def)
  next
    case (Inr po)
    obtain params outp where po: "po = (params, outp)" by (cases po)
    let ?s1 = "add_layer returnn_net nm params outp s"
    have st1: "module_call_stack ?s1 = module_call_stack s" by (simp add: add_layer_def)
    from assms Some Inr po obtain s2 where
      u: "update_parent_params (n_parent_layer (networks ?s1 (l_network (layers ?s1 (next_layer s)))))
                         (l_name (layers ?s1 (next_layer s)) @ ''/'') (next_layer s) ?s1 = Some s2"
      and rest: "apply_call_output h self namespace (next_layer s) layer_dict inputs_flat s2 = Some (r, s')"
      by (auto simp: apply_call_construct_def Let_def split: option.splits)
    show ?thesis
      using update_parent_params_stack [OF u] st1 apply_call_output_stack [OF rest] by simp
  qed
qed

lemma apply_call_returnn_stack:
  assumes "apply_call_returnn h self namespace inputs_flat inputs_args inputs_kwargs s = Some (r, s')"
  shows "module_call_stack s' = module_call_stack s"
proof -
  show ?thesis
  proof (cases "rn_parent (nodes s namespace)")
    case None
    with assms show ?thesis by (simp add: apply_call_returnn_def)
  next
    case (Some p)
    let ?k = "\<lambda>(u::unit) s1.
               case create_returnn_layer_dict h (me_module (module_entries s (ce_module (call_entries s self))))
                      inputs_args inputs_kwargs of
                 Inl e \<Rightarrow> raise e s1
               | Inr layer_dict \<Rightarrow>
                   (case rn_returnn_ctx (nodes s1 p) of
                      None \<Rightarrow> raise AttributeError s1
                    | Some ctx \<Rightarrow>
                        let layer_name = rn_name (nodes s1 namespace);
                            returnn_net = rc_network (contexts s1 ctx)
                        in
                          if (case layer_name of
                                None \<Rightarrow> False
                              | Some nm \<Rightarrow> nm \<in> set (dict_keys (n_layers (networks s1 returnn_net))))
                          then raise AssertionError s1
                          else if length (me_calls (module_entries s1 (ce_module (call_entries s1 self)))) \<ge> 2
                          then raise NotImplementedError s1
                          else apply_call_construct h self namespace layer_name returnn_net
                                 layer_dict inputs_flat s1)"
    from assms Some have a: "and_then (maybe_create_returnn_ctx p s) ?k = Some (r, s')"
      by (simp add: apply_call_returnn_def)
    from a show ?thesis
    proof (cases rule: and_then_Some)
      case (raised e s1)
      from maybe_create_returnn_ctx_frame [OF raised(1)] raised(2) show ?thesis
        by (simp add: context_creation_only_def)
    next
      case (returned v s1)
      from maybe_create_returnn_ctx_frame [OF returned(1)] have st1: "module_call_stack s1 = module_call_stack s"
        by (simp add: context_creation_only_def)
      from returned(2) have "module_call_stack s' = module_call_stack s1"
        by (auto simp: Let_def split: sum.splits option.splits if_splits dest: apply_call_construct_stack)
      with st1 show ?thesis by simp
    qed
  qed
qed

lemma apply_call_finish_stack:
  assumes "apply_call_finish h self res layer layer_dict s = Some (r, s')"
  shows "module_call_stack s' = module_call_stack s"
proof -
  let ?s1 = "set_returnn_layer self layer layer_dict s"
  have st1: "module_call_stack ?s1 = module_call_stack s" by (simp add: set_returnn_layer_def)
  have "s' = snd (set_outputs self (TensorSeq [res]) ?s1)"
    using assms
    by (cases "set_outputs self (TensorSeq [res]) ?s1")
       (auto simp: apply_call_finish_def Let_def elim!: and_then_Some split: option.splits if_splits)
  then show ?thesis using st1 by (simp add: set_outputs_stack)
qed

lemma apply_call_primitive_stack:
  assumes prim: "\<not> has_torch_forward (me_module (module_entries s (ce_module (call_entries s self))))"
    and run: "apply_call n h self s = Some (r, s')"
  shows "module_call_stack s' = module_call_stack s"
proof (cases n)
  case 0
  with run show ?thesis by simp
next
  case (Suc m)
  note u = run [unfolded Suc apply_call_primitive_unfold [OF prim]]
  show ?thesis
  proof (cases "ce_namespace (call_entries s self)")
    case None
    with u show ?thesis by simp
  next
    case ns: (Some namespace)
    show ?thesis
    proof (cases "ce_inputs_flat (call_entries s self)")
      case None
      with u ns show ?thesis by simp
    next
      case fl: (Some flat)
      show ?thesis
      proof (cases "pack_sequence_as h (ce_inputs_args (call_entries s self))
                       (ce_inputs_kwargs (call_entries s self))
                       (map (\<lambda>x. case x of None \<Rightarrow> None | Some t \<Rightarrow> te_tensor (tensor_entries s t)) flat)")
        case (Inl e)
        with u ns fl show ?thesis by simp
      next
        case (Inr ak)
        obtain inputs_args inputs_kwargs where ak: "ak = (inputs_args, inputs_kwargs)" by (cases ak)
        from u ns fl Inr ak have "and_then
                      (apply_call_returnn h self namespace
                         (map (\<lambda>x. case x of None \<Rightarrow> None | Some t \<Rightarrow> te_tensor (tensor_entries s t)) flat)
                         inputs_args inputs_kwargs s)
                      (\<lambda>(res, layer, layer_dict) s1. apply_call_finish h self res layer layer_dict s1)
                    = Some (r, s')"
          by simp
        then show ?thesis
        proof (cases rule: and_then_Some)
          case (raised e s1)
          with apply_call_returnn_stack [OF raised(1)] show ?thesis by simp
        next
          case (returned v s1)
          obtain res layer layer_dict where v: "v = (res, layer, layer_dict)" by (cases v)
          from returned(2) v have "apply_call_finish h self res layer layer_dict s1 = Some (r, s')" by simp
          from apply_call_finish_stack [OF this] apply_call_returnn_stack [OF returned(1)]
          show ?thesis by simp
        qed
      qed
    qed
  qed
qed


lemma new_copy_call_fields:
  assumes "new_copy_call h call tensor s = (copy_call, s')"
  shows "module_call_stack s' = module_call_stack s"
    and "nodes s' = nodes s"
    and "me_module (module_entries s' (ce_module (call_entries s' copy_call))) = Copy h"
  using assms
  by (auto simp: new_copy_call_def new_module_entry_def CallEntry_init_def link_copy_call_def Let_def)

lemma assign_tensor_result_stack:
  "assign_tensor self t s = (r, s') \<Longrightarrow> module_call_stack s' = module_call_stack s"
  using assign_tensor_stack(1) [of self t s] by simp

lemma output_child_fields:
  "module_call_stack (set_child self nm (next_node s)
      (set_level (next_node s) p (new_node par name w r False s))) = module_call_stack s"
  "rn_calls (nodes (set_child self nm (next_node s)
      (set_level (next_node s) p (new_node par name w r False s))) (next_node s)) = []"
  "\<not> rn_is_subnet (nodes (set_child self nm (next_node s)
      (set_level (next_node s) p (new_node par name w r False s))) (next_node s))"
  by (simp_all add: set_child_def set_level_def new_node_def)

lemma register_returnn_subnet_output_setup_outcome:
  assumes run: "register_returnn_subnet_output_setup h self tensor s = Some (r, s')"
  shows "(\<forall>e. r = Inl e \<longrightarrow> module_call_stack s' = module_call_stack s)
       \<and> (\<forall>child copy_call. r = Inr (child, copy_call) \<longrightarrow>
            module_call_stack s' = module_call_stack s @ [copy_call]
            \<and> \<not> has_torch_forward (me_module (module_entries s' (ce_module (call_entries s' copy_call)))))"
proof -
  note d = run [unfolded register_returnn_subnet_output_setup_def Let_def]
  show ?thesis
  proof (cases "\<not> is_subnetwork s self \<or> \<not> wrap_to_returnn_enabled s")
    case True
    with d show ?thesis by (auto split: if_splits)
  next
    case g1: False
    show ?thesis
    proof (cases "name_for_tensor s self tensor")
      case (Inl e)
      with d g1 show ?thesis by auto
    next
      case nft: (Inr name_')
      show ?thesis
      proof (cases "map_of (rn_childs_by_name (nodes s self)) name_'")
        case None
        with d g1 nft show ?thesis by auto
      next
        case pr: (Some producer)
        let ?pc = "remdups (filter (\<lambda>c. c \<in> set (rn_calls (nodes s producer)))
                                   (te_output_from_calls (tensor_entries s tensor)))"
        show ?thesis
        proof (cases "length ?pc \<noteq> 1")
          case True
          with d g1 nft pr show ?thesis by auto
        next
          case len: False
          obtain r1 s1 where at: "assign_tensor self tensor s = (r1, s1)"
            by (cases "assign_tensor self tensor s")
          have st1: "module_call_stack s1 = module_call_stack s"
            using at by (rule assign_tensor_result_stack)
          show ?thesis
          proof (cases r1)
            case (Inl e)
            with d g1 nft pr len at st1 show ?thesis by auto
          next
            case r1: (Inr u)
            show ?thesis
            proof (cases "ReservedOutputName \<in> set (dict_keys (rn_childs_by_name (nodes s1 self)))")
              case True
              with d g1 nft pr len at r1 st1 show ?thesis by auto
            next
              case fresh: False
              let ?s3 = "set_child self ReservedOutputName (next_node s1)
                (set_level (next_node s1) self
                   (new_node (Some self) (Some ReservedOutputName)
                      (rn_wrap_to_returnn_enabled (nodes s1 self)) True False s1))"
              obtain copy_call s8 where ncc: "new_copy_call h (hd ?pc) tensor ?s3 = (copy_call, s8)"
                by (cases "new_copy_call h (hd ?pc) tensor ?s3")
              have ne: "ReservedOutputName \<noteq> []" by (simp add: ReservedOutputName_def)
              from d g1 nft pr len at r1 fresh ncc ne
              have a: "and_then (assign_call (next_node s1) copy_call s8) (\<lambda>_ s9.
                         return (next_node s1, copy_call)
                           (s9\<lparr>module_call_stack := module_call_stack s9 @ [copy_call]\<rparr>)) = Some (r, s')"
                by (simp add: RegisteredName_init_child)
              note f8 = new_copy_call_fields [OF ncc]
              have st8: "module_call_stack s8 = module_call_stack s"
                using f8(1) st1 by (simp add: output_child_fields)
              from a show ?thesis
              proof (cases rule: and_then_Some)
                case (raised e s9)
                from assign_call_binding [OF raised(1)] st8 raised(2) show ?thesis
                  by (simp add: binding_only_def)
              next
                case (returned v s9)
                have nc: "copy_call \<notin> set (rn_calls (nodes s8 (next_node s1)))"
                  by (simp add: f8(2) output_child_fields)
                have v: "v = ()" by simp
                from assign_call_returns [OF returned(1) [unfolded v] nc]
                have sub: "rn_is_subnet (nodes s8 (next_node s1))
                    \<longleftrightarrow> has_torch_forward (me_module (module_entries s8 (ce_module (call_entries s8 copy_call))))"
                  by blast
                have nofwd: "\<not> has_torch_forward (me_module (module_entries s8 (ce_module (call_entries s8 copy_call))))"
                  using sub by (simp add: f8(2) output_child_fields)
                from assign_call_binding [OF returned(1)] have b: "binding_only s8 s9" .
                have "me_module (module_entries s9 (ce_module (call_entries s9 copy_call)))
                      = me_module (module_entries s8 (ce_module (call_entries s8 copy_call)))"
                  using b by (simp add: binding_only_def)
                moreover have "module_call_stack s9 = module_call_stack s"
                  using b st8 by (simp add: binding_only_def)
                ultimately show ?thesis
                  using returned(2) nofwd by auto
              qed
            qed
          qed
        qed
      qed
    qed
  qed
qed


lemma register_returnn_subnet_output_finally_pushed:
  assumes "module_call_stack s = stack @ [copy_call]"
  shows "register_returnn_subnet_output_finally copy_call r s =
           Some (r, s\<lparr>module_call_stack := stack\<rparr>)"
  using assms by (cases r) (simp_all add: register_returnn_subnet_output_finally_def raise_def return_def)

lemma register_returnn_subnet_output_finish_stack:
  assumes "register_returnn_subnet_output_finish self tensor child copy_call s = Some (r, s')"
  shows "module_call_stack s' = module_call_stack s"
  using assms
  by (auto simp: register_returnn_subnet_output_finish_def define_output_def Let_def
      split: option.splits)

lemma register_returnn_subnet_output_stack:
  assumes "register_returnn_subnet_output n h self tensor s = Some (r, s')"
  shows "module_call_stack s' = module_call_stack s"
proof -
  from assms have a: "and_then (register_returnn_subnet_output_setup h self tensor s) (\<lambda>(child, copy_call) s1.
       case apply_call n h copy_call s1 of
         None \<Rightarrow> None
       | Some (r, s2) \<Rightarrow>
           and_then (register_returnn_subnet_output_finally copy_call r s2) (\<lambda>_ s3.
             register_returnn_subnet_output_finish self tensor child copy_call s3)) = Some (r, s')"
    by simp
  from a show ?thesis
  proof (cases rule: and_then_Some)
    case (raised e s1)
    with register_returnn_subnet_output_setup_outcome [OF raised(1)] show ?thesis by simp
  next
    case (returned v s1)
    obtain child copy_call where v: "v = (child, copy_call)" by (cases v)
    from register_returnn_subnet_output_setup_outcome [OF returned(1)] v
    have st1: "module_call_stack s1 = module_call_stack s @ [copy_call]"
      and prim: "\<not> has_torch_forward (me_module (module_entries s1 (ce_module (call_entries s1 copy_call))))"
      by simp_all
    from returned(2) v obtain r2 s2 where ap: "apply_call n h copy_call s1 = Some (r2, s2)"
      and fin: "and_then (register_returnn_subnet_output_finally copy_call r2 s2) (\<lambda>_ s3.
             register_returnn_subnet_output_finish self tensor child copy_call s3) = Some (r, s')"
      by (auto split: option.splits)
    from apply_call_primitive_stack [OF prim ap] st1
    have st2: "module_call_stack s2 = module_call_stack s @ [copy_call]" by simp
    note fin' = fin [unfolded register_returnn_subnet_output_finally_pushed [OF st2]]
    show ?thesis
    proof (cases r2)
      case (Inl e)
      with fin' show ?thesis by auto
    next
      case (Inr x)
      with fin' have "register_returnn_subnet_output_finish self tensor child copy_call
                        (s2\<lparr>module_call_stack := module_call_stack s\<rparr>) = Some (r, s')"
        by simp
      from register_returnn_subnet_output_finish_stack [OF this] show ?thesis by simp
    qed
  qed
qed

lemma register_returnn_subnet_output_reraises:
  assumes su: "register_returnn_subnet_output_setup h self tensor s = Some (Inr (child, copy_call), s1)"
    and ap: "apply_call n h copy_call s1 = Some (Inl e, s2)"
  shows "register_returnn_subnet_output n h self tensor s
           = Some (Inl e, s2\<lparr>module_call_stack := module_call_stack s\<rparr>)"
proof -
  from register_returnn_subnet_output_setup_outcome [OF su]
  have st1: "module_call_stack s1 = module_call_stack s @ [copy_call]"
    and prim: "\<not> has_torch_forward (me_module (module_entries s1 (ce_module (call_entries s1 copy_call))))"
    by simp_all
  from apply_call_primitive_stack [OF prim ap] st1
  have st2: "module_call_stack s2 = module_call_stack s @ [copy_call]" by simp
  show ?thesis
    by (simp add: su ap register_returnn_subnet_output_finally_pushed [OF st2])
qed

end
